theory Spec2Isabelle
  imports Main
begin

section \<open>JavaScript values\<close>

text \<open>
  The values that travel through \<^verbatim>\<open>gretchen\<close>: the option values of the
  configuration, the request body (declared \<^verbatim>\<open>any\<close>) and the \<^verbatim>\<open>headers\<close> option.
  A header container (an instance of the platform class \<^verbatim>\<open>Headers\<close>) is a list of
  name/value pairs in insertion order. The numbers among these values are integers.
\<close>

type_synonym header_list = "(string \<times> string) list"

datatype jsval =
    Undefined
  | Null
  | Bool bool
  | Num int
  | Str string
  | Arr "jsval list"
  | Obj "(string \<times> jsval) list"
  | HeadersV header_list

text \<open>JavaScript truthiness, as used by \<^verbatim>\<open>||\<close>, \<^verbatim>\<open>&&\<close>, \<^verbatim>\<open>if\<close> and \<^verbatim>\<open>?:\<close>.\<close>

fun truthy :: "jsval \<Rightarrow> bool" where
  "truthy Undefined = False"
| "truthy Null = False"
| "truthy (Bool b) = b"
| "truthy (Num n) = (n \<noteq> 0)"
| "truthy (Str s) = (s \<noteq> [])"
| "truthy (Arr xs) = True"
| "truthy (Obj kvs) = True"
| "truthy (HeadersV h) = True"

text \<open>\<^verbatim>\<open>v == null\<close>: true of \<^verbatim>\<open>null\<close> and of \<^verbatim>\<open>undefined\<close> only.\<close>

fun eq_null :: "jsval \<Rightarrow> bool" where
  "eq_null Undefined = True"
| "eq_null Null = True"
| "eq_null v = False"

text \<open>
  An options object (\<^verbatim>\<open>GretchenRequestInit\<close>, \<^verbatim>\<open>RequestInit\<close>) is a finite map from
  property names to values. A property can be present with the value \<^verbatim>\<open>undefined\<close>;
  reading an absent property gives \<^verbatim>\<open>undefined\<close> too.
\<close>

type_synonym object = "string \<rightharpoonup> jsval"

definition property :: "object \<Rightarrow> string \<Rightarrow> jsval" where
  "property obj k = (case obj k of None \<Rightarrow> Undefined | Some v \<Rightarrow> v)"

section \<open>Numbers\<close>

text \<open>
  A JavaScript number is an IEEE 754 double. The numbers that \<^verbatim>\<open>gretchen\<close> computes with are
  integers, or an infinity when a value is too large: the value of a string of digits, a
  count of milliseconds, a difference of two epochs.
\<close>

datatype number = Finite int | Infinity | MinusInfinity

text \<open>The number of binary digits of a natural number.\<close>

fun bit_length :: "nat \<Rightarrow> nat" where
  "bit_length n = (if n = 0 then 0 else Suc (bit_length (n div 2)))"

declare bit_length.simps [simp del]

text \<open>
  The integer nearest to \<open>n\<close> that a significand of 53 bits can hold, a tie going to the even
  significand.
\<close>

definition round_magnitude :: "nat \<Rightarrow> nat" where
  "round_magnitude n =
     (let e = bit_length n - 53; q = n div 2 ^ e; r = n mod 2 ^ e
      in if 2 ^ e < 2 * r \<or> (2 ^ e = 2 * r \<and> odd q) then (q + 1) * 2 ^ e else q * 2 ^ e)"

text \<open>The double nearest to an integer; the exponent of a double ends at \<open>2 ^ 1024\<close>.\<close>

definition to_double :: "int \<Rightarrow> number" where
  "to_double x =
     (let m = round_magnitude (nat \<bar>x\<bar>)
      in if 2 ^ 1024 \<le> m then (if 0 \<le> x then Infinity else MinusInfinity)
         else Finite (if 0 \<le> x then int m else - int m))"

text \<open>The mathematical value of a string of decimal digits.\<close>

definition decimal_value :: "string \<Rightarrow> int" where
  "decimal_value s = foldl (\<lambda>acc c. acc * 10 + (int (of_char c) - 48)) 0 s"

text \<open>\<^verbatim>\<open>Number(s)\<close> for a string of digits: the double nearest to its decimal value.\<close>

definition Number_digits :: "string \<Rightarrow> number" where
  "Number_digits s = to_double (decimal_value s)"

text \<open>\<^verbatim>\<open>x * k\<close> for a positive integer constant \<open>k\<close>, as in \<^verbatim>\<open>retryAfterSeconds * 1000\<close>.\<close>

fun js_times :: "number \<Rightarrow> int \<Rightarrow> number" where
  "js_times (Finite a) k = to_double (a * k)"
| "js_times Infinity k = Infinity"
| "js_times MinusInfinity k = MinusInfinity"

text \<open>\<^verbatim>\<open>a - b\<close> for two finite integers, as in \<^verbatim>\<open>retryAfterEpoch - nowEpoch\<close>.\<close>

definition js_minus :: "int \<Rightarrow> int \<Rightarrow> number" where
  "js_minus a b = to_double (a - b)"

text \<open>\<^verbatim>\<open>Math.max(0, x)\<close>.\<close>

fun Math_max_0 :: "number \<Rightarrow> number" where
  "Math_max_0 (Finite a) = Finite (max 0 a)"
| "Math_max_0 Infinity = Infinity"
| "Math_max_0 MinusInfinity = Finite 0"

section \<open>The platform class Headers\<close>

text \<open>Header names are compared after their letters A to Z are put in lower case.\<close>

definition lower_char :: "char \<Rightarrow> char" where
  "lower_char c =
     (case map_of (zip ''ABCDEFGHIJKLMNOPQRSTUVWXYZ'' ''abcdefghijklmnopqrstuvwxyz'') c of
        None \<Rightarrow> c
      | Some l \<Rightarrow> l)"

definition lower :: "string \<Rightarrow> string" where
  "lower s = map lower_char s"

definition same_name :: "string \<Rightarrow> string \<Rightarrow> bool" where
  "same_name a b = (lower a = lower b)"

fun join :: "string \<Rightarrow> string list \<Rightarrow> string" where
  "join sep [] = []"
| "join sep [v] = v"
| "join sep (v # w # vs) = v @ sep @ join sep (w # vs)"

text \<open>
  \<^verbatim>\<open>headers.get(name)\<close>: \<^verbatim>\<open>null\<close> (here \<open>None\<close>) when no header has that name, compared
  without regard to case; otherwise the values of all headers of that name, joined by
  a comma and a space.
\<close>

definition Headers_get :: "header_list \<Rightarrow> string \<Rightarrow> string option" where
  "Headers_get h name =
     (let vs = map snd (filter (\<lambda>(n, v). same_name n name) h)
      in if vs = [] then None else Some (join '', '' vs))"

text \<open>
  \<^verbatim>\<open>headers.set(name, value)\<close>: the first header of that name takes the value and the
  other ones of that name are removed; when there is none the pair is appended.
\<close>

fun set_first :: "string \<Rightarrow> string \<Rightarrow> header_list \<Rightarrow> header_list" where
  "set_first name value [] = []"
| "set_first name value ((n, v) # h) =
     (if same_name n name then (n, value) # filter (\<lambda>(m, u). \<not> same_name m name) h
      else (n, v) # set_first name value h)"

definition Headers_set :: "header_list \<Rightarrow> string \<Rightarrow> string \<Rightarrow> header_list" where
  "Headers_set h name value =
     (if Headers_get h name = None then h @ [(name, value)] else set_first name value h)"

text \<open>
  \<^verbatim>\<open>new Headers(init)\<close>. The argument is \<^verbatim>\<open>undefined\<close>, another container, a sequence
  of two-element sequences, or a record of names and values. The platform strips the
  white space around each value, and throws a \<^verbatim>\<open>TypeError\<close> (here \<open>Inl\<close>) when a
  name is not a token or a value holds a NUL, a line feed or a carriage return. Names
  and values are strings in \<^verbatim>\<open>HeadersInit\<close>; a value of another type is rejected
  here, while the platform would first convert it to a string.
\<close>

definition is_tchar :: "char \<Rightarrow> bool" where
  "is_tchar c =
     (let n = (of_char c :: nat)
      in (48 \<le> n \<and> n \<le> 57) \<or> (65 \<le> n \<and> n \<le> 90) \<or> (97 \<le> n \<and> n \<le> 122)
         \<or> n \<in> {33, 35, 36, 37, 38, 39, 42, 43, 45, 46, 94, 95, 96, 124, 126})"

definition valid_name :: "string \<Rightarrow> bool" where
  "valid_name n = (n \<noteq> [] \<and> list_all is_tchar n)"

definition is_http_whitespace :: "char \<Rightarrow> bool" where
  "is_http_whitespace c = ((of_char c :: nat) \<in> {9, 10, 13, 32})"

definition normalize_value :: "string \<Rightarrow> string" where
  "normalize_value v =
     rev (dropWhile is_http_whitespace (rev (dropWhile is_http_whitespace v)))"

definition valid_value :: "string \<Rightarrow> bool" where
  "valid_value v = list_all (\<lambda>c. (of_char c :: nat) \<notin> {0, 10, 13}) v"

definition append_header :: "header_list \<Rightarrow> string \<Rightarrow> string \<Rightarrow> string + header_list" where
  "append_header h name value =
     (let v = normalize_value value
      in if valid_name name \<and> valid_value v then Inr (h @ [(name, v)])
         else Inl ''TypeError'')"

fun fill_pairs :: "header_list \<Rightarrow> jsval list \<Rightarrow> string + header_list" where
  "fill_pairs h [] = Inr h"
| "fill_pairs h (Arr [Str name, Str value] # xs) =
     (case append_header h name value of Inl e \<Rightarrow> Inl e | Inr h' \<Rightarrow> fill_pairs h' xs)"
| "fill_pairs h (x # xs) = Inl ''TypeError''"

fun fill_record :: "header_list \<Rightarrow> (string \<times> jsval) list \<Rightarrow> string + header_list" where
  "fill_record h [] = Inr h"
| "fill_record h ((name, Str value) # kvs) =
     (case append_header h name value of Inl e \<Rightarrow> Inl e | Inr h' \<Rightarrow> fill_record h' kvs)"
| "fill_record h (kv # kvs) = Inl ''TypeError''"

fun Headers_new :: "jsval \<Rightarrow> string + header_list" where
  "Headers_new Undefined = Inr []"
| "Headers_new (HeadersV h) = Inr h"
| "Headers_new (Arr xs) = fill_pairs [] xs"
| "Headers_new (Obj kvs) = fill_record [] kvs"
| "Headers_new v = Inl ''TypeError''"

section \<open>Requests, responses and the platform\<close>

record request =
  req_url :: string
  req_method :: string
  req_headers :: header_list
  req_body :: "string option"

text \<open>The first argument of \<^verbatim>\<open>gretchen\<close>: \<^verbatim>\<open>string | URL | Request\<close>.\<close>

datatype input = StringInput string | URLInput string | RequestInput request

fun instanceof_Request :: "input \<Rightarrow> bool" where
  "instanceof_Request (RequestInput r) = True"
| "instanceof_Request i = False"

record response =
  status :: nat
  statusText :: string
  headers :: header_list
  bodyText :: string

text \<open>\<^verbatim>\<open>response.ok\<close>: the status is in the range 200 to 299.\<close>

definition ok :: "response \<Rightarrow> bool" where
  "ok r = (200 \<le> status r \<and> status r \<le> 299)"

text \<open>
  What \<^verbatim>\<open>gretchen\<close> consumes from its environment. The world \<open>'w\<close> is everything outside
  the function: the servers, the network and the clock.
  \<^item> \<open>fetch\<close> performs one request and gives the response, or the reason of a rejection;
  \<^item> \<open>Date_now\<close> reads the clock, in milliseconds since the epoch;
  \<^item> \<open>setTimeout\<close> is the world after a timer of the given delay has fired;
  \<^item> \<open>Date_parse\<close> is \<^verbatim>\<open>Number(new Date(s))\<close>, with \<open>None\<close> for \<^verbatim>\<open>NaN\<close>;
  \<^item> \<open>JSON_stringify\<close> gives a string or \<^verbatim>\<open>undefined\<close>, or throws;
  \<^item> \<open>JSON_parse\<close> parses the text of a response body, or throws.
\<close>

record 'w platform =
  fetch :: "input \<Rightarrow> object \<Rightarrow> 'w \<Rightarrow> (string + response) \<times> 'w"
  Date_now :: "'w \<Rightarrow> int"
  setTimeout :: "number \<Rightarrow> 'w \<Rightarrow> 'w"
  Date_parse :: "string \<Rightarrow> int option"
  JSON_stringify :: "jsval \<Rightarrow> string + jsval"
  JSON_parse :: "string \<Rightarrow> string + jsval"

section \<open>gretchen\<close>

text \<open>
  A rejected promise carries an \<^verbatim>\<open>HTTPError\<close> (message and response) or whatever the
  platform threw. A fulfilled one carries the response or the parsed body.
\<close>

datatype error = HTTPError string response | Thrown string

datatype result = Response response | Parsed jsval

subsection \<open>Numbers and strings\<close>

definition is_digit :: "char \<Rightarrow> bool" where
  "is_digit c = (let n = (of_char c :: nat) in 48 \<le> n \<and> n \<le> 57)"

text \<open>\<^verbatim>\<open>retryAfter.match(/^\d+$/)\<close>: one digit or more, and nothing else.\<close>

definition match_digits :: "string \<Rightarrow> bool" where
  "match_digits s = (s \<noteq> [] \<and> list_all is_digit s)"

text \<open>The decimal text of a number, as a template literal renders it.\<close>

fun string_of_nat :: "nat \<Rightarrow> string" where
  "string_of_nat n =
     (if n < 10 then [''0123456789'' ! n]
      else string_of_nat (n div 10) @ [''0123456789'' ! (n mod 10)])"

declare string_of_nat.simps [simp del]

subsection \<open>Lines 172 to 180: the value of the call\<close>

definition finalize ::
  "'w platform \<Rightarrow> jsval \<Rightarrow> jsval \<Rightarrow> response \<Rightarrow> error + result" where
  "finalize P throwOnError returnJSON response =
     (if truthy throwOnError \<and> \<not> ok response then
        Inl (HTTPError (string_of_nat (status response) @ '' '' @ statusText response) response)
      else if truthy returnJSON then
        (case JSON_parse P (bodyText response) of
           Inl e \<Rightarrow> Inl (Thrown e)
         | Inr v \<Rightarrow> Inr (Parsed v))
      else Inr (Response response))"

subsection \<open>Lines 147 to 181: the loop\<close>

text \<open>
  The loop has no bound, so the function is partial: \<open>None\<close> is a call that never
  settles.
\<close>

partial_function (option) gretchen_loop ::
  "'w platform \<Rightarrow> input \<Rightarrow> object \<Rightarrow> jsval \<Rightarrow> jsval \<Rightarrow> jsval \<Rightarrow> 'w
     \<Rightarrow> ((error + result) \<times> 'w) option" where
  "gretchen_loop P input init retryOnTooManyRequests throwOnError returnJSON w =
     (let nowEpoch = Date_now P w in
      case fetch P input init w of
        (Inl e, w1) \<Rightarrow> Some (Inl (Thrown e), w1)
      | (Inr response, w1) \<Rightarrow>
          if truthy retryOnTooManyRequests \<and> status response = 429 then
            (case Headers_get (headers response) ''retry-after'' of
               Some retryAfter \<Rightarrow>
                 if match_digits retryAfter then
                   (let retryAfterSeconds = Number_digits retryAfter;
                        delay = js_times retryAfterSeconds 1000
                    in gretchen_loop P input init retryOnTooManyRequests throwOnError
                         returnJSON (setTimeout P delay w1))
                 else
                   (case Date_parse P retryAfter of
                      Some retryAfterEpoch \<Rightarrow>
                        (let delay = Math_max_0 (js_minus retryAfterEpoch nowEpoch)
                         in gretchen_loop P input init retryOnTooManyRequests throwOnError
                              returnJSON (setTimeout P delay w1))
                    | None \<Rightarrow> Some (finalize P throwOnError returnJSON response, w1))
             | None \<Rightarrow> Some (finalize P throwOnError returnJSON response, w1))
          else Some (finalize P throwOnError returnJSON response, w1))"

declare gretchen_loop.simps [code]

subsection \<open>Lines 115 to 146: the options and the request\<close>

text \<open>
  \<^verbatim>\<open>...x\<close> inside an object literal copies the properties of \<open>x\<close>, and copies nothing
  when \<open>x\<close> is \<^verbatim>\<open>undefined\<close> (here \<open>None\<close>). A later property of the same name replaces
  an earlier one, so \<^verbatim>\<open>{...a, ...b}\<close> is \<open>spread a ++ spread b\<close>.
\<close>

definition spread :: "object option \<Rightarrow> object" where
  "spread x = (case x of None \<Rightarrow> Map.empty | Some obj \<Rightarrow> obj)"

text \<open>
  The parameter \<^verbatim>\<open>gretchenInit\<close> has the default value \<^verbatim>\<open>{}\<close>; the destructuring
  reads from the copy \<^verbatim>\<open>{...gretchenInit}\<close>.
\<close>

definition options :: "object option \<Rightarrow> object" where
  "options gretchenInit =
     Map.empty ++ spread (Some (case gretchenInit of None \<Rightarrow> Map.empty | Some g \<Rightarrow> g))"

text \<open>The names the destructuring pattern takes out; \<^verbatim>\<open>rest\<close> is a new object with the others.\<close>

definition destructured :: "string list" where
  "destructured =
     [''body'', ''requestJSON'', ''retryOnTooManyRequests'', ''returnJSON'', ''sendJSON'',
      ''throwOnError'']"

definition rest :: "object \<Rightarrow> object" where
  "rest obj = (\<lambda>k. if k \<in> set destructured then None else obj k)"

text \<open>Lines 128 to 133.\<close>

definition accept_json :: "jsval \<Rightarrow> jsval \<Rightarrow> object \<Rightarrow> error + object" where
  "accept_json requestJSON returnJSON init =
     (if truthy requestJSON \<or> truthy returnJSON then
        (case Headers_new (property init ''headers'') of
           Inl e \<Rightarrow> Inl (Thrown e)
         | Inr h \<Rightarrow>
             Inr (init(''headers'' \<mapsto> HeadersV
               (if Headers_get h ''accept'' = None
                then Headers_set h ''accept'' ''application/json'' else h))))
      else Inr init)"

text \<open>Lines 134 to 145.\<close>

definition send_json :: "'w platform \<Rightarrow> jsval \<Rightarrow> jsval \<Rightarrow> object \<Rightarrow> error + object" where
  "send_json P sendJSON body init =
     (if truthy sendJSON \<and> body \<noteq> Undefined then
        (let init1 = (if eq_null (property init ''method'')
                      then init(''method'' \<mapsto> Str ''POST'') else init)
         in case Headers_new (property init1 ''headers'') of
              Inl e \<Rightarrow> Inl (Thrown e)
            | Inr h \<Rightarrow>
                (let init2 = init1(''headers'' \<mapsto> HeadersV
                       (if Headers_get h ''content-type'' = None
                        then Headers_set h ''content-type'' ''application/json'' else h))
                 in case JSON_stringify P body of
                      Inl e \<Rightarrow> Inl (Thrown e)
                    | Inr text \<Rightarrow> Inr (init2(''body'' \<mapsto> text))))
      else Inr (init(''body'' \<mapsto> body)))"

text \<open>Lines 115 to 146: the second argument that \<^verbatim>\<open>fetch\<close> will receive.\<close>

definition request_init :: "'w platform \<Rightarrow> input \<Rightarrow> object option \<Rightarrow> error + object" where
  "request_init P input gretchenInit =
     (let opts = options gretchenInit;
          body = property opts ''body'';
          requestJSON = property opts ''requestJSON'';
          returnJSON = property opts ''returnJSON'';
          sendJSON = property opts ''sendJSON'';
          init = rest opts
      in if \<not> instanceof_Request input then
           (case accept_json requestJSON returnJSON init of
              Inl e \<Rightarrow> Inl e
            | Inr init' \<Rightarrow> send_json P sendJSON body init')
         else Inr init)"

subsection \<open>The function, and the factory of lines 322 to 328\<close>

definition gretchen ::
  "'w platform \<Rightarrow> input \<Rightarrow> object option \<Rightarrow> 'w \<Rightarrow> ((error + result) \<times> 'w) option" where
  "gretchen P input gretchenInit w =
     (let opts = options gretchenInit;
          retryOnTooManyRequests = property opts ''retryOnTooManyRequests'';
          returnJSON = property opts ''returnJSON'';
          throwOnError = property opts ''throwOnError''
      in case request_init P input gretchenInit of
           Inl e \<Rightarrow> Some (Inl e, w)
         | Inr init \<Rightarrow>
             gretchen_loop P input init retryOnTooManyRequests throwOnError returnJSON w)"

definition createGretchen ::
  "'w platform \<Rightarrow> object option \<Rightarrow> input \<Rightarrow> object option \<Rightarrow> 'w
     \<Rightarrow> ((error + result) \<times> 'w) option" where
  "createGretchen P init =
     (let initDefaults = init
      in (\<lambda>input init. gretchen P input (Some (spread initDefaults ++ spread init))))"

section \<open>The loop as a relation\<close>

text \<open>
  Lines 150 to 171 as a function of one response: the delay before the next attempt,
  or \<open>None\<close> when control falls through to line 172.
\<close>

definition retry_delay :: "'w platform \<Rightarrow> jsval \<Rightarrow> int \<Rightarrow> response \<Rightarrow> number option" where
  "retry_delay P retryOnTooManyRequests nowEpoch response =
     (if truthy retryOnTooManyRequests \<and> status response = 429 then
        (case Headers_get (headers response) ''retry-after'' of
           None \<Rightarrow> None
         | Some retryAfter \<Rightarrow>
             if match_digits retryAfter then Some (js_times (Number_digits retryAfter) 1000)
             else (case Date_parse P retryAfter of
                     None \<Rightarrow> None
                   | Some retryAfterEpoch \<Rightarrow>
                       Some (Math_max_0 (js_minus retryAfterEpoch nowEpoch))))
      else None)"

text \<open>
  \<open>loop_exit P input init retry w x w'\<close>: the loop entered in the world \<open>w\<close> leaves in
  the world \<open>w'\<close>, either with the terminal response \<open>Inr r\<close>, the one that is not
  retried, or because \<^verbatim>\<open>fetch\<close> rejected with \<open>Inl e\<close>.
\<close>

inductive loop_exit ::
  "'w platform \<Rightarrow> input \<Rightarrow> object \<Rightarrow> jsval \<Rightarrow> 'w \<Rightarrow> string + response \<Rightarrow> 'w \<Rightarrow> bool"
  for P :: "'w platform" and input :: input and init :: object and retry :: jsval where
  rejected:
    "fetch P input init w = (Inl e, w1) \<Longrightarrow> loop_exit P input init retry w (Inl e) w1"
| terminal:
    "fetch P input init w = (Inr r, w1) \<Longrightarrow> retry_delay P retry (Date_now P w) r = None
       \<Longrightarrow> loop_exit P input init retry w (Inr r) w1"
| retried:
    "fetch P input init w = (Inr r, w1) \<Longrightarrow> retry_delay P retry (Date_now P w) r = Some d
       \<Longrightarrow> loop_exit P input init retry (setTimeout P d w1) x w'
       \<Longrightarrow> loop_exit P input init retry w x w'"

code_pred loop_exit .

text \<open>What the call settles to once the loop has left.\<close>

definition settle :: "'w platform \<Rightarrow> jsval \<Rightarrow> jsval \<Rightarrow> string + response \<Rightarrow> error + result" where
  "settle P throwOnError returnJSON x =
     (case x of Inl e \<Rightarrow> Inl (Thrown e) | Inr r \<Rightarrow> finalize P throwOnError returnJSON r)"

section \<open>A direct call of the transport\<close>

text \<open>
  The spec's comparison for the pass-through property: \<^verbatim>\<open>fetch(input, init)\<close> called once,
  its response given back as it is and its rejection passed on.
\<close>

definition direct_call ::
  "'w platform \<Rightarrow> input \<Rightarrow> object \<Rightarrow> 'w \<Rightarrow> (error + result) \<times> 'w" where
  "direct_call P input init w =
     (case fetch P input init w of
        (Inl e, w1) \<Rightarrow> (Inl (Thrown e), w1)
      | (Inr response, w1) \<Rightarrow> (Inr (Response response), w1))"

section \<open>The objects of a call, in a store\<close>

text \<open>
  Lines 115 to 146 once more, with the identity of objects made explicit, to see what
  they write to. The store is a list of objects; an address is an index in it, and a new
  object is put at its end. An object in the store is an options object (its own
  properties, in order) or a header container. A value is a reference to an object of the
  store, or a value that has no identity to share: a primitive, or plain data.
\<close>

datatype hval = Prim jsval | Ref nat

datatype hobj = PlainObject "(string \<times> hval) list" | HeadersObject header_list

type_synonym heap = "hobj list"

definition alloc :: "hobj \<Rightarrow> heap \<Rightarrow> nat \<times> heap" where
  "alloc obj H = (length H, H @ [obj])"

text \<open>The own properties of an object; a header container has none to spread.\<close>

definition own_properties :: "heap \<Rightarrow> nat \<Rightarrow> (string \<times> hval) list" where
  "own_properties H a =
     (if a < length H
      then (case H ! a of PlainObject kvs \<Rightarrow> kvs | HeadersObject h \<Rightarrow> [])
      else [])"

text \<open>\<^verbatim>\<open>obj.k\<close> and \<^verbatim>\<open>obj.k = v\<close>.\<close>

definition get_property :: "heap \<Rightarrow> nat \<Rightarrow> string \<Rightarrow> hval" where
  "get_property H a k =
     (case map_of (own_properties H a) k of None \<Rightarrow> Prim Undefined | Some v \<Rightarrow> v)"

fun put :: "string \<Rightarrow> hval \<Rightarrow> (string \<times> hval) list \<Rightarrow> (string \<times> hval) list" where
  "put k v [] = [(k, v)]"
| "put k v ((k', v') # kvs) = (if k' = k then (k, v) # kvs else (k', v') # put k v kvs)"

definition set_property :: "nat \<Rightarrow> string \<Rightarrow> hval \<Rightarrow> heap \<Rightarrow> heap" where
  "set_property a k v H =
     (if a < length H
      then (case H ! a of
              PlainObject kvs \<Rightarrow> H[a := PlainObject (put k v kvs)]
            | HeadersObject h \<Rightarrow> H)
      else H)"

text \<open>
  The value that a platform function reads when it is given a value of the store: a header
  container as it is now, a record of names and values as plain data.
\<close>

definition plain :: "hval \<Rightarrow> jsval" where
  "plain v = (case v of Prim x \<Rightarrow> x | Ref a \<Rightarrow> Undefined)"

definition read_value :: "heap \<Rightarrow> hval \<Rightarrow> jsval" where
  "read_value H v =
     (case v of
        Prim x \<Rightarrow> x
      | Ref a \<Rightarrow>
          if a < length H
          then (case H ! a of
                  HeadersObject h \<Rightarrow> HeadersV h
                | PlainObject kvs \<Rightarrow> Obj (map (\<lambda>(k, v). (k, plain v)) kvs))
          else Undefined)"

fun truthy_value :: "hval \<Rightarrow> bool" where
  "truthy_value (Prim x) = truthy x"
| "truthy_value (Ref a) = True"

fun eq_null_value :: "hval \<Rightarrow> bool" where
  "eq_null_value (Prim x) = eq_null x"
| "eq_null_value (Ref a) = False"

text \<open>\<^verbatim>\<open>new Headers(v)\<close> reads \<open>v\<close> and makes a new container.\<close>

definition Headers_new_heap :: "hval \<Rightarrow> heap \<Rightarrow> (string + nat) \<times> heap" where
  "Headers_new_heap v H =
     (case Headers_new (read_value H v) of
        Inl e \<Rightarrow> (Inl e, H)
      | Inr h \<Rightarrow> (case alloc (HeadersObject h) H of (a, H') \<Rightarrow> (Inr a, H')))"

text \<open>
  \<^verbatim>\<open>v.get(name) == null\<close> and \<^verbatim>\<open>v.set(name, value)\<close> for the value \<open>v\<close> of a property: they
  are methods of a header container, and a \<^verbatim>\<open>TypeError\<close> on anything else.
\<close>

definition get_is_null :: "heap \<Rightarrow> hval \<Rightarrow> string \<Rightarrow> string + bool" where
  "get_is_null H v name =
     (case v of
        Prim x \<Rightarrow> Inl ''TypeError''
      | Ref a \<Rightarrow>
          if a < length H
          then (case H ! a of
                  HeadersObject h \<Rightarrow> Inr (Headers_get h name = None)
                | PlainObject kvs \<Rightarrow> Inl ''TypeError'')
          else Inl ''TypeError'')"

definition set_header :: "hval \<Rightarrow> string \<Rightarrow> string \<Rightarrow> heap \<Rightarrow> heap" where
  "set_header v name value H =
     (case v of
        Prim x \<Rightarrow> H
      | Ref a \<Rightarrow>
          if a < length H
          then (case H ! a of
                  HeadersObject h \<Rightarrow> H[a := HeadersObject (Headers_set h name value)]
                | PlainObject kvs \<Rightarrow> H)
          else H)"

text \<open>Lines 128 to 133 on the object \<open>init\<close>.\<close>

definition accept_json_heap :: "hval \<Rightarrow> hval \<Rightarrow> nat \<Rightarrow> heap \<Rightarrow> (error + unit) \<times> heap" where
  "accept_json_heap requestJSON returnJSON init H =
     (if truthy_value requestJSON \<or> truthy_value returnJSON then
        (case Headers_new_heap (get_property H init ''headers'') H of
           (Inl e, H1) \<Rightarrow> (Inl (Thrown e), H1)
         | (Inr h, H1) \<Rightarrow>
             (let H2 = set_property init ''headers'' (Ref h) H1
              in case get_is_null H2 (get_property H2 init ''headers'') ''accept'' of
                   Inl e \<Rightarrow> (Inl (Thrown e), H2)
                 | Inr True \<Rightarrow>
                     (Inr (), set_header (get_property H2 init ''headers'') ''accept''
                                ''application/json'' H2)
                 | Inr False \<Rightarrow> (Inr (), H2)))
      else (Inr (), H))"

text \<open>Lines 134 to 145 on the object \<open>init\<close>; \<^verbatim>\<open>JSON.stringify\<close> reads the body.\<close>

definition send_json_heap ::
  "'w platform \<Rightarrow> hval \<Rightarrow> hval \<Rightarrow> nat \<Rightarrow> heap \<Rightarrow> (error + unit) \<times> heap" where
  "send_json_heap P sendJSON body init H =
     (if truthy_value sendJSON \<and> body \<noteq> Prim Undefined then
        (let H1 = (if eq_null_value (get_property H init ''method'')
                   then set_property init ''method'' (Prim (Str ''POST'')) H else H)
         in case Headers_new_heap (get_property H1 init ''headers'') H1 of
              (Inl e, H2) \<Rightarrow> (Inl (Thrown e), H2)
            | (Inr h, H2) \<Rightarrow>
                (let H3 = set_property init ''headers'' (Ref h) H2
                 in case get_is_null H3 (get_property H3 init ''headers'') ''content-type'' of
                      Inl e \<Rightarrow> (Inl (Thrown e), H3)
                    | Inr absent \<Rightarrow>
                        (let H4 = (if absent
                                   then set_header (get_property H3 init ''headers'')
                                          ''content-type'' ''application/json'' H3
                                   else H3)
                         in case JSON_stringify P (read_value H4 body) of
                              Inl e \<Rightarrow> (Inl (Thrown e), H4)
                            | Inr json \<Rightarrow>
                                (Inr (), set_property init ''body'' (Prim json) H4))))
      else (Inr (), set_property init ''body'' body H))"

text \<open>
  Lines 113 to 126. The argument \<open>gretchenInit\<close> is the address of the caller's options
  object, or \<open>None\<close> for \<^verbatim>\<open>undefined\<close>, when the default \<^verbatim>\<open>{}\<close> is made. The object literal
  \<^verbatim>\<open>{...gretchenInit}\<close> is a new object with the own properties of the caller's, and the
  rest pattern makes one more new object, with the properties that are not named in the
  pattern. The result is the address of the copy, where the six named properties are
  read, and the address of \<open>rest\<close>.
\<close>

definition destructure :: "nat option \<Rightarrow> heap \<Rightarrow> (nat \<times> nat) \<times> heap" where
  "destructure gretchenInit H =
     (case (case gretchenInit of None \<Rightarrow> alloc (PlainObject []) H | Some a \<Rightarrow> (a, H)) of
        (g, H0) \<Rightarrow>
     (case alloc (PlainObject (own_properties H0 g)) H0 of
        (copy, H1) \<Rightarrow>
     (case alloc (PlainObject
              (filter (\<lambda>(k, v). k \<notin> set destructured) (own_properties H1 copy))) H1 of
        (rest_object, H2) \<Rightarrow> ((copy, rest_object), H2))))"

text \<open>What \<^verbatim>\<open>fetch\<close> reads when it is given the object at an address.\<close>

definition read_object :: "heap \<Rightarrow> nat \<Rightarrow> object" where
  "read_object H a = map_of (map (\<lambda>(k, v). (k, read_value H v)) (own_properties H a))"

text \<open>
  The function, lines 111 to 182, with the store: the result is the store when the
  request has been prepared, and the outcome of the call. The loop of lines 147 to 181
  has no assignment to a property and calls no method but \<^verbatim>\<open>response.headers.get\<close> and
  \<^verbatim>\<open>response.json\<close>, on the response; it hands \<open>input\<close> and \<open>init\<close> to \<^verbatim>\<open>fetch\<close>, which reads them.
\<close>

definition gretchen_heap ::
  "'w platform \<Rightarrow> input \<Rightarrow> nat option \<Rightarrow> heap \<Rightarrow> 'w
     \<Rightarrow> heap \<times> ((error + result) \<times> 'w) option" where
  "gretchen_heap P input gretchenInit H w =
     (case destructure gretchenInit H of
        ((copy, rest_object), H2) \<Rightarrow>
     (let body = get_property H2 copy ''body'';
          requestJSON = get_property H2 copy ''requestJSON'';
          retryOnTooManyRequests = get_property H2 copy ''retryOnTooManyRequests'';
          returnJSON = get_property H2 copy ''returnJSON'';
          sendJSON = get_property H2 copy ''sendJSON'';
          throwOnError = get_property H2 copy ''throwOnError'';
          init = rest_object
      in case (if \<not> instanceof_Request input then
                 (case accept_json_heap requestJSON returnJSON init H2 of
                    (Inl e, H3) \<Rightarrow> (Inl e, H3)
                  | (Inr u, H3) \<Rightarrow> send_json_heap P sendJSON body init H3)
               else (Inr (), H2)) of
           (Inl e, H4) \<Rightarrow> (H4, Some (Inl e, w))
         | (Inr u, H4) \<Rightarrow>
             (H4, gretchen_loop P input (read_object H4 init)
                    (read_value H4 retryOnTooManyRequests) (read_value H4 throwOnError)
                    (read_value H4 returnJSON) w)))"

text \<open>
  The store and the values of the options. A value of the store is read as plain data by
  \<open>read_value\<close>; a configuration in the store is well formed when the references among its
  own properties are to objects of the store.
\<close>

definition below :: "nat \<Rightarrow> hval \<Rightarrow> bool" where
  "below n v = (case v of Prim x \<Rightarrow> True | Ref a \<Rightarrow> a < n)"

definition well_formed :: "heap \<Rightarrow> nat option \<Rightarrow> bool" where
  "well_formed H gretchenInit =
     (case gretchenInit of
        None \<Rightarrow> True
      | Some g \<Rightarrow> list_all (\<lambda>(k, v). below (length H) v) (own_properties H g))"

text \<open>
  For the comparison of the two readings of the function: a value that is not a reference
  to the object \<open>init\<close>, a store that keeps every object of another but \<open>init\<close>, and the
  object \<open>init\<close> with its properties.
\<close>

definition elsewhere :: "heap \<Rightarrow> nat \<Rightarrow> hval \<Rightarrow> bool" where
  "elsewhere X init v = (case v of Prim x \<Rightarrow> True | Ref a \<Rightarrow> a < length X \<and> a \<noteq> init)"

definition keeps :: "heap \<Rightarrow> nat \<Rightarrow> heap \<Rightarrow> bool" where
  "keeps X init Y =
     (length X \<le> length Y \<and> (\<forall>a. a < length X \<longrightarrow> a \<noteq> init \<longrightarrow> Y ! a = X ! a))"

definition init_at :: "heap \<Rightarrow> nat \<Rightarrow> (string \<times> hval) list \<Rightarrow> bool" where
  "init_at X init kvs =
     (init < length X \<and> X ! init = PlainObject kvs \<and>
      list_all (\<lambda>(k, v). elsewhere X init v) kvs)"

section \<open>A scripted platform\<close>

text \<open>
  A small world to run the function in: a clock, the responses the server will give in
  turn, the delays of the timers that have fired, and the requests that reached
  \<^verbatim>\<open>fetch\<close>. Each request takes ten milliseconds.
\<close>

record world =
  clock :: int
  script :: "(string + response) list"
  timers :: "number list"
  sent :: "(input \<times> object) list"

definition scripted_fetch :: "input \<Rightarrow> object \<Rightarrow> world \<Rightarrow> (string + response) \<times> world" where
  "scripted_fetch input init w =
     (case script w of
        [] \<Rightarrow> (Inl ''TypeError: fetch failed'', w\<lparr>sent := sent w @ [(input, init)]\<rparr>)
      | x # xs \<Rightarrow>
          (x, w\<lparr>clock := clock w + 10, script := xs, sent := sent w @ [(input, init)]\<rparr>))"

definition scripted_timeout :: "number \<Rightarrow> world \<Rightarrow> world" where
  "scripted_timeout delay w =
     w\<lparr>clock := clock w + (case delay of Finite d \<Rightarrow> d | Infinity \<Rightarrow> 1 | MinusInfinity \<Rightarrow> 1),
       timers := timers w @ [delay]\<rparr>"

definition scripted_date :: "string \<Rightarrow> int option" where
  "scripted_date s =
     (if s = ''Thu, 01 Jan 1970 00:00:00 GMT'' then Some 0
      else if s = ''Thu, 01 Jan 1970 00:00:02 GMT'' then Some 2000
      else if s = ''2024-01-01'' then Some 1704067200000
      else None)"

definition scripted_stringify :: "jsval \<Rightarrow> string + jsval" where
  \<open>scripted_stringify v =
     (if v = Obj [(''Wednesday'', Str ''pink'')] then Inr (Str ''{"Wednesday":"pink"}'')
      else if v = Obj [(''a'', Num 1)] then Inr (Str ''{"a":1}'')
      else Inl ''TypeError'')\<close>

definition scripted_parse :: "string \<Rightarrow> string + jsval" where
  \<open>scripted_parse s =
     (if s = ''{"Wednesday":"pink"}'' then Inr (Obj [(''Wednesday'', Str ''pink'')])
      else if s = ''{"a":1}'' then Inr (Obj [(''a'', Num 1)])
      else Inl ''SyntaxError'')\<close>

definition scripted :: "world platform" where
  "scripted =
     \<lparr>fetch = scripted_fetch, Date_now = clock, setTimeout = scripted_timeout,
      Date_parse = scripted_date, JSON_stringify = scripted_stringify,
      JSON_parse = scripted_parse\<rparr>"

definition respond :: "nat \<Rightarrow> string \<Rightarrow> header_list \<Rightarrow> string \<Rightarrow> response" where
  "respond s t h b = \<lparr>status = s, statusText = t, headers = h, bodyText = b\<rparr>"

definition start :: "(string + response) list \<Rightarrow> world" where
  "start xs = \<lparr>clock = 0, script = xs, timers = [], sent = []\<rparr>"

text \<open>The value of one property in each request that reached \<^verbatim>\<open>fetch\<close>, in order.\<close>

definition sent_property :: "string \<Rightarrow> world \<Rightarrow> jsval option list" where
  "sent_property k w = map (\<lambda>(input, init). init k) (sent w)"

text \<open>The responses of the examples.\<close>

definition seconds_429 :: response where
  "seconds_429 = respond 429 ''Too Many Requests'' [(''Retry-After'', ''1'')] []"

definition date_429 :: response where
  "date_429 =
     respond 429 ''Too Many Requests'' [(''Retry-After'', ''Thu, 01 Jan 1970 00:00:02 GMT'')] []"

definition past_429 :: response where
  "past_429 =
     respond 429 ''Too Many Requests'' [(''Retry-After'', ''Thu, 01 Jan 1970 00:00:00 GMT'')] []"

definition invalid_429 :: response where
  "invalid_429 = respond 429 ''Too Many Requests'' [(''Retry-After'', ''foo'')] []"

definition foo_bar :: response where
  \<open>foo_bar = respond 200 ''OK'' [(''Content-Type'', ''application/json'')] ''{"a":1}''\<close>

definition error_500 :: response where
  \<open>error_500 = respond 500 ''Internal Server Error'' [] ''{"a":1}''\<close>

definition two_minutes_429 :: response where
  "two_minutes_429 = respond 429 ''Too Many Requests'' [(''retry-after'', ''120'')] []"

definition large_429 :: response where
  "large_429 =
     respond 429 ''Too Many Requests'' [(''Retry-After'', ''9007199254740993'')] []"

definition iso_429 :: response where
  "iso_429 = respond 429 ''Too Many Requests'' [(''Retry-After'', ''2024-01-01'')] []"

definition bare_429 :: response where
  "bare_429 = respond 429 ''Too Many Requests'' [] []"

section \<open>HTTP dates\<close>

text \<open>
  Modelled from the spec: an HTTP date. The source never tests for one: it gives the
  header value to \<^verbatim>\<open>new Date\<close>. This is the grammar \<^verbatim>\<open>HTTP-date\<close> of RFC 9110, section
  5.6.7, with its three forms
  \<^verbatim>\<open>Sun, 06 Nov 1994 08:49:37 GMT\<close>, \<^verbatim>\<open>Sunday, 06-Nov-94 08:49:37 GMT\<close> and
  \<^verbatim>\<open>Sun Nov  6 08:49:37 1994\<close>.
\<close>

definition day_names :: "string list" where
  "day_names = [''Mon'', ''Tue'', ''Wed'', ''Thu'', ''Fri'', ''Sat'', ''Sun'']"

definition day_names_long :: "string list" where
  "day_names_long =
     [''Monday'', ''Tuesday'', ''Wednesday'', ''Thursday'', ''Friday'', ''Saturday'', ''Sunday'']"

definition month_names :: "string list" where
  "month_names =
     [''Jan'', ''Feb'', ''Mar'', ''Apr'', ''May'', ''Jun'', ''Jul'', ''Aug'', ''Sep'', ''Oct'',
      ''Nov'', ''Dec'']"

definition digits_n :: "nat \<Rightarrow> string \<Rightarrow> bool" where
  "digits_n k s = (length s = k \<and> list_all is_digit s)"

definition time_of_day :: "string \<Rightarrow> bool" where
  "time_of_day s =
     (length s = 8 \<and> digits_n 2 (take 2 s) \<and> take 1 (drop 2 s) = '':'' \<and>
      digits_n 2 (take 2 (drop 3 s)) \<and> take 1 (drop 5 s) = '':'' \<and> digits_n 2 (drop 6 s))"

definition imf_fixdate :: "string \<Rightarrow> bool" where
  "imf_fixdate s =
     (length s = 29 \<and> take 3 s \<in> set day_names \<and> take 2 (drop 3 s) = '', '' \<and>
      digits_n 2 (take 2 (drop 5 s)) \<and> take 1 (drop 7 s) = '' '' \<and>
      take 3 (drop 8 s) \<in> set month_names \<and> take 1 (drop 11 s) = '' '' \<and>
      digits_n 4 (take 4 (drop 12 s)) \<and> take 1 (drop 16 s) = '' '' \<and>
      time_of_day (take 8 (drop 17 s)) \<and> drop 25 s = '' GMT'')"

definition rfc850_rest :: "string \<Rightarrow> bool" where
  "rfc850_rest t =
     (length t = 24 \<and> take 2 t = '', '' \<and> digits_n 2 (take 2 (drop 2 t)) \<and>
      take 1 (drop 4 t) = ''-'' \<and> take 3 (drop 5 t) \<in> set month_names \<and>
      take 1 (drop 8 t) = ''-'' \<and> digits_n 2 (take 2 (drop 9 t)) \<and>
      take 1 (drop 11 t) = '' '' \<and> time_of_day (take 8 (drop 12 t)) \<and> drop 20 t = '' GMT'')"

definition rfc850_date :: "string \<Rightarrow> bool" where
  "rfc850_date s =
     list_ex (\<lambda>d. take (length d) s = d \<and> rfc850_rest (drop (length d) s)) day_names_long"

definition asctime_date :: "string \<Rightarrow> bool" where
  "asctime_date s =
     (length s = 24 \<and> take 3 s \<in> set day_names \<and> take 1 (drop 3 s) = '' '' \<and>
      take 3 (drop 4 s) \<in> set month_names \<and> take 1 (drop 7 s) = '' '' \<and>
      (digits_n 2 (take 2 (drop 8 s)) \<or>
       take 1 (drop 8 s) = '' '' \<and> digits_n 1 (take 1 (drop 9 s))) \<and>
      take 1 (drop 10 s) = '' '' \<and> time_of_day (take 8 (drop 11 s)) \<and>
      take 1 (drop 19 s) = '' '' \<and> digits_n 4 (drop 20 s))"

definition is_http_date :: "string \<Rightarrow> bool" where
  "is_http_date s = (imf_fixdate s \<or> rfc850_date s \<or> asctime_date s)"

section \<open>The loop and its exit relation\<close>

lemma gretchen_loop_step:
  "fetch P input init w = (Inr r, w1) \<Longrightarrow>
   gretchen_loop P input init retry t rj w =
     (case retry_delay P retry (Date_now P w) r of
        Some d \<Rightarrow> gretchen_loop P input init retry t rj (setTimeout P d w1)
      | None \<Rightarrow> Some (finalize P t rj r, w1))"
  by (subst gretchen_loop.simps) (simp add: retry_delay_def Let_def split: option.splits)

lemma gretchen_loop_rejected:
  "fetch P input init w = (Inl e, w1) \<Longrightarrow>
   gretchen_loop P input init retry t rj w = Some (Inl (Thrown e), w1)"
  by (subst gretchen_loop.simps) simp

lemma loop_exit_gretchen_loop:
  "loop_exit P input init retry w x w' \<Longrightarrow>
   gretchen_loop P input init retry t rj w = Some (settle P t rj x, w')"
proof (induction rule: loop_exit.induct)
  case (rejected w e w1)
  then show ?case by (simp add: gretchen_loop_rejected settle_def)
next
  case (terminal w r w1)
  then show ?case by (simp add: gretchen_loop_step settle_def)
next
  case (retried w r w1 d x w')
  then show ?case by (simp add: gretchen_loop_step)
qed

lemma gretchen_loop_loop_exit:
  assumes "gretchen_loop P input init retry t rj w = Some y"
  shows "\<exists>x. loop_exit P input init retry w x (snd y) \<and> fst y = settle P t rj x"
proof -
  let ?Q = "\<lambda>args y. case args of ((((((P, input), init), retry), t), rj), w) \<Rightarrow>
              \<exists>x. loop_exit P input init retry w x (snd y) \<and> fst y = settle P t rj x"
  have "?Q ((((((P, input), init), retry), t), rj), w) y"
  proof (rule gretchen_loop.raw_induct[where Pa = ?Q, OF _ assms])
    fix loop :: "'a platform \<Rightarrow> input \<Rightarrow> object \<Rightarrow> jsval \<Rightarrow> jsval \<Rightarrow> jsval \<Rightarrow> 'a
                   \<Rightarrow> ((error + result) \<times> 'a) option"
    fix P input init retry t rj w y
    assume IH: "\<And>P input init retry t rj w y. loop P input init retry t rj w = Some y
                  \<Longrightarrow> ?Q ((((((P, input), init), retry), t), rj), w) y"
    assume step: "(let nowEpoch = Date_now P w in
      case fetch P input init w of
        (Inl e, w1) \<Rightarrow> Some (Inl (Thrown e), w1)
      | (Inr response, w1) \<Rightarrow>
          if truthy retry \<and> status response = 429 then
            (case Headers_get (headers response) ''retry-after'' of
               Some retryAfter \<Rightarrow>
                 if match_digits retryAfter then
                   (let retryAfterSeconds = Number_digits retryAfter;
                        delay = js_times retryAfterSeconds 1000
                    in loop P input init retry t rj (setTimeout P delay w1))
                 else
                   (case Date_parse P retryAfter of
                      Some retryAfterEpoch \<Rightarrow>
                        (let delay = Math_max_0 (js_minus retryAfterEpoch nowEpoch)
                         in loop P input init retry t rj (setTimeout P delay w1))
                    | None \<Rightarrow> Some (finalize P t rj response, w1))
             | None \<Rightarrow> Some (finalize P t rj response, w1))
          else Some (finalize P t rj response, w1)) = Some y"
    have goal: "\<exists>x. loop_exit P input init retry w x (snd y) \<and> fst y = settle P t rj x"
    proof (cases "fetch P input init w")
      case (Pair a w1)
      show ?thesis
      proof (cases a)
        case (Inl e)
        with Pair step have "y = (Inl (Thrown e), w1)"
          by simp
        moreover from Pair Inl have "loop_exit P input init retry w (Inl e) w1"
          by (simp add: loop_exit.rejected)
        ultimately show ?thesis
          by (auto simp: settle_def intro!: exI[of _ "Inl e"])
      next
        case (Inr r)
        show ?thesis
        proof (cases "retry_delay P retry (Date_now P w) r")
          case None
          with Pair Inr step have "y = (finalize P t rj r, w1)"
            by (auto simp: retry_delay_def Let_def split: if_splits option.splits)
          moreover from Pair Inr None have "loop_exit P input init retry w (Inr r) w1"
            by (simp add: loop_exit.terminal)
          ultimately show ?thesis
            by (auto simp: settle_def intro!: exI[of _ "Inr r"])
        next
          case (Some d)
          with Pair Inr step have "loop P input init retry t rj (setTimeout P d w1) = Some y"
            by (auto simp: retry_delay_def Let_def split: if_splits option.splits)
          from IH[OF this] obtain x where
            x: "loop_exit P input init retry (setTimeout P d w1) x (snd y)" "fst y = settle P t rj x"
            by auto
          from Pair Inr Some x(1) have "loop_exit P input init retry w x (snd y)"
            by (auto intro: loop_exit.retried)
          with x(2) show ?thesis
            by blast
        qed
      qed
    qed
    then show "?Q ((((((P, input), init), retry), t), rj), w) y"
      by simp
  qed
  then show ?thesis
    by simp
qed

section \<open>Evaluation\<close>

lemmas scripted_simps =
  scripted_def scripted_fetch_def scripted_timeout_def scripted_date_def
  scripted_stringify_def scripted_parse_def respond_def start_def

lemmas string_simps =
  Headers_get_def same_name_def lower_def lower_char_def match_digits_def is_digit_def
  Number_digits_def decimal_value_def

lemmas response_simps =
  seconds_429_def date_429_def past_429_def invalid_429_def foo_bar_def error_500_def
  two_minutes_429_def large_429_def iso_429_def bare_429_def

lemmas http_date_simps =
  is_http_date_def imf_fixdate_def rfc850_date_def rfc850_rest_def asctime_date_def
  time_of_day_def digits_n_def day_names_def day_names_long_def month_names_def

lemmas number_simps =
  Number_digits_def decimal_value_def to_double_def round_magnitude_def bit_length.simps
  js_minus_def Let_def

section \<open>Double arithmetic on integers\<close>

lemma bit_length_le: "n < 2 ^ k \<Longrightarrow> bit_length n \<le> k"
proof (induction k arbitrary: n)
  case 0
  then show ?case by (simp add: bit_length.simps)
next
  case (Suc k)
  show ?case
  proof (cases "n = 0")
    case True
    then show ?thesis by (simp add: bit_length.simps)
  next
    case False
    from Suc.prems have "n div 2 < 2 ^ k" by simp
    then have "bit_length (n div 2) \<le> k" by (rule Suc.IH)
    with False show ?thesis by (subst bit_length.simps) simp
  qed
qed

lemma round_magnitude_exact: "n < 2 ^ 53 \<Longrightarrow> round_magnitude n = n"
  using bit_length_le[of n 53] by (simp add: round_magnitude_def)

lemma to_double_exact: "\<bar>x\<bar> < 2 ^ 53 \<Longrightarrow> to_double x = Finite x"
proof -
  assume a: "\<bar>x\<bar> < 2 ^ 53"
  then have "nat \<bar>x\<bar> < 2 ^ 53"
    by (simp add: nat_less_iff)
  then have r: "round_magnitude (nat \<bar>x\<bar>) = nat \<bar>x\<bar>"
    by (rule round_magnitude_exact)
  have "(2::int) ^ 53 \<le> 2 ^ 1024"
    by (rule power_increasing) simp_all
  with a have "\<bar>x\<bar> < 2 ^ 1024"
    by linarith
  then have "\<not> 2 ^ 1024 \<le> nat \<bar>x\<bar>"
    by (simp add: le_nat_iff)
  with r show ?thesis
    by (auto simp: to_double_def Let_def)
qed

lemma digit_nonneg: "is_digit c \<Longrightarrow> 0 \<le> int (of_char c) - 48"
  by (simp add: is_digit_def Let_def)

lemma foldl_digits_nonneg:
  "list_all is_digit s \<Longrightarrow> 0 \<le> acc \<Longrightarrow>
   0 \<le> foldl (\<lambda>acc c. acc * 10 + (int (of_char c) - 48)) acc s"
proof (induction s arbitrary: acc)
  case Nil
  then show ?case by simp
next
  case (Cons c s)
  from Cons.prems have "0 \<le> acc * 10 + (int (of_char c) - 48)"
    using digit_nonneg[of c] by simp
  with Cons show ?case by simp
qed

lemma decimal_value_nonneg: "match_digits s \<Longrightarrow> 0 \<le> decimal_value s"
  by (simp add: match_digits_def decimal_value_def foldl_digits_nonneg)

lemma digit_char: "d < 10 \<Longrightarrow> int (of_char (''0123456789'' ! d)) - 48 = int d"
proof -
  assume "d < 10"
  then have "d = 0 \<or> d = 1 \<or> d = 2 \<or> d = 3 \<or> d = 4 \<or> d = 5 \<or> d = 6 \<or> d = 7 \<or> d = 8 \<or> d = 9"
    by arith
  then show ?thesis
    by (elim disjE) simp_all
qed

lemma digit_char_is_digit: "d < 10 \<Longrightarrow> is_digit (''0123456789'' ! d)"
proof -
  assume "d < 10"
  then have "d = 0 \<or> d = 1 \<or> d = 2 \<or> d = 3 \<or> d = 4 \<or> d = 5 \<or> d = 6 \<or> d = 7 \<or> d = 8 \<or> d = 9"
    by arith
  then show ?thesis
    by (elim disjE) (simp_all add: is_digit_def)
qed

lemma decimal_value_snoc:
  "decimal_value (s @ [c]) = decimal_value s * 10 + (int (of_char c) - 48)"
  by (simp add: decimal_value_def)

lemma decimal_value_string_of_nat: "decimal_value (string_of_nat n) = int n"
proof (induction n rule: string_of_nat.induct)
  case (1 n)
  show ?case
  proof (cases "n < 10")
    case True
    then show ?thesis
      by (subst string_of_nat.simps) (simp add: decimal_value_def digit_char)
  next
    case False
    have "n mod 10 < 10" by simp
    moreover have "int (n div 10) * 10 + int (n mod 10) = int n"
      by presburger
    ultimately show ?thesis
      using False 1 by (subst string_of_nat.simps) (simp add: decimal_value_snoc digit_char)
  qed
qed

lemma string_of_nat_digits: "list_all is_digit (string_of_nat n) \<and> string_of_nat n \<noteq> []"
proof (induction n rule: string_of_nat.induct)
  case (1 n)
  show ?case
  proof (cases "n < 10")
    case True
    then show ?thesis
      by (subst (1 2) string_of_nat.simps) (simp add: digit_char_is_digit)
  next
    case False
    have "n mod 10 < 10" by simp
    with False 1 show ?thesis
      by (subst (1 2) string_of_nat.simps) (simp add: digit_char_is_digit)
  qed
qed

lemma match_digits_string_of_nat: "match_digits (string_of_nat n)"
  by (simp add: match_digits_def string_of_nat_digits)

lemma times_1000_exact:
  assumes "match_digits s" and "decimal_value s * 1000 < 2 ^ 53"
  shows "js_times (Number_digits s) 1000 = Finite (decimal_value s * 1000)"
proof -
  from assms(1) have n: "0 \<le> decimal_value s"
    by (rule decimal_value_nonneg)
  with assms(2) have "\<bar>decimal_value s\<bar> < 2 ^ 53" "\<bar>decimal_value s * 1000\<bar> < 2 ^ 53"
    by simp_all
  then show ?thesis
    by (simp add: Number_digits_def to_double_exact)
qed

lemma max_0_minus_exact:
  "\<bar>a - b\<bar> < 2 ^ 53 \<Longrightarrow> Math_max_0 (js_minus a b) = Finite (max 0 (a - b))"
  by (simp add: js_minus_def to_double_exact)

lemma Math_max_0_nonneg: "Math_max_0 x = Finite d \<Longrightarrow> 0 \<le> d"
  by (cases x) auto

section \<open>HTTPError\<close>

lemma accept_json_not_HTTPError: "accept_json requestJSON returnJSON init \<noteq> Inl (HTTPError m r)"
  by (simp add: accept_json_def split: sum.splits)

lemma send_json_not_HTTPError: "send_json P sendJSON body init \<noteq> Inl (HTTPError m r)"
  by (simp add: send_json_def Let_def split: sum.splits)

lemma request_init_not_HTTPError: "request_init P input gretchenInit \<noteq> Inl (HTTPError m r)"
  by (auto simp: request_init_def Let_def accept_json_not_HTTPError send_json_not_HTTPError
      split: sum.splits)

lemma finalize_HTTPError:
  "finalize P t rj r' = Inl (HTTPError m r) \<longleftrightarrow>
     r' = r \<and> truthy t \<and> \<not> ok r \<and> m = string_of_nat (status r) @ '' '' @ statusText r"
  by (auto simp: finalize_def split: sum.splits)

lemma gretchen_loop_HTTPError:
  "gretchen_loop P input init retry t rj w = Some (Inl (HTTPError m r), w') \<longleftrightarrow>
     loop_exit P input init retry w (Inr r) w' \<and> truthy t \<and> \<not> ok r \<and>
     m = string_of_nat (status r) @ '' '' @ statusText r"
proof
  assume "gretchen_loop P input init retry t rj w = Some (Inl (HTTPError m r), w')"
  from gretchen_loop_loop_exit[OF this] obtain x where
    x: "loop_exit P input init retry w x w'" "Inl (HTTPError m r) = settle P t rj x"
    by auto
  from x(2) obtain r' where "x = Inr r'" "finalize P t rj r' = Inl (HTTPError m r)"
    by (cases x) (auto simp: settle_def)
  with x(1) show "loop_exit P input init retry w (Inr r) w' \<and> truthy t \<and> \<not> ok r \<and>
     m = string_of_nat (status r) @ '' '' @ statusText r"
    by (simp add: finalize_HTTPError)
next
  assume a: "loop_exit P input init retry w (Inr r) w' \<and> truthy t \<and> \<not> ok r \<and>
     m = string_of_nat (status r) @ '' '' @ statusText r"
  then have "finalize P t rj r = Inl (HTTPError m r)"
    by (simp add: finalize_HTTPError)
  with a loop_exit_gretchen_loop[of P input init retry w "Inr r" w' t rj]
  show "gretchen_loop P input init retry t rj w = Some (Inl (HTTPError m r), w')"
    by (simp add: settle_def)
qed

text \<open>
  Claim C3. A call is rejected with an \<^verbatim>\<open>HTTPError\<close> if and only if \<^verbatim>\<open>throwOnError\<close> is
  truthy and the loop left with a terminal response whose status is outside 200 to 299.
  The error carries that response, and its message is the status in decimal, a space and
  the status text: for the status 500 it begins with 500. A caller that does not enable
  \<^verbatim>\<open>throwOnError\<close> never gets an \<^verbatim>\<open>HTTPError\<close>.
\<close>

theorem HTTPError_iff_throwOnError:
  "(gretchen P input gretchenInit w = Some (Inl (HTTPError message r), w') \<longleftrightarrow>
      (\<exists>init. request_init P input gretchenInit = Inr init \<and>
         loop_exit P input init (property (options gretchenInit) ''retryOnTooManyRequests'')
           w (Inr r) w') \<and>
      truthy (property (options gretchenInit) ''throwOnError'') \<and> \<not> ok r \<and>
      message = string_of_nat (status r) @ '' '' @ statusText r) \<and>
   (status r = 500 \<longrightarrow>
      string_of_nat (status r) @ '' '' @ statusText r = ''500 '' @ statusText r) \<and>
   (\<not> truthy (property (options gretchenInit) ''throwOnError'') \<longrightarrow>
      gretchen P input gretchenInit w \<noteq> Some (Inl (HTTPError message r), w'))"
proof -
  have iff: "gretchen P input gretchenInit w = Some (Inl (HTTPError message r), w') \<longleftrightarrow>
      (\<exists>init. request_init P input gretchenInit = Inr init \<and>
         loop_exit P input init (property (options gretchenInit) ''retryOnTooManyRequests'')
           w (Inr r) w') \<and>
      truthy (property (options gretchenInit) ''throwOnError'') \<and> \<not> ok r \<and>
      message = string_of_nat (status r) @ '' '' @ statusText r"
  proof (cases "request_init P input gretchenInit")
    case (Inl e)
    then show ?thesis
      using request_init_not_HTTPError[of P input gretchenInit message r]
      by (auto simp: gretchen_def Let_def)
  next
    case (Inr init)
    then show ?thesis
      by (simp add: gretchen_def Let_def gretchen_loop_HTTPError)
  qed
  have "string_of_nat 500 = ''500''"
    by (simp add: string_of_nat.simps)
  with iff show ?thesis
    by auto
qed


theorem HTTPError_iff_throwOnError_witness:
  "gretchen scripted (StringInput ''http://h/error'')
     (Some [''throwOnError'' \<mapsto> Bool True]) (start [Inr error_500]) =
   Some (Inl (HTTPError ''500 Internal Server Error'' error_500),
     \<lparr>clock = 10, script = [], timers = [],
      sent = [(StringInput ''http://h/error'', [''body'' \<mapsto> Undefined])]\<rparr>) \<and>
   gretchen scripted (StringInput ''http://h/error'') None (start [Inr error_500]) \<noteq>
   Some (Inl (HTTPError ''500 Internal Server Error'' error_500),
     \<lparr>clock = 10, script = [], timers = [],
      sent = [(StringInput ''http://h/error'', [''body'' \<mapsto> Undefined])]\<rparr>)"
proof -
  let ?i = "StringInput ''http://h/error''"
  let ?g = "Some [''throwOnError'' \<mapsto> Bool True]"
  let ?w' = "\<lparr>clock = 10, script = [], timers = [],
               sent = [(?i, [''body'' \<mapsto> Undefined])]\<rparr>"
  have init: "request_init scripted ?i ?g = Inr [''body'' \<mapsto> Undefined]"
    by (auto simp: request_init_def options_def spread_def property_def rest_def
        destructured_def accept_json_def send_json_def Let_def)
  have "loop_exit scripted ?i [''body'' \<mapsto> Undefined] Undefined (start [Inr error_500])
          (Inr error_500) ?w'"
    by (rule loop_exit.terminal)
      (simp_all add: scripted_simps response_simps retry_delay_def)
  with init show ?thesis
    using HTTPError_iff_throwOnError[of scripted ?i ?g "start [Inr error_500]"
        "''500 Internal Server Error''" error_500 ?w']
      HTTPError_iff_throwOnError[of scripted ?i None "start [Inr error_500]"
        "''500 Internal Server Error''" error_500 ?w']
    by (simp add: options_def spread_def property_def ok_def response_simps respond_def
        string_of_nat.simps)
qed

section \<open>Header containers\<close>

lemma same_name_sym: "same_name a b = same_name b a"
  by (auto simp: same_name_def)

lemma same_name_trans: "same_name a b \<Longrightarrow> same_name b c \<Longrightarrow> same_name a c"
  by (simp add: same_name_def)

lemma Headers_get_same_name: "same_name n m \<Longrightarrow> Headers_get h n = Headers_get h m"
proof -
  assume "same_name n m"
  then have "(\<lambda>(k, v). same_name k n) = (\<lambda>(k, v :: string). same_name k m)"
    by (auto simp: same_name_def fun_eq_iff)
  then show ?thesis
    by (simp add: Headers_get_def)
qed

lemma Headers_get_None: "Headers_get h n = None \<longleftrightarrow> filter (\<lambda>(k, v). same_name k n) h = []"
  by (simp add: Headers_get_def)

lemma Headers_get_set_absent:
  assumes "Headers_get h n = None"
  shows "Headers_get (Headers_set h n v) m = (if same_name n m then Some v else Headers_get h m)"
proof (cases "same_name n m")
  case True
  with assms have "Headers_get h m = None"
    by (simp add: Headers_get_same_name)
  then have "filter (\<lambda>(k, v). same_name k m) h = []"
    by (simp add: Headers_get_None)
  with assms True show ?thesis
    by (simp add: Headers_set_def Headers_get_def)
next
  case False
  with assms show ?thesis
    by (simp add: Headers_set_def Headers_get_def)
qed

lemma accept_not_content_type: "\<not> same_name ''accept'' ''content-type''"
  by (simp add: same_name_def lower_def lower_char_def)

lemma content_type_not_accept: "\<not> same_name ''content-type'' ''accept''"
  by (simp add: same_name_def lower_def lower_char_def)

section \<open>The options\<close>

lemma options_None: "options None = Map.empty"
  by (simp add: options_def spread_def)

lemma options_Some: "options (Some g) = g"
  by (simp add: options_def spread_def)

lemma rest_apply: "rest obj k = (if k \<in> set destructured then None else obj k)"
  by (simp add: rest_def)

lemma rest_headers: "rest obj ''headers'' = obj ''headers''"
  by (simp add: rest_def destructured_def)

lemma rest_method: "rest obj ''method'' = obj ''method''"
  by (simp add: rest_def destructured_def)

lemma rest_body: "rest obj ''body'' = None"
  by (simp add: rest_def destructured_def)

text \<open>The header container after lines 128 to 133, and after lines 138 to 141.\<close>

lemma accept_json_Inr:
  assumes "accept_json requestJSON returnJSON init = Inr init1"
  shows "if truthy requestJSON \<or> truthy returnJSON
         then \<exists>h0. Headers_new (property init ''headers'') = Inr h0 \<and>
                init1 = init(''headers'' \<mapsto> HeadersV
                  (if Headers_get h0 ''accept'' = None
                   then Headers_set h0 ''accept'' ''application/json'' else h0))
         else init1 = init"
  using assms by (auto simp: accept_json_def split: sum.splits if_splits)

lemma send_json_Inr:
  assumes "send_json P sendJSON body init = Inr init2"
  shows "if truthy sendJSON \<and> body \<noteq> Undefined
         then \<exists>h1 text. Headers_new (property init ''headers'') = Inr h1 \<and>
                JSON_stringify P body = Inr text \<and>
                init2 = (init(''method'' \<mapsto>
                           (if eq_null (property init ''method'') then Str ''POST''
                            else property init ''method''),
                         ''headers'' \<mapsto> HeadersV
                           (if Headers_get h1 ''content-type'' = None
                            then Headers_set h1 ''content-type'' ''application/json'' else h1),
                         ''body'' \<mapsto> text))
         else init2 = init(''body'' \<mapsto> body)"
proof (cases "truthy sendJSON \<and> body \<noteq> Undefined")
  case False
  with assms show ?thesis
    by (auto simp: send_json_def)
next
  case True
  have m: "eq_null (property init ''method'') \<or> init ''method'' = Some (property init ''method'')"
    by (cases "init ''method''") (simp_all add: property_def)
  have p: "property (init(''method'' \<mapsto> Str ''POST'')) ''headers'' = property init ''headers''"
    by (simp add: property_def)
  from True assms m show ?thesis
    by (auto simp: send_json_def Let_def p fun_upd_idem split: sum.splits if_splits)
qed


lemma Headers_get_default:
  "Headers_get (if Headers_get h name = None then Headers_set h name v else h) n =
     (case Headers_get h n of
        Some u \<Rightarrow> Some u
      | None \<Rightarrow> if same_name name n then Some v else None)"
proof (cases "Headers_get h name")
  case None
  then show ?thesis
    using Headers_get_same_name[of name n h]
    by (auto simp: Headers_get_set_absent split: option.splits)
next
  case (Some u)
  then show ?thesis
    using Headers_get_same_name[of name n h]
    by (auto split: option.splits)
qed

lemma request_init_url:
  assumes "\<not> instanceof_Request input" and "request_init P input gretchenInit = Inr init"
  shows "\<exists>init1.
           accept_json (property (options gretchenInit) ''requestJSON'')
             (property (options gretchenInit) ''returnJSON'') (rest (options gretchenInit)) =
             Inr init1 \<and>
           send_json P (property (options gretchenInit) ''sendJSON'')
             (property (options gretchenInit) ''body'') init1 = Inr init"
  using assms by (auto simp: request_init_def Let_def split: sum.splits)

lemma property_rest_headers: "property (rest obj) ''headers'' = property obj ''headers''"
  by (simp add: property_def rest_headers)

lemma property_rest_method: "property (rest obj) ''method'' = property obj ''method''"
  by (simp add: property_def rest_method)

lemma property_upd: "property (obj(k \<mapsto> v)) k' = (if k' = k then v else property obj k')"
  by (simp add: property_def)

text \<open>The header container of the request, for a string or a URL.\<close>

lemma request_init_headers:
  assumes "\<not> instanceof_Request input"
    and "request_init P input gretchenInit = Inr init"
    and "Headers_new (property (options gretchenInit) ''headers'') = Inr h0"
  shows "Headers_new (property init ''headers'') = Inr
           (let h1 = (if truthy (property (options gretchenInit) ''requestJSON'') \<or>
                         truthy (property (options gretchenInit) ''returnJSON'')
                      then (if Headers_get h0 ''accept'' = None
                            then Headers_set h0 ''accept'' ''application/json'' else h0)
                      else h0)
            in if truthy (property (options gretchenInit) ''sendJSON'') \<and>
                  property (options gretchenInit) ''body'' \<noteq> Undefined
               then (if Headers_get h1 ''content-type'' = None
                     then Headers_set h1 ''content-type'' ''application/json'' else h1)
               else h1)"
proof -
  let ?o = "options gretchenInit"
  from request_init_url[OF assms(1,2)] obtain init1 where
    a: "accept_json (property ?o ''requestJSON'') (property ?o ''returnJSON'') (rest ?o) = Inr init1"
    and s: "send_json P (property ?o ''sendJSON'') (property ?o ''body'') init1 = Inr init"
    by blast
  let ?h1 = "if truthy (property ?o ''requestJSON'') \<or> truthy (property ?o ''returnJSON'')
             then (if Headers_get h0 ''accept'' = None
                   then Headers_set h0 ''accept'' ''application/json'' else h0)
             else h0"
  have h1: "Headers_new (property init1 ''headers'') = Inr ?h1"
    using accept_json_Inr[OF a] assms(3)
    by (auto simp: property_rest_headers property_upd split: if_splits)
  show ?thesis
    using send_json_Inr[OF s] h1
    by (auto simp: property_upd Let_def split: if_splits)
qed


section \<open>The request for a string or a URL\<close>

lemma request_init_succeeds:
  assumes "\<not> instanceof_Request input"
    and "Headers_new (property (options gretchenInit) ''headers'') = Inr h0"
    and "truthy (property (options gretchenInit) ''sendJSON'') \<and>
         property (options gretchenInit) ''body'' \<noteq> Undefined \<longrightarrow>
           JSON_stringify P (property (options gretchenInit) ''body'') = Inr json"
  shows "\<exists>init. request_init P input gretchenInit = Inr init"
proof -
  let ?o = "options gretchenInit"
  obtain init1 h1 where
    a: "accept_json (property ?o ''requestJSON'') (property ?o ''returnJSON'') (rest ?o) = Inr init1"
    and h1: "Headers_new (property init1 ''headers'') = Inr h1"
    using assms(2)
    by (cases "truthy (property ?o ''requestJSON'') \<or> truthy (property ?o ''returnJSON'')")
      (auto simp: accept_json_def property_rest_headers property_upd)
  have p: "property (init1(''method'' \<mapsto> Str ''POST'')) ''headers'' = property init1 ''headers''"
    by (simp add: property_def)
  have "\<exists>init. send_json P (property ?o ''sendJSON'') (property ?o ''body'') init1 = Inr init"
    using assms(3) h1 by (auto simp: send_json_def Let_def p)
  with a assms(1) show ?thesis
    by (auto simp: request_init_def Let_def)
qed

lemma request_init_body_method:
  assumes "\<not> instanceof_Request input"
    and "request_init P input gretchenInit = Inr init"
  shows "if truthy (property (options gretchenInit) ''sendJSON'') \<and>
            property (options gretchenInit) ''body'' \<noteq> Undefined
         then \<exists>json. JSON_stringify P (property (options gretchenInit) ''body'') = Inr json \<and>
                init ''body'' = Some json \<and>
                init ''method'' =
                  Some (if eq_null (property (options gretchenInit) ''method'') then Str ''POST''
                        else property (options gretchenInit) ''method'')
         else init ''body'' = Some (property (options gretchenInit) ''body'') \<and>
              init ''method'' = options gretchenInit ''method''"
proof -
  let ?o = "options gretchenInit"
  from request_init_url[OF assms] obtain init1 where
    a: "accept_json (property ?o ''requestJSON'') (property ?o ''returnJSON'') (rest ?o) = Inr init1"
    and s: "send_json P (property ?o ''sendJSON'') (property ?o ''body'') init1 = Inr init"
    by blast
  have m: "init1 ''method'' = ?o ''method''"
    using accept_json_Inr[OF a] by (auto simp: rest_method split: if_splits)
  then have pm: "property init1 ''method'' = property ?o ''method''"
    by (simp add: property_def)
  show ?thesis
    using send_json_Inr[OF s] m pm by (auto split: if_splits)
qed

section \<open>One attempt of a call\<close>

lemma gretchen_eq_loop:
  "request_init P input gretchenInit = Inr init \<Longrightarrow>
   gretchen P input gretchenInit w =
     gretchen_loop P input init
       (property (options gretchenInit) ''retryOnTooManyRequests'')
       (property (options gretchenInit) ''throwOnError'')
       (property (options gretchenInit) ''returnJSON'') w"
  by (simp add: gretchen_def Let_def)

lemma gretchen_step:
  assumes "request_init P input gretchenInit = Inr init"
    and "fetch P input init w = (Inr r, w1)"
  shows "gretchen P input gretchenInit w =
     (case retry_delay P (property (options gretchenInit) ''retryOnTooManyRequests'')
             (Date_now P w) r of
        Some d \<Rightarrow> gretchen P input gretchenInit (setTimeout P d w1)
      | None \<Rightarrow>
          Some (finalize P (property (options gretchenInit) ''throwOnError'')
                  (property (options gretchenInit) ''returnJSON'') r, w1))"
  by (simp add: gretchen_eq_loop[OF assms(1)] gretchen_loop_step[OF assms(2)]
      split: option.split)

lemma gretchen_rejected:
  assumes "request_init P input gretchenInit = Inr init"
    and "fetch P input init w = (Inl e, w1)"
  shows "gretchen P input gretchenInit w = Some (Inl (Thrown e), w1)"
  by (simp add: gretchen_eq_loop[OF assms(1)] gretchen_loop_rejected[OF assms(2)])

lemma gretchen_outcome:
  assumes "request_init P input gretchenInit = Inr init"
  shows "gretchen P input gretchenInit w = Some (out, w') \<longleftrightarrow>
     (\<exists>x. loop_exit P input init (property (options gretchenInit) ''retryOnTooManyRequests'')
            w x w' \<and>
          out = settle P (property (options gretchenInit) ''throwOnError'')
                  (property (options gretchenInit) ''returnJSON'') x)"
proof
  assume "gretchen P input gretchenInit w = Some (out, w')"
  then have "gretchen_loop P input init
       (property (options gretchenInit) ''retryOnTooManyRequests'')
       (property (options gretchenInit) ''throwOnError'')
       (property (options gretchenInit) ''returnJSON'') w = Some (out, w')"
    by (simp add: gretchen_eq_loop[OF assms])
  from gretchen_loop_loop_exit[OF this]
  show "\<exists>x. loop_exit P input init (property (options gretchenInit) ''retryOnTooManyRequests'')
            w x w' \<and>
          out = settle P (property (options gretchenInit) ''throwOnError'')
                  (property (options gretchenInit) ''returnJSON'') x"
    by simp
next
  assume "\<exists>x. loop_exit P input init (property (options gretchenInit) ''retryOnTooManyRequests'')
            w x w' \<and>
          out = settle P (property (options gretchenInit) ''throwOnError'')
                  (property (options gretchenInit) ''returnJSON'') x"
  then obtain x where
    "loop_exit P input init (property (options gretchenInit) ''retryOnTooManyRequests'') w x w'"
    and o: "out = settle P (property (options gretchenInit) ''throwOnError'')
                  (property (options gretchenInit) ''returnJSON'') x"
    by (elim exE conjE)
  from loop_exit_gretchen_loop[OF this(1)] o
  show "gretchen P input gretchenInit w = Some (out, w')"
    by (simp add: gretchen_eq_loop[OF assms])
qed

lemma request_init_plain:
  assumes "\<not> instanceof_Request input"
    and "\<not> truthy (property (options gretchenInit) ''requestJSON'')"
    and "\<not> truthy (property (options gretchenInit) ''returnJSON'')"
    and "\<not> (truthy (property (options gretchenInit) ''sendJSON'') \<and>
            property (options gretchenInit) ''body'' \<noteq> Undefined)"
  shows "request_init P input gretchenInit =
           Inr ((rest (options gretchenInit))
                  (''body'' \<mapsto> property (options gretchenInit) ''body''))"
  using assms by (auto simp: request_init_def accept_json_def send_json_def Let_def)

lemma request_init_Request:
  "instanceof_Request input \<Longrightarrow> request_init P input gretchenInit = Inr (rest (options gretchenInit))"
  by (simp add: request_init_def Let_def)

section \<open>The retry loop\<close>

text \<open>
  Claim C1, as amended. With \<^verbatim>\<open>retryOnTooManyRequests\<close> truthy, a response of status 429
  that carries a \<^verbatim>\<open>Retry-After\<close> header makes the call wait and start again. When the value
  is one decimal digit or more and nothing else, the timer is set to \<^verbatim>\<open>Number(value) * 1000\<close>
  in double arithmetic, which is the value times 1000 milliseconds whenever that product is
  below \<open>2 ^ 53\<close>: so for the decimal text of any such \<open>n\<close> it is \<open>n * 1000\<close>. Otherwise,
  when \<^verbatim>\<open>new Date\<close> parses the value, the timer is set to the maximum of 0 and the
  difference of the parsed epoch and the clock read at the top of this iteration, the
  difference being exact below \<open>2 ^ 53\<close>; it is never negative. After the timer the call
  behaves as a call entered afresh, which reads the clock again.
\<close>

theorem retry_after_suspends:
  assumes "request_init P input gretchenInit = Inr init"
    and "fetch P input init w = (Inr response, w1)"
    and "truthy (property (options gretchenInit) ''retryOnTooManyRequests'')"
    and "status response = 429"
    and "Headers_get (headers response) ''retry-after'' = Some retryAfter"
  shows "(match_digits retryAfter \<longrightarrow>
            gretchen P input gretchenInit w =
              gretchen P input gretchenInit
                (setTimeout P (js_times (Number_digits retryAfter) 1000) w1) \<and>
            (decimal_value retryAfter * 1000 < 2 ^ 53 \<longrightarrow>
               js_times (Number_digits retryAfter) 1000 =
                 Finite (decimal_value retryAfter * 1000)) \<and>
            (\<forall>n. retryAfter = string_of_nat n \<and> int n * 1000 < 2 ^ 53 \<longrightarrow>
               js_times (Number_digits retryAfter) 1000 = Finite (int n * 1000))) \<and>
         (\<not> match_digits retryAfter \<longrightarrow>
            (\<forall>retryAfterEpoch. Date_parse P retryAfter = Some retryAfterEpoch \<longrightarrow>
               gretchen P input gretchenInit w =
                 gretchen P input gretchenInit
                   (setTimeout P (Math_max_0 (js_minus retryAfterEpoch (Date_now P w))) w1) \<and>
               (\<bar>retryAfterEpoch - Date_now P w\<bar> < 2 ^ 53 \<longrightarrow>
                  Math_max_0 (js_minus retryAfterEpoch (Date_now P w)) =
                    Finite (max 0 (retryAfterEpoch - Date_now P w))) \<and>
               Math_max_0 (js_minus retryAfterEpoch (Date_now P w)) \<noteq> MinusInfinity \<and>
               (\<forall>d. Math_max_0 (js_minus retryAfterEpoch (Date_now P w)) = Finite d \<longrightarrow>
                  0 \<le> d)))"
proof (intro conjI impI allI)
  assume "match_digits retryAfter"
  with assms(3-5) have "retry_delay P (property (options gretchenInit) ''retryOnTooManyRequests'')
      (Date_now P w) response = Some (js_times (Number_digits retryAfter) 1000)"
    by (simp add: retry_delay_def)
  then show "gretchen P input gretchenInit w =
      gretchen P input gretchenInit (setTimeout P (js_times (Number_digits retryAfter) 1000) w1)"
    by (simp add: gretchen_step[OF assms(1,2)])
next
  assume "match_digits retryAfter" and "decimal_value retryAfter * 1000 < 2 ^ 53"
  then show "js_times (Number_digits retryAfter) 1000 = Finite (decimal_value retryAfter * 1000)"
    by (rule times_1000_exact)
next
  fix n
  assume "retryAfter = string_of_nat n \<and> int n * 1000 < 2 ^ 53"
  then show "js_times (Number_digits retryAfter) 1000 = Finite (int n * 1000)"
    using times_1000_exact[of "string_of_nat n"]
    by (simp add: match_digits_string_of_nat decimal_value_string_of_nat)
next
  fix retryAfterEpoch
  assume "\<not> match_digits retryAfter" and "Date_parse P retryAfter = Some retryAfterEpoch"
  with assms(3-5) have "retry_delay P (property (options gretchenInit) ''retryOnTooManyRequests'')
      (Date_now P w) response = Some (Math_max_0 (js_minus retryAfterEpoch (Date_now P w)))"
    by (simp add: retry_delay_def)
  then show "gretchen P input gretchenInit w =
      gretchen P input gretchenInit
        (setTimeout P (Math_max_0 (js_minus retryAfterEpoch (Date_now P w))) w1)"
    by (simp add: gretchen_step[OF assms(1,2)])
next
  fix retryAfterEpoch
  assume "\<bar>retryAfterEpoch - Date_now P w\<bar> < 2 ^ 53"
  then show "Math_max_0 (js_minus retryAfterEpoch (Date_now P w)) =
      Finite (max 0 (retryAfterEpoch - Date_now P w))"
    by (rule max_0_minus_exact)
next
  fix retryAfterEpoch
  show "Math_max_0 (js_minus retryAfterEpoch (Date_now P w)) \<noteq> MinusInfinity"
    by (cases "js_minus retryAfterEpoch (Date_now P w)") simp_all
next
  fix retryAfterEpoch d
  assume "Math_max_0 (js_minus retryAfterEpoch (Date_now P w)) = Finite d"
  then show "0 \<le> d"
    by (rule Math_max_0_nonneg)
qed


theorem retry_after_suspends_witness:
  "map_option (apsnd timers)
     (gretchen scripted (StringInput ''http://h/retry'')
        (Some [''retryOnTooManyRequests'' \<mapsto> Bool True])
        (start [Inr seconds_429, Inr date_429, Inr past_429, Inr two_minutes_429, Inr foo_bar])) =
   Some (Inr (Response foo_bar), [Finite 1000, Finite 990, Finite 0, Finite 120000])"
proof -
  let ?i = "StringInput ''http://h/retry''"
  let ?g = "Some [''retryOnTooManyRequests'' \<mapsto> Bool True]"
  define init where
    "init = (rest (options ?g))(''body'' \<mapsto> property (options ?g) ''body'')"
  have ri: "request_init scripted ?i ?g = Inr init"
    unfolding init_def by (rule request_init_plain) (simp_all add: options_Some property_def)
  have flag: "truthy (property (options ?g) ''retryOnTooManyRequests'')"
    by (simp add: options_Some property_def)
  let ?G = "gretchen scripted ?i ?g"
  let ?w0 = "start [Inr seconds_429, Inr date_429, Inr past_429, Inr two_minutes_429, Inr foo_bar]"
  let ?w1 = "setTimeout scripted (Finite 1000) (snd (fetch scripted ?i init ?w0))"
  let ?w2 = "setTimeout scripted (Finite 990) (snd (fetch scripted ?i init ?w1))"
  let ?w3 = "setTimeout scripted (Finite 0) (snd (fetch scripted ?i init ?w2))"
  let ?w4 = "setTimeout scripted (Finite 120000) (snd (fetch scripted ?i init ?w3))"
  note T = retry_after_suspends[OF ri _ flag]
  have "?G ?w0 = ?G ?w1"
    using T[where w = ?w0 and response = seconds_429 and retryAfter = "''1''"
        and ?w1.0 = "snd (fetch scripted ?i init ?w0)"]
    by (simp add: scripted_simps string_simps response_simps Number_digits_def to_double_exact)
  also have "\<dots> = ?G ?w2"
    using T[where w = ?w1 and response = date_429
        and retryAfter = "''Thu, 01 Jan 1970 00:00:02 GMT''"
        and ?w1.0 = "snd (fetch scripted ?i init ?w1)"]
    by (simp add: scripted_simps string_simps response_simps js_minus_def to_double_exact)
  also have "\<dots> = ?G ?w3"
    using T[where w = ?w2 and response = past_429
        and retryAfter = "''Thu, 01 Jan 1970 00:00:00 GMT''"
        and ?w1.0 = "snd (fetch scripted ?i init ?w2)"]
    by (simp add: scripted_simps string_simps response_simps js_minus_def to_double_exact)
  also have "\<dots> = ?G ?w4"
    using T[where w = ?w3 and response = two_minutes_429 and retryAfter = "''120''"
        and ?w1.0 = "snd (fetch scripted ?i init ?w3)"]
    by (simp add: scripted_simps string_simps response_simps Number_digits_def to_double_exact)
  finally have "?G ?w0 = ?G ?w4" .
  moreover have "map_option (apsnd timers) (?G ?w4) =
      Some (Inr (Response foo_bar), [Finite 1000, Finite 990, Finite 0, Finite 120000])"
    using gretchen_step[OF ri, where w = ?w4 and r = foo_bar
        and ?w1.0 = "snd (fetch scripted ?i init ?w4)"]
    by (simp add: scripted_simps string_simps response_simps retry_delay_def finalize_def
        ok_def options_Some property_def)
  ultimately show ?thesis
    by simp
qed

theorem retry_after_suspends_counterexample:
  "map_option (apsnd timers)
     (gretchen scripted (StringInput ''http://h/retry'')
        (Some [''retryOnTooManyRequests'' \<mapsto> Bool True])
        (start [Inr large_429, Inr foo_bar])) =
     Some (Inr (Response foo_bar), [Finite 9007199254740992000]) \<and>
   match_digits ''9007199254740993'' \<and>
   decimal_value ''9007199254740993'' * 1000 = 9007199254740993000"
proof -
  let ?i = "StringInput ''http://h/retry''"
  let ?g = "Some [''retryOnTooManyRequests'' \<mapsto> Bool True]"
  define init where
    "init = (rest (options ?g))(''body'' \<mapsto> property (options ?g) ''body'')"
  have ri: "request_init scripted ?i ?g = Inr init"
    unfolding init_def by (rule request_init_plain) (simp_all add: options_Some property_def)
  let ?G = "gretchen scripted ?i ?g"
  let ?w0 = "start [Inr large_429, Inr foo_bar]"
  let ?w1 = "setTimeout scripted (Finite 9007199254740992000) (snd (fetch scripted ?i init ?w0))"
  have n: "js_times (Number_digits ''9007199254740993'') 1000 = Finite 9007199254740992000"
    by (simp add: number_simps)
  have "?G ?w0 = ?G ?w1"
    using gretchen_step[OF ri, where w = ?w0 and r = large_429
        and ?w1.0 = "snd (fetch scripted ?i init ?w0)"] n
    by (simp add: scripted_simps string_simps response_simps retry_delay_def
        options_Some property_def)
  moreover have "map_option (apsnd timers) (?G ?w1) =
      Some (Inr (Response foo_bar), [Finite 9007199254740992000])"
    using gretchen_step[OF ri, where w = ?w1 and r = foo_bar
        and ?w1.0 = "snd (fetch scripted ?i init ?w1)"]
    by (simp add: scripted_simps string_simps response_simps retry_delay_def finalize_def
        ok_def options_Some property_def)
  moreover have "match_digits ''9007199254740993''"
    by (simp add: match_digits_def is_digit_def)
  moreover have "decimal_value ''9007199254740993'' * 1000 = 9007199254740993000"
    by (simp add: decimal_value_def)
  ultimately show ?thesis
    by simp
qed

section \<open>The end of the loop\<close>

text \<open>
  Claim C2, as amended. A call ends at a response exactly when that response is not
  retried. When \<^verbatim>\<open>retryOnTooManyRequests\<close> is falsy, or the status is not 429, or there is
  no \<^verbatim>\<open>Retry-After\<close> header, or its value is neither digits nor a string that \<^verbatim>\<open>new Date\<close>
  parses, the call settles with this response: it is rejected with an \<^verbatim>\<open>HTTPError\<close> that
  carries the response when \<^verbatim>\<open>throwOnError\<close> is truthy and the status is outside 200 to 299;
  otherwise, when \<^verbatim>\<open>returnJSON\<close> is truthy, it gives the body parsed as JSON, or the failure
  of the parser; otherwise it gives the response itself. In the remaining case the call
  goes on as a call entered again after a timer. (The strings that \<^verbatim>\<open>new Date\<close> parses are
  more than the HTTP dates: \<^verbatim>\<open>2024-01-01\<close> is one.)
\<close>

theorem loop_ends_unless_retried:
  assumes "request_init P input gretchenInit = Inr init"
    and "fetch P input init w = (Inr response, w1)"
  shows "(\<not> truthy (property (options gretchenInit) ''retryOnTooManyRequests'') \<or>
          status response \<noteq> 429 \<or>
          Headers_get (headers response) ''retry-after'' = None \<or>
          (\<exists>retryAfter. Headers_get (headers response) ''retry-after'' = Some retryAfter \<and>
             \<not> match_digits retryAfter \<and> Date_parse P retryAfter = None) \<longrightarrow>
            gretchen P input gretchenInit w =
              Some (if truthy (property (options gretchenInit) ''throwOnError'') \<and>
                       \<not> ok response
                    then Inl (HTTPError
                           (string_of_nat (status response) @ '' '' @ statusText response)
                           response)
                    else if truthy (property (options gretchenInit) ''returnJSON'')
                    then (case JSON_parse P (bodyText response) of
                            Inl e \<Rightarrow> Inl (Thrown e)
                          | Inr v \<Rightarrow> Inr (Parsed v))
                    else Inr (Response response),
                    w1)) \<and>
         (truthy (property (options gretchenInit) ''retryOnTooManyRequests'') \<and>
          status response = 429 \<and>
          (\<exists>retryAfter. Headers_get (headers response) ''retry-after'' = Some retryAfter \<and>
             (match_digits retryAfter \<or> Date_parse P retryAfter \<noteq> None)) \<longrightarrow>
            (\<exists>delay. gretchen P input gretchenInit w =
                        gretchen P input gretchenInit (setTimeout P delay w1)))"
proof (intro conjI impI)
  assume "\<not> truthy (property (options gretchenInit) ''retryOnTooManyRequests'') \<or>
          status response \<noteq> 429 \<or>
          Headers_get (headers response) ''retry-after'' = None \<or>
          (\<exists>retryAfter. Headers_get (headers response) ''retry-after'' = Some retryAfter \<and>
             \<not> match_digits retryAfter \<and> Date_parse P retryAfter = None)"
  then have "retry_delay P (property (options gretchenInit) ''retryOnTooManyRequests'')
               (Date_now P w) response = None"
    by (auto simp: retry_delay_def)
  then show "gretchen P input gretchenInit w =
              Some (if truthy (property (options gretchenInit) ''throwOnError'') \<and>
                       \<not> ok response
                    then Inl (HTTPError
                           (string_of_nat (status response) @ '' '' @ statusText response)
                           response)
                    else if truthy (property (options gretchenInit) ''returnJSON'')
                    then (case JSON_parse P (bodyText response) of
                            Inl e \<Rightarrow> Inl (Thrown e)
                          | Inr v \<Rightarrow> Inr (Parsed v))
                    else Inr (Response response),
                    w1)"
    by (simp add: gretchen_step[OF assms] finalize_def)
next
  assume "truthy (property (options gretchenInit) ''retryOnTooManyRequests'') \<and>
          status response = 429 \<and>
          (\<exists>retryAfter. Headers_get (headers response) ''retry-after'' = Some retryAfter \<and>
             (match_digits retryAfter \<or> Date_parse P retryAfter \<noteq> None))"
  then have "retry_delay P (property (options gretchenInit) ''retryOnTooManyRequests'')
               (Date_now P w) response \<noteq> None"
    by (auto simp: retry_delay_def)
  then obtain delay where
    "retry_delay P (property (options gretchenInit) ''retryOnTooManyRequests'')
       (Date_now P w) response = Some delay"
    by auto
  then have "gretchen P input gretchenInit w =
               gretchen P input gretchenInit (setTimeout P delay w1)"
    by (simp add: gretchen_step[OF assms])
  then show "\<exists>delay. gretchen P input gretchenInit w =
                       gretchen P input gretchenInit (setTimeout P delay w1)"
    by (rule exI)
qed

theorem loop_ends_unless_retried_witness:
  "map_option fst
     (gretchen scripted (StringInput ''http://h/retry/invalid'')
        (Some [''retryOnTooManyRequests'' \<mapsto> Bool True])
        (start [Inr invalid_429, Inr foo_bar])) =
     Some (Inr (Response invalid_429)) \<and>
   map_option fst
     (gretchen scripted (StringInput ''http://h/retry'')
        (Some [''retryOnTooManyRequests'' \<mapsto> Bool True, ''throwOnError'' \<mapsto> Bool True])
        (start [Inr bare_429, Inr foo_bar])) =
     Some (Inl (HTTPError ''429 Too Many Requests'' bare_429)) \<and>
   (\<exists>delay.
      gretchen scripted (StringInput ''http://h/retry/seconds'')
        (Some [''retryOnTooManyRequests'' \<mapsto> Bool True])
        (start [Inr seconds_429, Inr foo_bar]) =
      gretchen scripted (StringInput ''http://h/retry/seconds'')
        (Some [''retryOnTooManyRequests'' \<mapsto> Bool True])
        (setTimeout scripted delay
           (snd (fetch scripted (StringInput ''http://h/retry/seconds'')
                   ((rest (options (Some [''retryOnTooManyRequests'' \<mapsto> Bool True])))
                      (''body'' \<mapsto> Undefined))
                   (start [Inr seconds_429, Inr foo_bar])))))"
proof -
  let ?g = "Some [''retryOnTooManyRequests'' \<mapsto> Bool True]"
  let ?gt = "Some [''retryOnTooManyRequests'' \<mapsto> Bool True, ''throwOnError'' \<mapsto> Bool True]"
  define init where "init = (rest (options ?g))(''body'' \<mapsto> Undefined)"
  define init_t where "init_t = (rest (options ?gt))(''body'' \<mapsto> Undefined)"
  have ri: "request_init scripted input ?g = Inr init" if "\<not> instanceof_Request input" for input
    using request_init_plain[OF that, of ?g scripted]
    by (simp add: options_Some property_def init_def)
  have rit: "request_init scripted input ?gt = Inr init_t" if "\<not> instanceof_Request input" for input
    using request_init_plain[OF that, of ?gt scripted]
    by (simp add: options_Some property_def init_t_def)
  let ?i1 = "StringInput ''http://h/retry/invalid''"
  let ?i2 = "StringInput ''http://h/retry''"
  let ?i3 = "StringInput ''http://h/retry/seconds''"
  have 1: "map_option fst (gretchen scripted ?i1 ?g (start [Inr invalid_429, Inr foo_bar])) =
             Some (Inr (Response invalid_429))"
    using loop_ends_unless_retried[OF ri, of ?i1 "start [Inr invalid_429, Inr foo_bar]"
        invalid_429 "snd (fetch scripted ?i1 init (start [Inr invalid_429, Inr foo_bar]))"]
    by (simp add: scripted_simps string_simps response_simps options_Some property_def ok_def)
  have 2: "map_option fst (gretchen scripted ?i2 ?gt (start [Inr bare_429, Inr foo_bar])) =
             Some (Inl (HTTPError ''429 Too Many Requests'' bare_429))"
    using loop_ends_unless_retried[OF rit, of ?i2 "start [Inr bare_429, Inr foo_bar]"
        bare_429 "snd (fetch scripted ?i2 init_t (start [Inr bare_429, Inr foo_bar]))"]
    by (simp add: scripted_simps string_simps response_simps options_Some property_def ok_def
        string_of_nat.simps)
  have 3: "\<exists>delay. gretchen scripted ?i3 ?g (start [Inr seconds_429, Inr foo_bar]) =
             gretchen scripted ?i3 ?g (setTimeout scripted delay
               (snd (fetch scripted ?i3 init (start [Inr seconds_429, Inr foo_bar]))))"
    using loop_ends_unless_retried[OF ri, of ?i3 "start [Inr seconds_429, Inr foo_bar]"
        seconds_429 "snd (fetch scripted ?i3 init (start [Inr seconds_429, Inr foo_bar]))"]
    by (simp add: scripted_simps string_simps response_simps options_Some property_def)
  from 1 2 3 show ?thesis
    unfolding init_def by (simp add: options_Some)
qed

theorem loop_ends_unless_retried_counterexample:
  "\<not> match_digits ''2024-01-01'' \<and> \<not> is_http_date ''2024-01-01'' \<and>
   map_option (apsnd timers)
     (gretchen scripted (StringInput ''http://h/retry'')
        (Some [''retryOnTooManyRequests'' \<mapsto> Bool True])
        (start [Inr iso_429, Inr foo_bar])) =
     Some (Inr (Response foo_bar), [Finite 1704067200000]) \<and>
   map_option fst
     (gretchen scripted (StringInput ''http://h/retry/invalid'')
        (Some [''returnJSON'' \<mapsto> Bool True])
        (start [Inr invalid_429])) =
     Some (Inl (Thrown ''SyntaxError''))"
proof -
  let ?i = "StringInput ''http://h/retry''"
  let ?g = "Some [''retryOnTooManyRequests'' \<mapsto> Bool True]"
  define init where
    "init = (rest (options ?g))(''body'' \<mapsto> property (options ?g) ''body'')"
  have ri: "request_init scripted ?i ?g = Inr init"
    unfolding init_def by (rule request_init_plain) (simp_all add: options_Some property_def)
  let ?G = "gretchen scripted ?i ?g"
  let ?w0 = "start [Inr iso_429, Inr foo_bar]"
  let ?w1 = "setTimeout scripted (Finite 1704067200000) (snd (fetch scripted ?i init ?w0))"
  have "?G ?w0 = ?G ?w1"
    using gretchen_step[OF ri, where w = ?w0 and r = iso_429
        and ?w1.0 = "snd (fetch scripted ?i init ?w0)"]
    by (simp add: scripted_simps string_simps response_simps retry_delay_def
        options_Some property_def js_minus_def to_double_exact)
  moreover have "map_option (apsnd timers) (?G ?w1) =
      Some (Inr (Response foo_bar), [Finite 1704067200000])"
    using gretchen_step[OF ri, where w = ?w1 and r = foo_bar
        and ?w1.0 = "snd (fetch scripted ?i init ?w1)"]
    by (simp add: scripted_simps string_simps response_simps retry_delay_def finalize_def
        ok_def options_Some property_def)
  moreover have "\<not> match_digits ''2024-01-01''"
    by (simp add: match_digits_def is_digit_def)
  moreover have "\<not> is_http_date ''2024-01-01''"
    by (simp add: http_date_simps is_digit_def)
  moreover have "map_option fst
     (gretchen scripted (StringInput ''http://h/retry/invalid'')
        (Some [''returnJSON'' \<mapsto> Bool True]) (start [Inr invalid_429])) =
     Some (Inl (Thrown ''SyntaxError''))"
  proof -
    let ?j = "StringInput ''http://h/retry/invalid''"
    let ?r = "Some [''returnJSON'' \<mapsto> Bool True]"
    have "\<exists>init. request_init scripted ?j ?r = Inr init"
      by (rule request_init_succeeds[where ?h0.0 = "[]"])
        (simp_all add: options_Some property_def)
    then obtain init2 where r2: "request_init scripted ?j ?r = Inr init2" ..
    show ?thesis
      using gretchen_step[OF r2, where w = "start [Inr invalid_429]" and r = invalid_429
          and ?w1.0 = "snd (fetch scripted ?j init2 (start [Inr invalid_429]))"]
      by (simp add: scripted_simps string_simps response_simps retry_delay_def finalize_def
          ok_def options_Some property_def)
  qed
  ultimately show ?thesis
    by simp
qed

section \<open>The caller's headers\<close>

lemma Headers_get_optional_default:
  "Headers_get (if c then (if Headers_get h name = None then Headers_set h name v else h) else h) n =
     (case Headers_get h n of
        Some u \<Rightarrow> Some u
      | None \<Rightarrow> if same_name name n \<and> c then Some v else None)"
proof (cases c)
  case True
  then show ?thesis
    by (simp only: if_True Headers_get_default) simp
next
  case False
  then show ?thesis
    by (simp split: option.split)
qed


lemma request_init_header_lookup:
  assumes "\<not> instanceof_Request input"
    and "request_init P input gretchenInit = Inr init"
    and "Headers_new (property (options gretchenInit) ''headers'') = Inr h0"
  shows "\<exists>h. Headers_new (property init ''headers'') = Inr h \<and>
           (\<forall>name. Headers_get h name =
              (case Headers_get h0 name of
                 Some v \<Rightarrow> Some v
               | None \<Rightarrow>
                   if same_name ''accept'' name \<and>
                      (truthy (property (options gretchenInit) ''requestJSON'') \<or>
                       truthy (property (options gretchenInit) ''returnJSON''))
                   then Some ''application/json''
                   else if same_name ''content-type'' name \<and>
                      (truthy (property (options gretchenInit) ''sendJSON'') \<and>
                       property (options gretchenInit) ''body'' \<noteq> Undefined)
                   then Some ''application/json''
                   else None))"
proof -
  define A where "A \<longleftrightarrow> truthy (property (options gretchenInit) ''requestJSON'') \<or>
                       truthy (property (options gretchenInit) ''returnJSON'')"
  define S where "S \<longleftrightarrow> truthy (property (options gretchenInit) ''sendJSON'') \<and>
                       property (options gretchenInit) ''body'' \<noteq> Undefined"
  define h1 where "h1 =
    (if A then (if Headers_get h0 ''accept'' = None
                then Headers_set h0 ''accept'' ''application/json'' else h0)
     else h0)"
  define h where "h =
    (if S then (if Headers_get h1 ''content-type'' = None
                then Headers_set h1 ''content-type'' ''application/json'' else h1)
     else h1)"
  have new: "Headers_new (property init ''headers'') = Inr h"
    using request_init_headers[OF assms] by (simp only: Let_def h_def h1_def A_def S_def)
  have g1: "Headers_get h1 name =
      (case Headers_get h0 name of
         Some v \<Rightarrow> Some v
       | None \<Rightarrow> if same_name ''accept'' name \<and> A then Some ''application/json'' else None)"
    for name
    unfolding h1_def by (rule Headers_get_optional_default)
  have g2: "Headers_get h name =
      (case Headers_get h1 name of
         Some v \<Rightarrow> Some v
       | None \<Rightarrow> if same_name ''content-type'' name \<and> S then Some ''application/json''
                 else None)"
    for name
    unfolding h_def by (rule Headers_get_optional_default)
  have "Headers_get h name =
      (case Headers_get h0 name of
         Some v \<Rightarrow> Some v
       | None \<Rightarrow>
           if same_name ''accept'' name \<and> A then Some ''application/json''
           else if same_name ''content-type'' name \<and> S then Some ''application/json''
           else None)"
    for name
    by (simp only: g2 g1) (simp split: option.split)
  with new show ?thesis
    unfolding A_def S_def by (intro exI[of _ h] conjI allI)
qed


text \<open>
  Claim C6. For a string or URL input, the header container of the request answers a
  lookup of \<^verbatim>\<open>accept\<close>, under any casing of the name, with the caller's value when the
  caller's headers have one, and with \<^verbatim>\<open>application/json\<close> only when they have none and
  \<^verbatim>\<open>requestJSON\<close> or \<^verbatim>\<open>returnJSON\<close> is truthy; likewise for \<^verbatim>\<open>content-type\<close>, with
  \<^verbatim>\<open>application/json\<close> only when the caller's headers have none, \<^verbatim>\<open>sendJSON\<close> is truthy and
  the body is not \<^verbatim>\<open>undefined\<close>. Every other header is the caller's. This container is
  the one in the request that each attempt of the call gives to \<^verbatim>\<open>fetch\<close>.
\<close>

theorem caller_headers_win:
  assumes "\<not> instanceof_Request input"
    and "request_init P input gretchenInit = Inr init"
    and "Headers_new (property (options gretchenInit) ''headers'') = Inr h0"
  shows "(\<exists>h. Headers_new (property init ''headers'') = Inr h) \<and>
         (\<forall>h. Headers_new (property init ''headers'') = Inr h \<longrightarrow>
           (\<forall>name. same_name name ''accept'' \<longrightarrow>
              Headers_get h name =
                (case Headers_get h0 name of
                   Some v \<Rightarrow> Some v
                 | None \<Rightarrow>
                     if truthy (property (options gretchenInit) ''requestJSON'') \<or>
                        truthy (property (options gretchenInit) ''returnJSON'')
                     then Some ''application/json'' else None)) \<and>
           (\<forall>name. same_name name ''content-type'' \<longrightarrow>
              Headers_get h name =
                (case Headers_get h0 name of
                   Some v \<Rightarrow> Some v
                 | None \<Rightarrow>
                     if truthy (property (options gretchenInit) ''sendJSON'') \<and>
                        property (options gretchenInit) ''body'' \<noteq> Undefined
                     then Some ''application/json'' else None)) \<and>
           (\<forall>name. \<not> same_name name ''accept'' \<and> \<not> same_name name ''content-type'' \<longrightarrow>
              Headers_get h name = Headers_get h0 name)) \<and>
         (\<forall>w. gretchen P input gretchenInit w =
                gretchen_loop P input init
                  (property (options gretchenInit) ''retryOnTooManyRequests'')
                  (property (options gretchenInit) ''throwOnError'')
                  (property (options gretchenInit) ''returnJSON'') w)"
proof -
  from request_init_header_lookup[OF assms] obtain h where
    hg: "Headers_new (property init ''headers'') = Inr h \<and>
         (\<forall>name. Headers_get h name =
              (case Headers_get h0 name of
                 Some v \<Rightarrow> Some v
               | None \<Rightarrow>
                   if same_name ''accept'' name \<and>
                      (truthy (property (options gretchenInit) ''requestJSON'') \<or>
                       truthy (property (options gretchenInit) ''returnJSON''))
                   then Some ''application/json''
                   else if same_name ''content-type'' name \<and>
                      (truthy (property (options gretchenInit) ''sendJSON'') \<and>
                       property (options gretchenInit) ''body'' \<noteq> Undefined)
                   then Some ''application/json''
                   else None))" ..
  note h = hg[THEN conjunct1] and g = hg[THEN conjunct2, THEN spec]
  have x: "\<not> same_name ''accept'' name" if "same_name name ''content-type''" for name
    using that by (simp add: same_name_def lower_def lower_char_def)
  have y: "\<not> same_name ''content-type'' name" if "same_name name ''accept''" for name
    using that by (simp add: same_name_def lower_def lower_char_def)
  have 1: "Headers_get h name =
             (case Headers_get h0 name of
                Some v \<Rightarrow> Some v
              | None \<Rightarrow>
                  if truthy (property (options gretchenInit) ''requestJSON'') \<or>
                     truthy (property (options gretchenInit) ''returnJSON'')
                  then Some ''application/json'' else None)"
    if "same_name name ''accept''" for name
  proof -
    from that have "same_name ''accept'' name" "\<not> same_name ''content-type'' name"
      by (simp_all add: same_name_sym[of name] y)
    then show ?thesis
      by (simp add: g[of name] split: option.split)
  qed
  have 2: "Headers_get h name =
             (case Headers_get h0 name of
                Some v \<Rightarrow> Some v
              | None \<Rightarrow>
                  if truthy (property (options gretchenInit) ''sendJSON'') \<and>
                     property (options gretchenInit) ''body'' \<noteq> Undefined
                  then Some ''application/json'' else None)"
    if "same_name name ''content-type''" for name
  proof -
    from that have "same_name ''content-type'' name" "\<not> same_name ''accept'' name"
      by (simp_all add: same_name_sym[of name] x)
    then show ?thesis
      by (simp add: g[of name] split: option.split)
  qed
  have 3: "Headers_get h name = Headers_get h0 name"
    if "\<not> same_name name ''accept'' \<and> \<not> same_name name ''content-type''" for name
  proof -
    from that have "\<not> same_name ''content-type'' name" "\<not> same_name ''accept'' name"
      by (simp_all add: same_name_sym[of name])
    then show ?thesis
      by (simp add: g[of name] split: option.split)
  qed
  have "\<forall>h'. Headers_new (property init ''headers'') = Inr h' \<longrightarrow>
           (\<forall>name. same_name name ''accept'' \<longrightarrow>
              Headers_get h' name =
                (case Headers_get h0 name of
                   Some v \<Rightarrow> Some v
                 | None \<Rightarrow>
                     if truthy (property (options gretchenInit) ''requestJSON'') \<or>
                        truthy (property (options gretchenInit) ''returnJSON'')
                     then Some ''application/json'' else None)) \<and>
           (\<forall>name. same_name name ''content-type'' \<longrightarrow>
              Headers_get h' name =
                (case Headers_get h0 name of
                   Some v \<Rightarrow> Some v
                 | None \<Rightarrow>
                     if truthy (property (options gretchenInit) ''sendJSON'') \<and>
                        property (options gretchenInit) ''body'' \<noteq> Undefined
                     then Some ''application/json'' else None)) \<and>
           (\<forall>name. \<not> same_name name ''accept'' \<and> \<not> same_name name ''content-type'' \<longrightarrow>
              Headers_get h' name = Headers_get h0 name)"
  proof (intro allI impI)
    fix h'
    assume "Headers_new (property init ''headers'') = Inr h'"
    with h have e: "h' = h"
      by simp
    show "(\<forall>name. same_name name ''accept'' \<longrightarrow>
              Headers_get h' name =
                (case Headers_get h0 name of
                   Some v \<Rightarrow> Some v
                 | None \<Rightarrow>
                     if truthy (property (options gretchenInit) ''requestJSON'') \<or>
                        truthy (property (options gretchenInit) ''returnJSON'')
                     then Some ''application/json'' else None)) \<and>
           (\<forall>name. same_name name ''content-type'' \<longrightarrow>
              Headers_get h' name =
                (case Headers_get h0 name of
                   Some v \<Rightarrow> Some v
                 | None \<Rightarrow>
                     if truthy (property (options gretchenInit) ''sendJSON'') \<and>
                        property (options gretchenInit) ''body'' \<noteq> Undefined
                     then Some ''application/json'' else None)) \<and>
           (\<forall>name. \<not> same_name name ''accept'' \<and> \<not> same_name name ''content-type'' \<longrightarrow>
              Headers_get h' name = Headers_get h0 name)"
      unfolding e by (intro conjI allI impI) (erule 1 2 3)+
  qed
  moreover have "\<exists>h. Headers_new (property init ''headers'') = Inr h"
    using h by (rule exI)
  moreover have "\<forall>w. gretchen P input gretchenInit w =
                gretchen_loop P input init
                  (property (options gretchenInit) ''retryOnTooManyRequests'')
                  (property (options gretchenInit) ''throwOnError'')
                  (property (options gretchenInit) ''returnJSON'') w"
    by (simp add: gretchen_eq_loop[OF assms(2)])
  ultimately show ?thesis
    by (intro conjI)
qed

theorem caller_headers_win_witness:
  "\<exists>init h.
     request_init scripted (StringInput ''http://h/'')
       (Some [''requestJSON'' \<mapsto> Bool True, ''sendJSON'' \<mapsto> Bool True,
              ''body'' \<mapsto> Obj [(''Wednesday'', Str ''pink'')],
              ''headers'' \<mapsto> Obj [(''Accept'', Str ''text/html''),
                 (''CONTENT-TYPE'', Str ''application/json; charset=utf-8''),
                 (''X-Id'', Str ''7'')]]) = Inr init \<and>
     Headers_new (property init ''headers'') = Inr h \<and>
     Headers_get h ''accept'' = Some ''text/html'' \<and>
     Headers_get h ''Accept'' = Some ''text/html'' \<and>
     Headers_get h ''content-type'' = Some ''application/json; charset=utf-8'' \<and>
     Headers_get h ''x-id'' = Some ''7''"
proof -
  let ?i = "StringInput ''http://h/''"
  let ?g = "Some [''requestJSON'' \<mapsto> Bool True, ''sendJSON'' \<mapsto> Bool True,
              ''body'' \<mapsto> Obj [(''Wednesday'', Str ''pink'')],
              ''headers'' \<mapsto> Obj [(''Accept'', Str ''text/html''),
                 (''CONTENT-TYPE'', Str ''application/json; charset=utf-8''),
                 (''X-Id'', Str ''7'')]]"
  let ?h0 = "[(''Accept'', ''text/html''),
              (''CONTENT-TYPE'', ''application/json; charset=utf-8''), (''X-Id'', ''7'')]"
  have i: "\<not> instanceof_Request ?i"
    by simp
  have h0: "Headers_new (property (options ?g) ''headers'') = Inr ?h0"
    by (simp add: options_Some property_def append_header_def valid_name_def valid_value_def
        normalize_value_def is_tchar_def is_http_whitespace_def)
  have "\<exists>init. request_init scripted ?i ?g = Inr init"
    by (rule request_init_succeeds[OF i h0,
          where json = \<open>Str ''{"Wednesday":"pink"}''\<close>])
      (simp add: options_Some property_def scripted_simps)
  then obtain init where ri: "request_init scripted ?i ?g = Inr init" ..
  note T = caller_headers_win[OF i ri h0]
  from T[THEN conjunct1] obtain h where H: "Headers_new (property init ''headers'') = Inr h" ..
  note L = T[THEN conjunct2, THEN conjunct1, THEN spec, THEN mp, OF H]
  have a: "Headers_get h ''accept'' = Some ''text/html''"
    using L[THEN conjunct1, THEN spec, of "''accept''"] by (simp add: string_simps)
  have b: "Headers_get h ''Accept'' = Some ''text/html''"
    using L[THEN conjunct1, THEN spec, of "''Accept''"] by (simp add: string_simps)
  have c: "Headers_get h ''content-type'' = Some ''application/json; charset=utf-8''"
    using L[THEN conjunct2, THEN conjunct1, THEN spec, of "''content-type''"]
    by (simp add: string_simps)
  have d: "Headers_get h ''x-id'' = Some ''7''"
    using L[THEN conjunct2, THEN conjunct2, THEN spec, of "''x-id''"]
    by (simp add: string_simps)
  from ri H a b c d show ?thesis
    by (intro exI[of _ init] exI[of _ h] conjI)
qed

section \<open>The body of the request\<close>

text \<open>
  Claim C5. For a string or URL input with \<^verbatim>\<open>sendJSON\<close> truthy and a body other than
  \<^verbatim>\<open>undefined\<close>, a request that is built has as body the result of \<^verbatim>\<open>JSON.stringify\<close> on
  the body option, has the method POST when the method option is \<^verbatim>\<open>null\<close> or \<^verbatim>\<open>undefined\<close>
  and the caller's method otherwise, and has a content-type header, which is
  \<^verbatim>\<open>application/json\<close> when the caller's headers had none; the request is built whenever
  the serialization and the header container succeed. When \<^verbatim>\<open>sendJSON\<close> is falsy or the
  body is \<^verbatim>\<open>undefined\<close>, the body of the request is the body option as it is. The request
  is the one that each attempt of the call gives to \<^verbatim>\<open>fetch\<close>.
\<close>

theorem send_json_request:
  assumes "\<not> instanceof_Request input"
  shows "(truthy (property (options gretchenInit) ''sendJSON'') \<and>
          property (options gretchenInit) ''body'' \<noteq> Undefined \<longrightarrow>
            (\<forall>init. request_init P input gretchenInit = Inr init \<longrightarrow>
               (\<exists>json h0 h.
                  JSON_stringify P (property (options gretchenInit) ''body'') = Inr json \<and>
                  init ''body'' = Some json \<and>
                  init ''method'' =
                    Some (if eq_null (property (options gretchenInit) ''method'') then Str ''POST''
                          else property (options gretchenInit) ''method'') \<and>
                  Headers_new (property (options gretchenInit) ''headers'') = Inr h0 \<and>
                  Headers_new (property init ''headers'') = Inr h \<and>
                  Headers_get h ''content-type'' =
                    (case Headers_get h0 ''content-type'' of
                       None \<Rightarrow> Some ''application/json''
                     | Some v \<Rightarrow> Some v))) \<and>
            (\<forall>json h0.
               JSON_stringify P (property (options gretchenInit) ''body'') = Inr json \<and>
               Headers_new (property (options gretchenInit) ''headers'') = Inr h0 \<longrightarrow>
               (\<exists>init. request_init P input gretchenInit = Inr init))) \<and>
         (\<not> (truthy (property (options gretchenInit) ''sendJSON'') \<and>
             property (options gretchenInit) ''body'' \<noteq> Undefined) \<longrightarrow>
            (\<forall>init. request_init P input gretchenInit = Inr init \<longrightarrow>
               init ''body'' = Some (property (options gretchenInit) ''body'')) \<and>
            (\<forall>h0. Headers_new (property (options gretchenInit) ''headers'') = Inr h0 \<longrightarrow>
               (\<exists>init. request_init P input gretchenInit = Inr init))) \<and>
         (\<forall>init w. request_init P input gretchenInit = Inr init \<longrightarrow>
            gretchen P input gretchenInit w =
              gretchen_loop P input init
                (property (options gretchenInit) ''retryOnTooManyRequests'')
                (property (options gretchenInit) ''throwOnError'')
                (property (options gretchenInit) ''returnJSON'') w)"
proof (intro conjI impI allI)
  fix init
  assume S: "truthy (property (options gretchenInit) ''sendJSON'') \<and>
             property (options gretchenInit) ''body'' \<noteq> Undefined"
    and r: "request_init P input gretchenInit = Inr init"
  let ?o = "options gretchenInit"
  from request_init_body_method[OF assms r] S obtain json where
    t: "JSON_stringify P (property ?o ''body'') = Inr json" "init ''body'' = Some json"
      "init ''method'' = Some (if eq_null (property ?o ''method'') then Str ''POST''
                                else property ?o ''method'')"
    by auto
  from request_init_url[OF assms r] obtain init1 where
    a: "accept_json (property ?o ''requestJSON'') (property ?o ''returnJSON'') (rest ?o) = Inr init1"
    and s: "send_json P (property ?o ''sendJSON'') (property ?o ''body'') init1 = Inr init"
    by blast
  have "\<exists>h0. Headers_new (property ?o ''headers'') = Inr h0"
  proof (cases "truthy (property ?o ''requestJSON'') \<or> truthy (property ?o ''returnJSON'')")
    case True
    with accept_json_Inr[OF a] show ?thesis
      by (auto simp: property_rest_headers)
  next
    case False
    with accept_json_Inr[OF a] send_json_Inr[OF s] S show ?thesis
      by (auto simp: property_rest_headers)
  qed
  then obtain h0 where h0: "Headers_new (property ?o ''headers'') = Inr h0"
    by blast
  define h1 where "h1 =
    (if truthy (property ?o ''requestJSON'') \<or> truthy (property ?o ''returnJSON'')
     then (if Headers_get h0 ''accept'' = None
           then Headers_set h0 ''accept'' ''application/json'' else h0)
     else h0)"
  define h where "h =
    (if Headers_get h1 ''content-type'' = None
     then Headers_set h1 ''content-type'' ''application/json'' else h1)"
  have h: "Headers_new (property init ''headers'') = Inr h"
    using request_init_headers[OF assms r h0] S by (simp add: Let_def h_def h1_def)
  have "Headers_get h1 ''content-type'' = Headers_get h0 ''content-type''"
    unfolding h1_def
    by (simp add: Headers_get_default accept_not_content_type split: option.splits)
  moreover have "same_name ''content-type'' ''content-type''"
    by (simp add: same_name_def)
  moreover have "Headers_get h ''content-type'' =
               (case Headers_get h1 ''content-type'' of
                  Some u \<Rightarrow> Some u
                | None \<Rightarrow> if same_name ''content-type'' ''content-type''
                          then Some ''application/json'' else None)"
    unfolding h_def by (rule Headers_get_default)
  ultimately have "Headers_get h ''content-type'' =
               (case Headers_get h0 ''content-type'' of
                  None \<Rightarrow> Some ''application/json'' | Some v \<Rightarrow> Some v)"
    by (simp split: option.splits)
  with t h0 h show "\<exists>json h0 h.
      JSON_stringify P (property ?o ''body'') = Inr json \<and>
      init ''body'' = Some json \<and>
      init ''method'' = Some (if eq_null (property ?o ''method'') then Str ''POST''
                              else property ?o ''method'') \<and>
      Headers_new (property ?o ''headers'') = Inr h0 \<and>
      Headers_new (property init ''headers'') = Inr h \<and>
      Headers_get h ''content-type'' =
        (case Headers_get h0 ''content-type'' of
           None \<Rightarrow> Some ''application/json'' | Some v \<Rightarrow> Some v)"
    by blast
next
  fix json h0
  assume "JSON_stringify P (property (options gretchenInit) ''body'') = Inr json \<and>
          Headers_new (property (options gretchenInit) ''headers'') = Inr h0"
  then show "\<exists>init. request_init P input gretchenInit = Inr init"
    using request_init_succeeds[OF assms, of gretchenInit h0 P json] by simp
next
  fix init
  assume "\<not> (truthy (property (options gretchenInit) ''sendJSON'') \<and>
             property (options gretchenInit) ''body'' \<noteq> Undefined)"
    and "request_init P input gretchenInit = Inr init"
  then show "init ''body'' = Some (property (options gretchenInit) ''body'')"
    using request_init_body_method[OF assms, of P gretchenInit init] by auto
next
  fix h0
  assume "\<not> (truthy (property (options gretchenInit) ''sendJSON'') \<and>
             property (options gretchenInit) ''body'' \<noteq> Undefined)"
    and "Headers_new (property (options gretchenInit) ''headers'') = Inr h0"
  then show "\<exists>init. request_init P input gretchenInit = Inr init"
    using request_init_succeeds[OF assms, of gretchenInit h0 P] by auto
next
  fix init w
  assume "request_init P input gretchenInit = Inr init"
  then show "gretchen P input gretchenInit w =
              gretchen_loop P input init
                (property (options gretchenInit) ''retryOnTooManyRequests'')
                (property (options gretchenInit) ''throwOnError'')
                (property (options gretchenInit) ''returnJSON'') w"
    by (rule gretchen_eq_loop)
qed

theorem send_json_request_witness:
  \<open>\<exists>init h.
     request_init scripted (StringInput ''http://h/'')
       (Some [''sendJSON'' \<mapsto> Bool True, ''body'' \<mapsto> Obj [(''Wednesday'', Str ''pink'')]]) =
       Inr init \<and>
     init ''body'' = Some (Str ''{"Wednesday":"pink"}'') \<and>
     init ''method'' = Some (Str ''POST'') \<and>
     Headers_new (property init ''headers'') = Inr h \<and>
     Headers_get h ''content-type'' = Some ''application/json'' \<and>
     gretchen scripted (StringInput ''http://h/'')
       (Some [''sendJSON'' \<mapsto> Bool True, ''body'' \<mapsto> Obj [(''Wednesday'', Str ''pink'')]])
       (start [Inr foo_bar]) =
     Some (Inr (Response foo_bar),
       \<lparr>clock = 10, script = [], timers = [],
        sent = [(StringInput ''http://h/'', init)]\<rparr>)\<close>
proof -
  let ?i = "StringInput ''http://h/''"
  let ?g = "Some [''sendJSON'' \<mapsto> Bool True, ''body'' \<mapsto> Obj [(''Wednesday'', Str ''pink'')]]"
  have S: "truthy (property (options ?g) ''sendJSON'') \<and>
           property (options ?g) ''body'' \<noteq> Undefined"
    by (simp add: options_Some property_def)
  have j: \<open>JSON_stringify scripted (property (options ?g) ''body'') =
             Inr (Str ''{"Wednesday":"pink"}'')\<close>
    by (simp add: options_Some property_def scripted_simps)
  have h0: "Headers_new (property (options ?g) ''headers'') = Inr []"
    by (simp add: options_Some property_def)
  have m: "eq_null (property (options ?g) ''method'')"
    by (simp add: options_Some property_def)
  have i: "\<not> instanceof_Request ?i"
    by simp
  note T = send_json_request[OF i, of ?g scripted, THEN conjunct1, THEN mp, OF S]
  note T1 = T[THEN conjunct1, THEN spec, THEN mp]
  note T2 = T[THEN conjunct2, THEN spec, THEN spec, THEN mp, OF conjI[OF j h0]]
  note T3 = send_json_request[OF i, of ?g scripted, THEN conjunct2, THEN conjunct2,
      THEN spec, THEN spec, THEN mp]
  from T2 obtain init where init: "request_init scripted ?i ?g = Inr init" ..
  have run: "gretchen scripted ?i ?g (start [Inr foo_bar]) =
      Some (Inr (Response foo_bar),
        \<lparr>clock = 10, script = [], timers = [], sent = [(?i, init)]\<rparr>)"
    by (subst T3[OF init], subst gretchen_loop.simps)
      (simp add: scripted_simps response_simps finalize_def ok_def options_Some property_def)
  from T1[OF init] j h0 m init run show ?thesis
    by (clarsimp simp: Headers_get_def)
qed

section \<open>What reaches the transport\<close>

lemma request_init_keys:
  assumes "request_init P input gretchenInit = Inr init"
    and "k \<noteq> ''body''" and "k \<noteq> ''headers''" and "k \<noteq> ''method''"
  shows "init k = rest (options gretchenInit) k"
proof (cases "instanceof_Request input")
  case True
  with assms(1) show ?thesis
    by (simp add: request_init_Request)
next
  case False
  let ?o = "options gretchenInit"
  from request_init_url[OF False assms(1)] obtain init1 where
    a: "accept_json (property ?o ''requestJSON'') (property ?o ''returnJSON'') (rest ?o) = Inr init1"
    and s: "send_json P (property ?o ''sendJSON'') (property ?o ''body'') init1 = Inr init"
    by (elim exE conjE)
  have "init1 k = rest ?o k"
    using accept_json_Inr[OF a] assms(3) by (auto split: if_splits)
  moreover have "init k = init1 k"
    using send_json_Inr[OF s] assms(2-4) by (auto split: if_splits)
  ultimately show ?thesis
    by simp
qed

lemma request_init_method:
  assumes "request_init P input gretchenInit = Inr init"
  shows "init ''method'' =
     (if \<not> instanceof_Request input \<and> truthy (property (options gretchenInit) ''sendJSON'') \<and>
         property (options gretchenInit) ''body'' \<noteq> Undefined \<and>
         eq_null (property (options gretchenInit) ''method'')
      then Some (Str ''POST'') else options gretchenInit ''method'')"
proof (cases "instanceof_Request input")
  case True
  with assms have "init = rest (options gretchenInit)"
    by (simp add: request_init_Request)
  with True show ?thesis
    by (simp add: rest_method)
next
  case False
  have "eq_null (property (options gretchenInit) ''method'') \<or>
        options gretchenInit ''method'' = Some (property (options gretchenInit) ''method'')"
    by (cases "options gretchenInit ''method''") (simp_all add: property_def)
  then show ?thesis
    using request_init_body_method[OF False assms] False
    by (auto split: if_splits)
qed


text \<open>
  Claim C9, as amended. The request that each attempt of a call gives to \<^verbatim>\<open>fetch\<close> never
  has a property \<^verbatim>\<open>requestJSON\<close>, \<^verbatim>\<open>retryOnTooManyRequests\<close>, \<^verbatim>\<open>returnJSON\<close>, \<^verbatim>\<open>sendJSON\<close> or
  \<^verbatim>\<open>throwOnError\<close>. Its properties are the pass-through options of the configuration, each
  with the caller's value, and besides them only \<^verbatim>\<open>body\<close>, \<^verbatim>\<open>headers\<close> and \<^verbatim>\<open>method\<close>: the
  method is the caller's, except that it is POST when the input is a string or a URL,
  \<^verbatim>\<open>sendJSON\<close> is truthy, the body is not \<^verbatim>\<open>undefined\<close> and the caller's method is \<^verbatim>\<open>null\<close> or
  \<^verbatim>\<open>undefined\<close>.
\<close>

theorem recognized_options_stripped:
  assumes "request_init P input gretchenInit = Inr init"
  shows "init ''requestJSON'' = None \<and> init ''retryOnTooManyRequests'' = None \<and>
         init ''returnJSON'' = None \<and> init ''sendJSON'' = None \<and>
         init ''throwOnError'' = None \<and>
         (\<forall>k. k \<notin> set destructured \<and> k \<noteq> ''headers'' \<and> k \<noteq> ''method'' \<longrightarrow>
              init k = options gretchenInit k) \<and>
         (\<forall>k. k \<in> dom init \<longrightarrow>
              k = ''body'' \<or> k = ''headers'' \<or> k = ''method'' \<or>
              k \<in> dom (options gretchenInit) - set destructured) \<and>
         init ''method'' =
           (if \<not> instanceof_Request input \<and>
               truthy (property (options gretchenInit) ''sendJSON'') \<and>
               property (options gretchenInit) ''body'' \<noteq> Undefined \<and>
               eq_null (property (options gretchenInit) ''method'')
            then Some (Str ''POST'') else options gretchenInit ''method'') \<and>
         (\<forall>w. gretchen P input gretchenInit w =
                gretchen_loop P input init
                  (property (options gretchenInit) ''retryOnTooManyRequests'')
                  (property (options gretchenInit) ''throwOnError'')
                  (property (options gretchenInit) ''returnJSON'') w)"
proof -
  note K = request_init_keys[OF assms]
  have 1: "init ''requestJSON'' = None"
    using K[of "''requestJSON''"] by (simp add: rest_def destructured_def)
  have 2: "init ''retryOnTooManyRequests'' = None"
    using K[of "''retryOnTooManyRequests''"] by (simp add: rest_def destructured_def)
  have 3: "init ''returnJSON'' = None"
    using K[of "''returnJSON''"] by (simp add: rest_def destructured_def)
  have 4: "init ''sendJSON'' = None"
    using K[of "''sendJSON''"] by (simp add: rest_def destructured_def)
  have 5: "init ''throwOnError'' = None"
    using K[of "''throwOnError''"] by (simp add: rest_def destructured_def)
  have b: "''body'' \<in> set destructured"
    by (simp add: destructured_def)
  have 6: "\<forall>k. k \<notin> set destructured \<and> k \<noteq> ''headers'' \<and> k \<noteq> ''method'' \<longrightarrow>
              init k = options gretchenInit k"
  proof (intro allI impI)
    fix k
    assume k: "k \<notin> set destructured \<and> k \<noteq> ''headers'' \<and> k \<noteq> ''method''"
    with b have "k \<noteq> ''body''"
      by auto
    with k show "init k = options gretchenInit k"
      using K[of k] by (simp add: rest_def)
  qed
  have 7: "\<forall>k. k \<in> dom init \<longrightarrow>
              k = ''body'' \<or> k = ''headers'' \<or> k = ''method'' \<or>
              k \<in> dom (options gretchenInit) - set destructured"
  proof (intro allI impI)
    fix k
    assume d: "k \<in> dom init"
    show "k = ''body'' \<or> k = ''headers'' \<or> k = ''method'' \<or>
              k \<in> dom (options gretchenInit) - set destructured"
    proof (cases "k = ''body'' \<or> k = ''headers'' \<or> k = ''method''")
      case True
      then show ?thesis by (elim disjE) simp_all
    next
      case False
      then have "init k = rest (options gretchenInit) k"
        using K[of k] by simp
      with d False show ?thesis
        by (auto simp: rest_def dom_def split: if_splits)
    qed
  qed
  have 8: "\<forall>w. gretchen P input gretchenInit w =
                gretchen_loop P input init
                  (property (options gretchenInit) ''retryOnTooManyRequests'')
                  (property (options gretchenInit) ''throwOnError'')
                  (property (options gretchenInit) ''returnJSON'') w"
    by (simp add: gretchen_eq_loop[OF assms])
  from 1 2 3 4 5 6 7 request_init_method[OF assms] 8 show ?thesis
    by (intro conjI)
qed


lemma scripted_single_run:
  assumes "request_init scripted input gretchenInit = Inr init"
    and "\<not> truthy (property (options gretchenInit) ''retryOnTooManyRequests'')"
  shows "gretchen scripted input gretchenInit (start [Inr r]) =
           Some (finalize scripted (property (options gretchenInit) ''throwOnError'')
                   (property (options gretchenInit) ''returnJSON'') r,
                 \<lparr>clock = 10, script = [], timers = [], sent = [(input, init)]\<rparr>)"
  using gretchen_step[OF assms(1), where w = "start [Inr r]" and r = r
      and ?w1.0 = "\<lparr>clock = 10, script = [], timers = [], sent = [(input, init)]\<rparr>"] assms(2)
  by (simp add: scripted_def scripted_fetch_def start_def retry_delay_def)

theorem recognized_options_stripped_witness:
  "\<exists>init.
     gretchen scripted (StringInput ''http://h/'')
       (Some [''requestJSON'' \<mapsto> Bool True, ''returnJSON'' \<mapsto> Bool False,
              ''sendJSON'' \<mapsto> Bool True, ''throwOnError'' \<mapsto> Bool True,
              ''body'' \<mapsto> Obj [(''Wednesday'', Str ''pink'')],
              ''credentials'' \<mapsto> Str ''include'', ''method'' \<mapsto> Str ''PUT''])
       (start [Inr foo_bar]) =
     Some (Inr (Response foo_bar),
       \<lparr>clock = 10, script = [], timers = [],
        sent = [(StringInput ''http://h/'', init)]\<rparr>) \<and>
     init ''requestJSON'' = None \<and> init ''retryOnTooManyRequests'' = None \<and>
     init ''returnJSON'' = None \<and> init ''sendJSON'' = None \<and> init ''throwOnError'' = None \<and>
     init ''credentials'' = Some (Str ''include'') \<and> init ''method'' = Some (Str ''PUT'')"
proof -
  let ?i = "StringInput ''http://h/''"
  let ?g = "Some [''requestJSON'' \<mapsto> Bool True, ''returnJSON'' \<mapsto> Bool False,
              ''sendJSON'' \<mapsto> Bool True, ''throwOnError'' \<mapsto> Bool True,
              ''body'' \<mapsto> Obj [(''Wednesday'', Str ''pink'')],
              ''credentials'' \<mapsto> Str ''include'', ''method'' \<mapsto> Str ''PUT'']"
  have i: "\<not> instanceof_Request ?i"
    by simp
  have "\<exists>init. request_init scripted ?i ?g = Inr init"
    by (rule request_init_succeeds[OF i, where ?h0.0 = "[]"
          and json = \<open>Str ''{"Wednesday":"pink"}''\<close>])
      (simp_all add: options_Some property_def scripted_simps)
  then obtain init where ri: "request_init scripted ?i ?g = Inr init" ..
  note T = recognized_options_stripped[OF ri]
  have run: "gretchen scripted ?i ?g (start [Inr foo_bar]) =
      Some (Inr (Response foo_bar),
        \<lparr>clock = 10, script = [], timers = [], sent = [(?i, init)]\<rparr>)"
    using scripted_single_run[OF ri, of foo_bar]
    by (simp add: options_Some property_def finalize_def ok_def response_simps respond_def)
  have c: "init ''credentials'' = Some (Str ''include'')"
    using T[THEN conjunct2, THEN conjunct2, THEN conjunct2, THEN conjunct2, THEN conjunct2,
        THEN conjunct1, THEN spec, of "''credentials''"]
    by (simp add: destructured_def options_Some)
  have m: "init ''method'' = Some (Str ''PUT'')"
    using T[THEN conjunct2, THEN conjunct2, THEN conjunct2, THEN conjunct2, THEN conjunct2,
        THEN conjunct2, THEN conjunct2, THEN conjunct1]
    by (simp add: options_Some property_def)
  from run T c m show ?thesis
    by (intro exI[of _ init] conjI) simp_all
qed

theorem recognized_options_stripped_counterexample:
  "map_option (apsnd (sent_property ''method''))
     (gretchen scripted (StringInput ''http://h/'')
        (Some [''sendJSON'' \<mapsto> Bool True, ''body'' \<mapsto> Obj [(''Wednesday'', Str ''pink'')]])
        (start [Inr foo_bar])) =
     Some (Inr (Response foo_bar), [Some (Str ''POST'')]) \<and>
   [''sendJSON'' \<mapsto> Bool True, ''body'' \<mapsto> Obj [(''Wednesday'', Str ''pink'')]] ''method'' = None"
proof -
  let ?i = "StringInput ''http://h/''"
  let ?g = "Some [''sendJSON'' \<mapsto> Bool True, ''body'' \<mapsto> Obj [(''Wednesday'', Str ''pink'')]]"
  have i: "\<not> instanceof_Request ?i"
    by simp
  have "\<exists>init. request_init scripted ?i ?g = Inr init"
    by (rule request_init_succeeds[OF i, where ?h0.0 = "[]"
          and json = \<open>Str ''{"Wednesday":"pink"}''\<close>])
      (simp_all add: options_Some property_def scripted_simps)
  then obtain init where ri: "request_init scripted ?i ?g = Inr init" ..
  have m: "init ''method'' = Some (Str ''POST'')"
    using request_init_method[OF ri] by (simp add: options_Some property_def)
  have "gretchen scripted ?i ?g (start [Inr foo_bar]) =
      Some (Inr (Response foo_bar),
        \<lparr>clock = 10, script = [], timers = [], sent = [(?i, init)]\<rparr>)"
    using scripted_single_run[OF ri, of foo_bar]
    by (simp add: options_Some property_def finalize_def ok_def response_simps respond_def)
  with m show ?thesis
    by (simp add: sent_property_def)
qed

section \<open>A request as input\<close>

text \<open>
  Claim C8. When the input is a request, the second argument of \<^verbatim>\<open>fetch\<close> is the
  configuration without the six destructured options, whatever \<^verbatim>\<open>requestJSON\<close>,
  \<^verbatim>\<open>returnJSON\<close> and \<^verbatim>\<open>sendJSON\<close> are and whatever the platform's serializer would do: its
  headers and its method are the caller's as given, it has no body, and every other
  option is the caller's. The first argument is the request itself, at every attempt.
\<close>

theorem request_input_untouched:
  "request_init P (RequestInput rq) gretchenInit = Inr (rest (options gretchenInit)) \<and>
   rest (options gretchenInit) ''headers'' = options gretchenInit ''headers'' \<and>
   rest (options gretchenInit) ''method'' = options gretchenInit ''method'' \<and>
   rest (options gretchenInit) ''body'' = None \<and>
   (\<forall>k. rest (options gretchenInit) k =
          (if k \<in> set destructured then None else options gretchenInit k)) \<and>
   (\<forall>w. gretchen P (RequestInput rq) gretchenInit w =
          gretchen_loop P (RequestInput rq) (rest (options gretchenInit))
            (property (options gretchenInit) ''retryOnTooManyRequests'')
            (property (options gretchenInit) ''throwOnError'')
            (property (options gretchenInit) ''returnJSON'') w)"
proof -
  have r: "request_init P (RequestInput rq) gretchenInit = Inr (rest (options gretchenInit))"
    by (rule request_init_Request) simp
  have a: "\<forall>k. rest (options gretchenInit) k =
          (if k \<in> set destructured then None else options gretchenInit k)"
    by (simp add: rest_apply)
  have l: "\<forall>w. gretchen P (RequestInput rq) gretchenInit w =
          gretchen_loop P (RequestInput rq) (rest (options gretchenInit))
            (property (options gretchenInit) ''retryOnTooManyRequests'')
            (property (options gretchenInit) ''throwOnError'')
            (property (options gretchenInit) ''returnJSON'') w"
    by (simp add: gretchen_eq_loop[OF r])
  from r rest_headers[of "options gretchenInit"] rest_method[of "options gretchenInit"]
    rest_body[of "options gretchenInit"] a l
  show ?thesis
    by (intro conjI)
qed

theorem request_input_untouched_witness:
  "gretchen scripted
     (RequestInput \<lparr>req_url = ''http://h/'', req_method = ''GET'', req_headers = [],
        req_body = None\<rparr>)
     (Some [''requestJSON'' \<mapsto> Bool True, ''returnJSON'' \<mapsto> Bool True,
            ''sendJSON'' \<mapsto> Bool True, ''body'' \<mapsto> Obj [(''Wednesday'', Str ''pink'')],
            ''cache'' \<mapsto> Str ''no-store''])
     (start [Inr foo_bar]) =
   Some (Inr (Parsed (Obj [(''a'', Num 1)])),
     \<lparr>clock = 10, script = [], timers = [],
      sent = [(RequestInput \<lparr>req_url = ''http://h/'', req_method = ''GET'', req_headers = [],
                 req_body = None\<rparr>,
               rest [''requestJSON'' \<mapsto> Bool True, ''returnJSON'' \<mapsto> Bool True,
                 ''sendJSON'' \<mapsto> Bool True, ''body'' \<mapsto> Obj [(''Wednesday'', Str ''pink'')],
                 ''cache'' \<mapsto> Str ''no-store''])]\<rparr>) \<and>
   rest [''requestJSON'' \<mapsto> Bool True, ''returnJSON'' \<mapsto> Bool True,
         ''sendJSON'' \<mapsto> Bool True, ''body'' \<mapsto> Obj [(''Wednesday'', Str ''pink'')],
         ''cache'' \<mapsto> Str ''no-store''] =
     [''cache'' \<mapsto> Str ''no-store'']"
proof -
  let ?rq = "\<lparr>req_url = ''http://h/'', req_method = ''GET'', req_headers = [], req_body = None\<rparr>"
  let ?g = "Some [''requestJSON'' \<mapsto> Bool True, ''returnJSON'' \<mapsto> Bool True,
            ''sendJSON'' \<mapsto> Bool True, ''body'' \<mapsto> Obj [(''Wednesday'', Str ''pink'')],
            ''cache'' \<mapsto> Str ''no-store'']"
  note T = request_input_untouched[of scripted ?rq ?g]
  have "gretchen scripted (RequestInput ?rq) ?g (start [Inr foo_bar]) =
      Some (Inr (Parsed (Obj [(''a'', Num 1)])),
        \<lparr>clock = 10, script = [], timers = [],
         sent = [(RequestInput ?rq, rest (options ?g))]\<rparr>)"
    using scripted_single_run[OF T[THEN conjunct1], of foo_bar]
    by (simp add: options_Some property_def finalize_def ok_def response_simps scripted_simps)
  moreover have "rest (options ?g) = [''cache'' \<mapsto> Str ''no-store'']"
  proof (rule ext)
    fix k
    show "rest (options ?g) k = [''cache'' \<mapsto> Str ''no-store''] k"
      using T[THEN conjunct2, THEN conjunct2, THEN conjunct2, THEN conjunct2, THEN conjunct1,
          THEN spec, of k]
      by (simp add: options_Some destructured_def)
  qed
  ultimately show ?thesis
    by (simp add: options_Some)
qed

section \<open>The factory\<close>

lemma gretchen_raw_response:
  assumes "\<not> truthy (property (options gretchenInit) ''returnJSON'')"
    and "gretchen P input gretchenInit w = Some (Inr out, w')"
  shows "\<exists>r. out = Response r"
proof (cases "request_init P input gretchenInit")
  case (Inl e)
  with assms(2) show ?thesis
    by (simp add: gretchen_def Let_def)
next
  case (Inr init)
  from gretchen_outcome[OF Inr, THEN iffD1, OF assms(2)] obtain x where
    x: "Inr out = settle P (property (options gretchenInit) ''throwOnError'')
                   (property (options gretchenInit) ''returnJSON'') x"
    by (elim exE conjE)
  show ?thesis
  proof (cases x)
    case (Inl e)
    with x show ?thesis
      by (simp add: settle_def)
  next
    case (Inr r)
    with x assms(1) have "out = Response r"
      by (simp add: settle_def finalize_def split: if_splits)
    then show ?thesis
      by (rule exI)
  qed
qed

text \<open>
  Claim C7. The function that \<^verbatim>\<open>createGretchen(defaults)\<close> returns, called with an input and
  overrides, is \<^verbatim>\<open>gretchen\<close> called with that input and the merge of the two objects: a key
  of the overrides has the overrides' value, also when this value is falsy or
  \<^verbatim>\<open>undefined\<close>, and any other key has the default. So when the overrides give
  \<^verbatim>\<open>returnJSON\<close> a falsy value, a call that is fulfilled gives the response itself, whatever
  the defaults are.
\<close>

theorem createGretchen_merges:
  "createGretchen P defaults input overrides w =
     gretchen P input (Some (spread defaults ++ spread overrides)) w \<and>
   (\<forall>k. (spread defaults ++ spread overrides) k =
          (case spread overrides k of Some v \<Rightarrow> Some v | None \<Rightarrow> spread defaults k)) \<and>
   (\<forall>k v. spread overrides k = Some v \<longrightarrow>
          property (options (Some (spread defaults ++ spread overrides))) k = v) \<and>
   (\<forall>v out w'.
      spread overrides ''returnJSON'' = Some v \<and> \<not> truthy v \<and>
      createGretchen P defaults input overrides w = Some (Inr out, w') \<longrightarrow>
      (\<exists>r. out = Response r))"
proof (intro conjI allI impI)
  show c: "createGretchen P defaults input overrides w =
     gretchen P input (Some (spread defaults ++ spread overrides)) w"
    by (simp add: createGretchen_def Let_def)
  show "(spread defaults ++ spread overrides) k =
          (case spread overrides k of Some v \<Rightarrow> Some v | None \<Rightarrow> spread defaults k)" for k
    by (simp add: map_add_def split: option.split)
  show p: "property (options (Some (spread defaults ++ spread overrides))) k = v"
    if "spread overrides k = Some v" for k v
    using that by (simp add: options_Some property_def)
  show "\<exists>r. out = Response r"
    if "spread overrides ''returnJSON'' = Some v \<and> \<not> truthy v \<and>
        createGretchen P defaults input overrides w = Some (Inr out, w')" for v out w'
  proof -
    from that have "\<not> truthy (property (options (Some (spread defaults ++ spread overrides)))
                       ''returnJSON'')"
      by (simp add: p)
    moreover from that c have
      "gretchen P input (Some (spread defaults ++ spread overrides)) w = Some (Inr out, w')"
      by simp
    ultimately show ?thesis
      by (rule gretchen_raw_response)
  qed
qed

theorem createGretchen_merges_witness:
  "map_option fst
     (createGretchen scripted (Some [''sendJSON'' \<mapsto> Bool True, ''returnJSON'' \<mapsto> Bool True])
        (StringInput ''http://h/'') (Some [''returnJSON'' \<mapsto> Bool False])
        (start [Inr foo_bar])) =
     Some (Inr (Response foo_bar)) \<and>
   map_option fst
     (createGretchen scripted (Some [''sendJSON'' \<mapsto> Bool True, ''returnJSON'' \<mapsto> Bool True])
        (StringInput ''http://h/'') (Some [''body'' \<mapsto> Obj [(''a'', Num 1)]])
        (start [Inr foo_bar])) =
     Some (Inr (Parsed (Obj [(''a'', Num 1)]))) \<and>
   map_option fst
     (createGretchen scripted (Some [''sendJSON'' \<mapsto> Bool True, ''returnJSON'' \<mapsto> Bool True])
        (StringInput ''http://h/'') (Some [''returnJSON'' \<mapsto> Undefined])
        (start [Inr foo_bar])) =
     Some (Inr (Response foo_bar))"
proof -
  let ?d = "Some [''sendJSON'' \<mapsto> Bool True, ''returnJSON'' \<mapsto> Bool True]"
  let ?i = "StringInput ''http://h/''"
  have i: "\<not> instanceof_Request ?i"
    by simp
  have run: "map_option fst (createGretchen scripted ?d ?i ov (start [Inr foo_bar])) =
      Some (finalize scripted
              (property (options (Some (spread ?d ++ spread ov))) ''throwOnError'')
              (property (options (Some (spread ?d ++ spread ov))) ''returnJSON'') foo_bar)"
    if h: "Headers_new (property (options (Some (spread ?d ++ spread ov))) ''headers'') = Inr []"
      and j: "truthy (property (options (Some (spread ?d ++ spread ov))) ''sendJSON'') \<and>
          property (options (Some (spread ?d ++ spread ov))) ''body'' \<noteq> Undefined \<longrightarrow>
          JSON_stringify scripted
            (property (options (Some (spread ?d ++ spread ov))) ''body'') = Inr json"
      and r: "\<not> truthy (property (options (Some (spread ?d ++ spread ov)))
                ''retryOnTooManyRequests'')"
    for ov json
  proof -
    from request_init_succeeds[OF i h j] obtain init where
      ri: "request_init scripted ?i (Some (spread ?d ++ spread ov)) = Inr init" ..
    show ?thesis
      using createGretchen_merges[of scripted ?d ?i ov "start [Inr foo_bar]", THEN conjunct1]
        scripted_single_run[OF ri r, of foo_bar]
      by simp
  qed
  have 1: "map_option fst (createGretchen scripted ?d ?i (Some [''returnJSON'' \<mapsto> Bool False])
             (start [Inr foo_bar])) = Some (Inr (Response foo_bar))"
    using run[of "Some [''returnJSON'' \<mapsto> Bool False]" Undefined]
    by (simp add: options_Some property_def spread_def finalize_def ok_def response_simps
        respond_def)
  have 2: \<open>map_option fst (createGretchen scripted ?d ?i (Some [''body'' \<mapsto> Obj [(''a'', Num 1)]])
             (start [Inr foo_bar])) = Some (Inr (Parsed (Obj [(''a'', Num 1)])))\<close>
    using run[of "Some [''body'' \<mapsto> Obj [(''a'', Num 1)]]" \<open>Str ''{"a":1}''\<close>]
    by (simp add: options_Some property_def spread_def finalize_def ok_def response_simps
        scripted_simps)
  have 3: "map_option fst (createGretchen scripted ?d ?i (Some [''returnJSON'' \<mapsto> Undefined])
             (start [Inr foo_bar])) = Some (Inr (Response foo_bar))"
    using run[of "Some [''returnJSON'' \<mapsto> Undefined]" Undefined]
    by (simp add: options_Some property_def spread_def finalize_def ok_def response_simps
        respond_def)
  from 1 2 3 show ?thesis
    by (intro conjI)
qed

section \<open>The pass-through property\<close>

text \<open>
  Claim C4, as amended. When \<^verbatim>\<open>sendJSON\<close>, \<^verbatim>\<open>requestJSON\<close>, \<^verbatim>\<open>returnJSON\<close>,
  \<^verbatim>\<open>retryOnTooManyRequests\<close> and \<^verbatim>\<open>throwOnError\<close> are all falsy, a call is one call of
  \<^verbatim>\<open>fetch\<close>: the response is given back as it is and a rejection is passed on. The second
  argument of \<^verbatim>\<open>fetch\<close> is the pass-through options, to which, for a string or a URL, the
  property \<^verbatim>\<open>body\<close> is added with the value of the body option (\<^verbatim>\<open>undefined\<close> when there is
  none); for a request as input it is the pass-through options alone.
\<close>

theorem pass_through_identity:
  assumes "\<not> truthy (property (options gretchenInit) ''sendJSON'')"
    and "\<not> truthy (property (options gretchenInit) ''requestJSON'')"
    and "\<not> truthy (property (options gretchenInit) ''returnJSON'')"
    and "\<not> truthy (property (options gretchenInit) ''retryOnTooManyRequests'')"
    and "\<not> truthy (property (options gretchenInit) ''throwOnError'')"
  shows "gretchen P input gretchenInit w =
           Some (direct_call P input
                   (if instanceof_Request input then rest (options gretchenInit)
                    else (rest (options gretchenInit))
                           (''body'' \<mapsto> property (options gretchenInit) ''body''))
                   w)"
proof -
  define init where "init =
    (if instanceof_Request input then rest (options gretchenInit)
     else (rest (options gretchenInit))(''body'' \<mapsto> property (options gretchenInit) ''body''))"
  have ri: "request_init P input gretchenInit = Inr init"
  proof (cases "instanceof_Request input")
    case True
    then show ?thesis
      by (simp add: init_def request_init_Request)
  next
    case False
    with assms(1-3) show ?thesis
      by (simp add: init_def request_init_plain)
  qed
  have "gretchen P input gretchenInit w = Some (direct_call P input init w)"
  proof (cases "fetch P input init w")
    case (Pair a w1)
    show ?thesis
    proof (cases a)
      case (Inl e)
      with Pair show ?thesis
        by (simp add: gretchen_rejected[OF ri] direct_call_def)
    next
      case (Inr r)
      with Pair assms(3-5) show ?thesis
        by (simp add: gretchen_step[OF ri] direct_call_def retry_delay_def finalize_def)
    qed
  qed
  then show ?thesis
    by (simp only: init_def)
qed

theorem pass_through_identity_witness:
  "gretchen scripted (StringInput ''http://h/error'')
     (Some [''method'' \<mapsto> Str ''DELETE'', ''body'' \<mapsto> Str ''x''])
     (start [Inr error_500]) =
   Some (Inr (Response error_500),
     \<lparr>clock = 10, script = [], timers = [],
      sent = [(StringInput ''http://h/error'',
               (rest [''method'' \<mapsto> Str ''DELETE'', ''body'' \<mapsto> Str ''x''])
                 (''body'' \<mapsto> Str ''x''))]\<rparr>) \<and>
   (rest [''method'' \<mapsto> Str ''DELETE'', ''body'' \<mapsto> Str ''x''])(''body'' \<mapsto> Str ''x'') =
     [''method'' \<mapsto> Str ''DELETE'', ''body'' \<mapsto> Str ''x'']"
proof -
  let ?g = "Some [''method'' \<mapsto> Str ''DELETE'', ''body'' \<mapsto> Str ''x'']"
  have "gretchen scripted (StringInput ''http://h/error'') ?g (start [Inr error_500]) =
      Some (Inr (Response error_500),
        \<lparr>clock = 10, script = [], timers = [],
         sent = [(StringInput ''http://h/error'',
                  (rest [''method'' \<mapsto> Str ''DELETE'', ''body'' \<mapsto> Str ''x''])
                    (''body'' \<mapsto> Str ''x''))]\<rparr>)"
    using pass_through_identity[of ?g scripted "StringInput ''http://h/error''"
        "start [Inr error_500]"]
    by (simp add: options_Some property_def direct_call_def scripted_def scripted_fetch_def
        start_def)
  moreover have "(rest [''method'' \<mapsto> Str ''DELETE'', ''body'' \<mapsto> Str ''x''])
                   (''body'' \<mapsto> Str ''x'') =
                 [''method'' \<mapsto> Str ''DELETE'', ''body'' \<mapsto> Str ''x'']"
    by (rule ext) (simp add: rest_def destructured_def)
  ultimately show ?thesis
    by (intro conjI)
qed

theorem pass_through_identity_counterexample:
  "map_option fst
     (gretchen scripted (StringInput ''http://h/error'')
        (Some [''throwOnError'' \<mapsto> Bool True]) (start [Inr error_500])) =
     Some (Inl (HTTPError ''500 Internal Server Error'' error_500)) \<and>
   fst (direct_call scripted (StringInput ''http://h/error'')
          (rest (options (Some [''throwOnError'' \<mapsto> Bool True]))) (start [Inr error_500])) =
     Inr (Response error_500) \<and>
   map_option fst
     (gretchen scripted (StringInput ''http://h/retry'')
        (Some [''retryOnTooManyRequests'' \<mapsto> Bool True])
        (start [Inr seconds_429, Inr foo_bar])) =
     Some (Inr (Response foo_bar)) \<and>
   fst (direct_call scripted (StringInput ''http://h/retry'')
          (rest (options (Some [''retryOnTooManyRequests'' \<mapsto> Bool True])))
          (start [Inr seconds_429, Inr foo_bar])) =
     Inr (Response seconds_429) \<and>
   map_option (apsnd (sent_property ''body''))
     (gretchen scripted (StringInput ''http://h/'')
        (Some [''body'' \<mapsto> Str ''x'']) (start [Inr foo_bar])) =
     Some (Inr (Response foo_bar), [Some (Str ''x'')]) \<and>
   sent_property ''body''
     (snd (direct_call scripted (StringInput ''http://h/'')
             (rest (options (Some [''body'' \<mapsto> Str ''x'']))) (start [Inr foo_bar]))) =
     [None]"
proof -
  have plain: "request_init scripted (StringInput u) (Some g) =
      Inr ((rest (options (Some g)))(''body'' \<mapsto> property (options (Some g)) ''body''))"
    if "\<not> truthy (property (options (Some g)) ''requestJSON'')"
      and "\<not> truthy (property (options (Some g)) ''returnJSON'')"
      and "\<not> (truthy (property (options (Some g)) ''sendJSON'') \<and>
              property (options (Some g)) ''body'' \<noteq> Undefined)" for u g
    using that by (intro request_init_plain) simp_all
  have 1: "map_option fst
     (gretchen scripted (StringInput ''http://h/error'')
        (Some [''throwOnError'' \<mapsto> Bool True]) (start [Inr error_500])) =
     Some (Inl (HTTPError ''500 Internal Server Error'' error_500))"
    using scripted_single_run[OF plain, of "[''throwOnError'' \<mapsto> Bool True]" _ error_500]
    by (simp add: options_Some property_def finalize_def ok_def response_simps respond_def
        string_of_nat.simps)
  have 2: "fst (direct_call scripted (StringInput ''http://h/error'')
          (rest (options (Some [''throwOnError'' \<mapsto> Bool True]))) (start [Inr error_500])) =
     Inr (Response error_500)"
    by (simp add: direct_call_def scripted_def scripted_fetch_def start_def)
  have 3: "map_option fst
     (gretchen scripted (StringInput ''http://h/retry'')
        (Some [''retryOnTooManyRequests'' \<mapsto> Bool True])
        (start [Inr seconds_429, Inr foo_bar])) =
     Some (Inr (Response foo_bar))"
  proof -
    let ?i = "StringInput ''http://h/retry''"
    let ?g = "Some [''retryOnTooManyRequests'' \<mapsto> Bool True]"
    define init where
      "init = (rest (options ?g))(''body'' \<mapsto> property (options ?g) ''body'')"
    have ri: "request_init scripted ?i ?g = Inr init"
      unfolding init_def by (rule plain) (simp_all add: options_Some property_def)
    let ?w0 = "start [Inr seconds_429, Inr foo_bar]"
    let ?w1 = "setTimeout scripted (Finite 1000) (snd (fetch scripted ?i init ?w0))"
    have "gretchen scripted ?i ?g ?w0 = gretchen scripted ?i ?g ?w1"
      using gretchen_step[OF ri, where w = ?w0 and r = seconds_429
          and ?w1.0 = "snd (fetch scripted ?i init ?w0)"]
      by (simp add: scripted_simps string_simps response_simps retry_delay_def
          options_Some property_def to_double_exact)
    moreover have "map_option fst (gretchen scripted ?i ?g ?w1) = Some (Inr (Response foo_bar))"
      using gretchen_step[OF ri, where w = ?w1 and r = foo_bar
          and ?w1.0 = "snd (fetch scripted ?i init ?w1)"]
      by (simp add: scripted_simps string_simps response_simps retry_delay_def finalize_def
          ok_def options_Some property_def)
    ultimately show ?thesis
      by simp
  qed
  have 4: "fst (direct_call scripted (StringInput ''http://h/retry'')
          (rest (options (Some [''retryOnTooManyRequests'' \<mapsto> Bool True])))
          (start [Inr seconds_429, Inr foo_bar])) =
     Inr (Response seconds_429)"
    by (simp add: direct_call_def scripted_def scripted_fetch_def start_def)
  have 5: "map_option (apsnd (sent_property ''body''))
     (gretchen scripted (StringInput ''http://h/'')
        (Some [''body'' \<mapsto> Str ''x'']) (start [Inr foo_bar])) =
     Some (Inr (Response foo_bar), [Some (Str ''x'')])"
    using scripted_single_run[OF plain, of "[''body'' \<mapsto> Str ''x'']" _ foo_bar]
    by (simp add: options_Some property_def finalize_def ok_def response_simps respond_def
        sent_property_def)
  have 6: "sent_property ''body''
     (snd (direct_call scripted (StringInput ''http://h/'')
             (rest (options (Some [''body'' \<mapsto> Str ''x'']))) (start [Inr foo_bar]))) =
     [None]"
    by (simp add: direct_call_def scripted_def scripted_fetch_def start_def sent_property_def
        rest_body)
  from 1 2 3 4 5 6 show ?thesis
    by (intro conjI)
qed

section \<open>What the call writes to\<close>

lemma map_of_put: "map_of (put k v kvs) k = Some v"
  by (induction kvs) auto

lemma length_set_property: "length (set_property a k v H) = length H"
  by (simp add: set_property_def split: hobj.split)

lemma take_set_property: "n \<le> a \<Longrightarrow> take n (set_property a k v H) = take n H"
  by (simp add: set_property_def split: hobj.split)

lemma nth_set_property:
  "a < length H \<Longrightarrow> H ! a = PlainObject kvs \<Longrightarrow>
   set_property a k v H ! a = PlainObject (put k v kvs)"
  by (simp add: set_property_def)

lemma nth_set_property_other: "b \<noteq> a \<Longrightarrow> set_property a k v H ! b = H ! b"
  by (simp add: set_property_def split: hobj.split)

lemma get_set_property:
  "a < length H \<Longrightarrow> H ! a = PlainObject kvs \<Longrightarrow> get_property (set_property a k v H) a k = v"
  by (simp add: get_property_def own_properties_def length_set_property nth_set_property
      map_of_put)

lemma length_set_header: "length (set_header v name value H) = length H"
  by (simp add: set_header_def split: hval.split hobj.split)

lemma take_set_header: "n \<le> a \<Longrightarrow> take n (set_header (Ref a) name value H) = take n H"
  by (simp add: set_header_def split: hobj.split)

lemma nth_set_header_other: "b \<noteq> a \<Longrightarrow> set_header (Ref a) name value H ! b = H ! b"
  by (simp add: set_header_def split: hobj.split)

lemma Headers_new_heap_cases:
  assumes "Headers_new_heap v H = (r, H1)"
  shows "(\<exists>e. r = Inl e \<and> H1 = H) \<or> (\<exists>h. r = Inr (length H) \<and> H1 = H @ [HeadersObject h])"
  using assms by (auto simp: Headers_new_heap_def alloc_def split: sum.splits)

text \<open>After \<^verbatim>\<open>init.headers = new Headers(init.headers)\<close> the property is the new container.\<close>

lemma fresh_headers:
  assumes "init < length H" and "H ! init = PlainObject kvs"
    and "Headers_new_heap v H = (Inr h, H1)"
    and "H2 = set_property init ''headers'' (Ref h) H1"
    and "n \<le> init"
  shows "h = length H" and "length H2 = Suc (length H)" and "take n H2 = take n H"
    and "get_property H2 init ''headers'' = Ref h"
    and "\<exists>hl. H2 ! h = HeadersObject hl"
    and "H2 ! init = PlainObject (put ''headers'' (Ref h) kvs)"
proof -
  from Headers_new_heap_cases[OF assms(3)] obtain hl where
    h: "h = length H" and H1: "H1 = H @ [HeadersObject hl]"
    by auto
  show "h = length H"
    by (rule h)
  from assms(1,2) H1 have i1: "init < length H1" "H1 ! init = PlainObject kvs"
    by (simp_all add: nth_append)
  show "length H2 = Suc (length H)"
    by (simp add: assms(4) length_set_property H1)
  show "take n H2 = take n H"
    using assms(1,5) by (simp add: assms(4) H1 take_set_property)
  show "get_property H2 init ''headers'' = Ref h"
    unfolding assms(4) using i1 by (rule get_set_property)
  from assms(1) h have "h \<noteq> init"
    by simp
  then have "H2 ! h = H1 ! h"
    unfolding assms(4) by (rule nth_set_property_other)
  with h H1 show "\<exists>hl. H2 ! h = HeadersObject hl"
    by simp
  show "H2 ! init = PlainObject (put ''headers'' (Ref h) kvs)"
    unfolding assms(4) using i1 by (rule nth_set_property)
qed


lemma accept_json_heap_frame:
  assumes "n \<le> init" and "init < length H" and "H ! init = PlainObject kvs"
    and "accept_json_heap requestJSON returnJSON init H = (r, H')"
  shows "take n H' = take n H \<and> length H \<le> length H' \<and> (\<exists>kvs'. H' ! init = PlainObject kvs')"
proof (cases "truthy_value requestJSON \<or> truthy_value returnJSON")
  case False
  with assms show ?thesis
    by (simp add: accept_json_heap_def)
next
  case True
  obtain r1 H1 where n1: "Headers_new_heap (get_property H init ''headers'') H = (r1, H1)"
    by (cases "Headers_new_heap (get_property H init ''headers'') H")
  show ?thesis
  proof (cases r1)
    case (Inl e)
    with Headers_new_heap_cases[OF n1] have "H1 = H"
      by auto
    with True n1 Inl assms show ?thesis
      by (simp add: accept_json_heap_def)
  next
    case (Inr h)
    define H2 where "H2 = set_property init ''headers'' (Ref h) H1"
    note F = fresh_headers[OF assms(2,3) n1[unfolded Inr] H2_def assms(1)]
    from F(5) obtain hl where hl: "H2 ! h = HeadersObject hl" ..
    from F(1,2) have hlt: "h < length H2"
      by simp
    from F(1) assms(1,2) have nh: "n \<le> h" "init \<noteq> h"
      by simp_all
    have g: "get_is_null H2 (Ref h) ''accept'' = Inr (Headers_get hl ''accept'' = None)"
      using hlt hl by (simp add: get_is_null_def)
    have H': "H' = (if Headers_get hl ''accept'' = None
                    then set_header (Ref h) ''accept'' ''application/json'' H2 else H2)"
      using True n1 Inr assms(4) g F(4)
      by (auto simp: accept_json_heap_def Let_def H2_def[symmetric] split: if_splits)
    have "take n H' = take n H"
      using F(3) nh(1) by (simp add: H' take_set_header)
    moreover have "length H \<le> length H'"
      using F(2) by (simp add: H' length_set_header)
    moreover have "H' ! init = H2 ! init"
      using nh(2) by (simp add: H' nth_set_header_other)
    ultimately show ?thesis
      using F(6) by simp
  qed
qed


lemma send_json_heap_frame:
  assumes "n \<le> init" and "init < length H" and "H ! init = PlainObject kvs"
    and "send_json_heap P sendJSON body init H = (r, H')"
  shows "take n H' = take n H \<and> length H \<le> length H'"
proof (cases "truthy_value sendJSON \<and> body \<noteq> Prim Undefined")
  case False
  with assms(4) have "H' = set_property init ''body'' body H"
    by (auto simp: send_json_heap_def)
  with assms(1) show ?thesis
    by (simp add: take_set_property length_set_property)
next
  case True
  define H1 where "H1 =
    (if eq_null_value (get_property H init ''method'')
     then set_property init ''method'' (Prim (Str ''POST'')) H else H)"
  have l1: "length H1 = length H"
    by (simp add: H1_def length_set_property)
  have t1: "take n H1 = take n H"
    using assms(1) by (simp add: H1_def take_set_property)
  obtain kvs1 where k1: "H1 ! init = PlainObject kvs1"
    using assms(2,3) by (cases "eq_null_value (get_property H init ''method'')")
      (simp_all add: H1_def nth_set_property)
  from assms(2) l1 have i1: "init < length H1"
    by simp
  obtain r1 H2 where n1: "Headers_new_heap (get_property H1 init ''headers'') H1 = (r1, H2)"
    by (cases "Headers_new_heap (get_property H1 init ''headers'') H1")
  show ?thesis
  proof (cases r1)
    case (Inl e)
    with Headers_new_heap_cases[OF n1] have "H2 = H1"
      by auto
    with True n1 Inl assms(4) have "H' = H1"
      by (simp add: send_json_heap_def Let_def H1_def[symmetric])
    with t1 l1 show ?thesis
      by simp
  next
    case (Inr h)
    define H3 where "H3 = set_property init ''headers'' (Ref h) H2"
    note F = fresh_headers[OF i1 k1 n1[unfolded Inr] H3_def assms(1)]
    from F(5) obtain hl where hl: "H3 ! h = HeadersObject hl" ..
    from F(1,2) have hlt: "h < length H3"
      by simp
    from F(1) assms(1) i1 have nh: "n \<le> h" "init \<noteq> h"
      by simp_all
    have g: "get_is_null H3 (Ref h) ''content-type'' =
               Inr (Headers_get hl ''content-type'' = None)"
      using hlt hl by (simp add: get_is_null_def)
    define H4 where "H4 =
      (if Headers_get hl ''content-type'' = None
       then set_header (Ref h) ''content-type'' ''application/json'' H3 else H3)"
    have t4: "take n H4 = take n H"
      using F(3) nh(1) t1 by (simp add: H4_def take_set_header)
    have l4: "length H \<le> length H4"
      using F(2) l1 by (simp add: H4_def length_set_header)
    have run: "(r, H') = (case JSON_stringify P (read_value H4 body) of
                 Inl e \<Rightarrow> (Inl (Thrown e), H4)
               | Inr json \<Rightarrow> (Inr (), set_property init ''body'' (Prim json) H4))"
      using True n1 Inr assms(4) g F(4)
      unfolding send_json_heap_def Let_def H4_def H3_def H1_def
      by (cases "Headers_get hl ''content-type'' = None") (auto split: sum.splits)
    show ?thesis
    proof (cases "JSON_stringify P (read_value H4 body)")
      case (Inl e)
      with run have "H' = H4"
        by simp
      with t4 l4 show ?thesis
        by simp
    next
      case (Inr json)
      with run have "H' = set_property init ''body'' (Prim json) H4"
        by simp
      with t4 l4 assms(1) show ?thesis
        by (simp add: take_set_property length_set_property)
    qed
  qed
qed

lemma destructure_frame:
  assumes "destructure gretchenInit H = ((copy, init), H2)"
  shows "take (length H) H2 = H" and "length H \<le> init" and "init < length H2"
    and "\<exists>kvs. H2 ! init = PlainObject kvs"
proof -
  obtain g H0 where g: "(case gretchenInit of None \<Rightarrow> alloc (PlainObject []) H
                         | Some a \<Rightarrow> (a, H)) = (g, H0)"
    by (cases "case gretchenInit of None \<Rightarrow> alloc (PlainObject []) H | Some a \<Rightarrow> (a, H)")
  then have H0: "take (length H) H0 = H" "length H \<le> length H0"
    by (auto simp: alloc_def split: option.splits)
  define H1 where "H1 = H0 @ [PlainObject (own_properties H0 g)]"
  define kvs where
    "kvs = filter (\<lambda>(k, v). k \<notin> set destructured) (own_properties H1 (length H0))"
  from assms g have r: "copy = length H0" "init = length H1" "H2 = H1 @ [PlainObject kvs]"
    by (auto simp: destructure_def alloc_def H1_def kvs_def)
  from H0 show "take (length H) H2 = H"
    by (simp add: r H1_def)
  from H0 show "length H \<le> init"
    by (simp add: r H1_def)
  show "init < length H2"
    by (simp add: r)
  have "H2 ! init = PlainObject kvs"
    by (simp add: r)
  then show "\<exists>kvs. H2 ! init = PlainObject kvs" ..
qed

section \<open>The two readings of the function\<close>

lemma keeps_refl: "keeps X init X"
  by (simp add: keeps_def)

lemma keeps_trans: "keeps X init Y \<Longrightarrow> keeps Y init Z \<Longrightarrow> keeps X init Z"
  by (auto simp: keeps_def)

lemma read_value_keeps:
  "keeps X init Y \<Longrightarrow> elsewhere X init v \<Longrightarrow> read_value Y v = read_value X v"
  by (cases v) (auto simp: keeps_def elsewhere_def read_value_def)

lemma elsewhere_keeps: "keeps X init Y \<Longrightarrow> elsewhere X init v \<Longrightarrow> elsewhere Y init v"
  by (cases v) (auto simp: keeps_def elsewhere_def)

lemma elsewhere_Prim: "elsewhere X init (Prim x)"
  by (simp add: elsewhere_def)

lemma read_value_Prim: "read_value X (Prim x) = x"
  by (simp add: read_value_def)

lemma truthy_read_value: "elsewhere X init v \<Longrightarrow> truthy (read_value X v) = truthy_value v"
  by (cases v) (auto simp: elsewhere_def read_value_def split: hobj.splits)

lemma eq_null_read_value: "elsewhere X init v \<Longrightarrow> eq_null (read_value X v) = eq_null_value v"
  by (cases v) (auto simp: elsewhere_def read_value_def split: hobj.splits)

lemma undefined_read_value:
  "elsewhere X init v \<Longrightarrow> (read_value X v = Undefined) = (v = Prim Undefined)"
  by (cases v) (auto simp: elsewhere_def read_value_def split: hobj.splits)

lemma property_read_object: "property (read_object X a) k = read_value X (get_property X a k)"
  by (simp add: property_def read_object_def get_property_def map_of_map read_value_def
      split: option.split)

lemma set_put: "set (put k v kvs) \<subseteq> insert (k, v) (set kvs)"
  by (induction kvs) (auto split: if_splits)

lemma own_properties_append: "own_properties (X @ [PlainObject kvs]) (length X) = kvs"
  by (simp add: own_properties_def)

lemma map_of_put_other: "k' \<noteq> k \<Longrightarrow> map_of (put k v kvs) k' = map_of kvs k'"
  by (induction kvs) auto

lemma map_of_filter_names:
  "map_of (filter (\<lambda>(k, v). k \<notin> S) kvs) k = (if k \<in> S then None else map_of kvs k)"
  by (induction kvs) auto

lemma init_at_elsewhere:
  "init_at X init kvs \<Longrightarrow> map_of kvs k = Some v \<Longrightarrow> elsewhere X init v"
  by (auto simp: init_at_def list_all_iff dest!: map_of_SomeD)

lemma get_property_elsewhere:
  assumes "init_at X init kvs"
  shows "elsewhere X init (get_property X init k)"
proof (cases "map_of kvs k")
  case None
  with assms show ?thesis
    by (simp add: get_property_def own_properties_def init_at_def elsewhere_def)
next
  case (Some v)
  with assms have "elsewhere X init v"
    by (rule init_at_elsewhere)
  with Some assms show ?thesis
    by (simp add: get_property_def own_properties_def init_at_def)
qed

lemma read_object_update:
  assumes "init_at X init kvs" and "keeps X init Y" and "Y ! init = PlainObject (put k v kvs)"
  shows "read_object Y init = (read_object X init)(k \<mapsto> read_value Y v)"
proof (rule ext)
  fix k'
  from assms(1,2) have lt: "init < length X" "init < length Y" "X ! init = PlainObject kvs"
    by (auto simp: init_at_def keeps_def)
  show "read_object Y init k' = ((read_object X init)(k \<mapsto> read_value Y v)) k'"
  proof (cases "k' = k")
    case True
    with lt assms(3) show ?thesis
      by (simp add: read_object_def own_properties_def map_of_map map_of_put)
  next
    case False
    have "map_option (read_value Y) (map_of kvs k') = map_option (read_value X) (map_of kvs k')"
    proof (cases "map_of kvs k'")
      case None
      then show ?thesis
        by simp
    next
      case (Some u)
      with assms(1) have "elsewhere X init u"
        by (rule init_at_elsewhere)
      with assms(2) Some show ?thesis
        by (simp add: read_value_keeps)
    qed
    with False lt assms(3) show ?thesis
      by (simp add: read_object_def own_properties_def map_of_map map_of_put_other)
  qed
qed

lemma init_at_update:
  assumes "init_at X init kvs" and "keeps X init Y" and "Y ! init = PlainObject (put k v kvs)"
    and "elsewhere Y init v"
  shows "init_at Y init (put k v kvs)"
proof -
  have "\<forall>x \<in> set (put k v kvs). case x of (k, v) \<Rightarrow> elsewhere Y init v"
  proof
    fix x
    assume "x \<in> set (put k v kvs)"
    with set_put[of k v kvs] have "x = (k, v) \<or> x \<in> set kvs"
      by auto
    then show "case x of (k, v) \<Rightarrow> elsewhere Y init v"
    proof
      assume "x = (k, v)"
      with assms(4) show ?thesis
        by simp
    next
      assume "x \<in> set kvs"
      with assms(1) have "case x of (k, v) \<Rightarrow> elsewhere X init v"
        by (auto simp: init_at_def list_all_iff)
      with assms(2) show ?thesis
        by (cases x) (simp add: elsewhere_keeps)
    qed
  qed
  with assms(1,2,3) show ?thesis
    by (auto simp: init_at_def keeps_def list_all_iff)
qed

text \<open>\<^verbatim>\<open>init.k = v\<close> in both readings.\<close>

lemma set_property_init:
  assumes "init_at X init kvs" and "elsewhere X init v"
  shows "keeps X init (set_property init k v X)"
    and "init_at (set_property init k v X) init (put k v kvs)"
    and "read_object (set_property init k v X) init = (read_object X init)(k \<mapsto> read_value X v)"
proof -
  let ?Y = "set_property init k v X"
  from assms(1) have eq: "?Y = X[init := PlainObject (put k v kvs)]"
    by (simp add: set_property_def init_at_def)
  from assms(1) have lt: "init < length X"
    by (simp add: init_at_def)
  show K: "keeps X init ?Y"
    by (simp add: eq keeps_def)
  from lt have N: "?Y ! init = PlainObject (put k v kvs)"
    by (simp add: eq)
  from K assms(2) have E: "elsewhere ?Y init v"
    by (rule elsewhere_keeps)
  from assms(1) K N E show "init_at ?Y init (put k v kvs)"
    by (rule init_at_update)
  from read_object_update[OF assms(1) K N] read_value_keeps[OF K assms(2)]
  show "read_object ?Y init = (read_object X init)(k \<mapsto> read_value X v)"
    by simp
qed

text \<open>
  \<^verbatim>\<open>init.headers = new Headers(init.headers)\<close> and the default for one header, in both
  readings.
\<close>

lemma install_headers:
  assumes "init_at X init kvs"
    and "Headers_new (property (read_object X init) ''headers'') = Inr hl"
    and "X2 = set_property init ''headers'' (Ref (length X)) (X @ [HeadersObject hl])"
    and "X3 = (if Headers_get hl name = None
               then set_header (Ref (length X)) name value X2 else X2)"
  shows "Headers_new_heap (get_property X init ''headers'') X =
           (Inr (length X), X @ [HeadersObject hl])"
    and "get_property X2 init ''headers'' = Ref (length X)"
    and "get_is_null X2 (Ref (length X)) name = Inr (Headers_get hl name = None)"
    and "keeps X init X3"
    and "init_at X3 init (put ''headers'' (Ref (length X)) kvs)"
    and "read_object X3 init = (read_object X init)(''headers'' \<mapsto> HeadersV
           (if Headers_get hl name = None then Headers_set hl name value else hl))"
proof -
  let ?h = "length X"
  let ?hl' = "if Headers_get hl name = None then Headers_set hl name value else hl"
  from assms(1) have lt: "init < length X" and at: "X ! init = PlainObject kvs"
    by (simp_all add: init_at_def)
  from assms(2) show "Headers_new_heap (get_property X init ''headers'') X =
      (Inr ?h, X @ [HeadersObject hl])"
    by (simp add: Headers_new_heap_def alloc_def property_read_object)
  have X2: "X2 = (X @ [HeadersObject hl])[init := PlainObject (put ''headers'' (Ref ?h) kvs)]"
    using lt at by (simp add: assms(3) set_property_def nth_append)
  have n2: "X2 ! init = PlainObject (put ''headers'' (Ref ?h) kvs)"
    "X2 ! ?h = HeadersObject hl" "length X2 = Suc ?h"
    using lt by (simp_all add: X2 nth_append)
  from lt n2 show "get_property X2 init ''headers'' = Ref ?h"
    by (simp add: get_property_def own_properties_def map_of_put)
  from n2 show "get_is_null X2 (Ref ?h) name = Inr (Headers_get hl name = None)"
    by (simp add: get_is_null_def)
  have n3: "X3 ! init = PlainObject (put ''headers'' (Ref ?h) kvs)"
    "X3 ! ?h = HeadersObject ?hl'" "length X3 = Suc ?h"
    "\<forall>a. a < ?h \<longrightarrow> a \<noteq> init \<longrightarrow> X3 ! a = X ! a"
    using lt n2 by (simp_all add: assms(4) set_header_def) (simp_all add: X2 nth_append)
  from n3 show K: "keeps X init X3"
    by (simp add: keeps_def)
  from lt n3 have E: "elsewhere X3 init (Ref ?h)"
    by (simp add: elsewhere_def)
  from assms(1) K n3(1) E show "init_at X3 init (put ''headers'' (Ref ?h) kvs)"
    by (rule init_at_update)
  from n3 have "read_value X3 (Ref ?h) = HeadersV ?hl'"
    by (simp add: read_value_def)
  with read_object_update[OF assms(1) K n3(1)]
  show "read_object X3 init = (read_object X init)(''headers'' \<mapsto> HeadersV ?hl')"
    by simp
qed

text \<open>Lines 128 to 133 in both readings.\<close>

lemma accept_json_heap_refines:
  assumes "init_at X init kvs"
    and "elsewhere X init requestJSON" and "elsewhere X init returnJSON"
    and "accept_json_heap requestJSON returnJSON init X = (r, Y)"
  shows "accept_json (read_value X requestJSON) (read_value X returnJSON) (read_object X init) =
           (case r of Inl e \<Rightarrow> Inl e | Inr u \<Rightarrow> Inr (read_object Y init))"
    and "keeps X init Y" and "\<exists>kvs'. init_at Y init kvs'"
proof -
  let ?c = "truthy_value requestJSON \<or> truthy_value returnJSON"
  have c: "(truthy (read_value X requestJSON) \<or> truthy (read_value X returnJSON)) = ?c"
    using assms(2,3) by (simp add: truthy_read_value)
  have "accept_json (read_value X requestJSON) (read_value X returnJSON) (read_object X init) =
           (case r of Inl e \<Rightarrow> Inl e | Inr u \<Rightarrow> Inr (read_object Y init)) \<and>
        keeps X init Y \<and> (\<exists>kvs'. init_at Y init kvs')"
  proof (cases ?c)
    case False
    with assms(4) have "r = Inr ()" "Y = X"
      by (simp_all add: accept_json_heap_def)
    with False c assms(1) show ?thesis
      by (auto simp: accept_json_def keeps_refl)
  next
    case True
    show ?thesis
    proof (cases "Headers_new (property (read_object X init) ''headers'')")
      case (Inl e)
      then have "Headers_new_heap (get_property X init ''headers'') X = (Inl e, X)"
        by (simp add: Headers_new_heap_def property_read_object)
      with True assms(4) have "r = Inl (Thrown e)" "Y = X"
        by (simp_all add: accept_json_heap_def)
      with True c Inl assms(1) show ?thesis
        by (auto simp: accept_json_def keeps_refl)
    next
      case (Inr hl)
      define X2 where
        "X2 = set_property init ''headers'' (Ref (length X)) (X @ [HeadersObject hl])"
      define X3 where
        "X3 = (if Headers_get hl ''accept'' = None
               then set_header (Ref (length X)) ''accept'' ''application/json'' X2 else X2)"
      note I = install_headers[OF assms(1) Inr X2_def X3_def]
      have "accept_json_heap requestJSON returnJSON init X = (Inr (), X3)"
        using True I(1) I(2)[unfolded X2_def] I(3)[unfolded X2_def]
        unfolding accept_json_heap_def Let_def X3_def X2_def
        by (cases "Headers_get hl ''accept''") simp_all
      with assms(4) have "r = Inr ()" "Y = X3"
        by simp_all
      with I(4,5,6) True c Inr show ?thesis
        by (auto simp: accept_json_def)
    qed
  qed
  then show "accept_json (read_value X requestJSON) (read_value X returnJSON)
      (read_object X init) = (case r of Inl e \<Rightarrow> Inl e | Inr u \<Rightarrow> Inr (read_object Y init))"
    and "keeps X init Y" and "\<exists>kvs'. init_at Y init kvs'"
    by simp_all
qed

text \<open>Lines 134 to 145 in both readings.\<close>

lemma send_json_heap_refines:
  assumes "init_at X init kvs"
    and "elsewhere X init sendJSON" and "elsewhere X init body"
    and "send_json_heap P sendJSON body init X = (r, Y)"
  shows "send_json P (read_value X sendJSON) (read_value X body) (read_object X init) =
           (case r of Inl e \<Rightarrow> Inl e | Inr u \<Rightarrow> Inr (read_object Y init))"
    and "keeps X init Y"
proof -
  let ?c = "truthy_value sendJSON \<and> body \<noteq> Prim Undefined"
  have c: "(truthy (read_value X sendJSON) \<and> read_value X body \<noteq> Undefined) = ?c"
    using assms(2,3) by (simp add: truthy_read_value undefined_read_value)
  have "send_json P (read_value X sendJSON) (read_value X body) (read_object X init) =
           (case r of Inl e \<Rightarrow> Inl e | Inr u \<Rightarrow> Inr (read_object Y init)) \<and>
        keeps X init Y"
  proof (cases ?c)
    case False
    with assms(4) have "r = Inr ()" "Y = set_property init ''body'' body X"
      by (auto simp: send_json_heap_def)
    with False c set_property_init(1,3)[OF assms(1,3), of "''body''"] show ?thesis
      by (auto simp: send_json_def)
  next
    case True
    define X1 where "X1 =
      (if eq_null_value (get_property X init ''method'')
       then set_property init ''method'' (Prim (Str ''POST'')) X else X)"
    define init1 where "init1 =
      (if eq_null (property (read_object X init) ''method'')
       then (read_object X init)(''method'' \<mapsto> Str ''POST'') else read_object X init)"
    have m: "eq_null (property (read_object X init) ''method'') =
             eq_null_value (get_property X init ''method'')"
      using eq_null_read_value[OF get_property_elsewhere[OF assms(1)], of "''method''"]
      by (simp add: property_read_object)
    have "\<exists>kvs1. init_at X1 init kvs1"
      using assms(1) set_property_init(2)[OF assms(1) elsewhere_Prim]
      by (auto simp: X1_def)
    then obtain kvs1 where i1: "init_at X1 init kvs1" ..
    have k1: "keeps X init X1"
      using set_property_init(1)[OF assms(1) elsewhere_Prim]
      by (simp add: X1_def keeps_refl)
    have r1: "read_object X1 init = init1"
      using set_property_init(3)[OF assms(1) elsewhere_Prim]
      by (simp add: X1_def init1_def m read_value_Prim)
    show ?thesis
    proof (cases "Headers_new (property init1 ''headers'')")
      case (Inl e)
      then have "Headers_new_heap (get_property X1 init ''headers'') X1 = (Inl e, X1)"
        by (simp add: Headers_new_heap_def property_read_object r1[symmetric])
      with True assms(4) have "r = Inl (Thrown e)" "Y = X1"
        unfolding send_json_heap_def Let_def X1_def
        by simp_all
      with True c Inl k1 show ?thesis
        by (simp add: send_json_def Let_def init1_def[symmetric])
    next
      case (Inr hl)
      define X2 where
        "X2 = set_property init ''headers'' (Ref (length X1)) (X1 @ [HeadersObject hl])"
      define X3 where
        "X3 = (if Headers_get hl ''content-type'' = None
               then set_header (Ref (length X1)) ''content-type'' ''application/json'' X2
               else X2)"
      define init2 where "init2 = init1(''headers'' \<mapsto> HeadersV
        (if Headers_get hl ''content-type'' = None
         then Headers_set hl ''content-type'' ''application/json'' else hl))"
      note I = install_headers[OF i1 Inr[folded r1] X2_def X3_def]
      have k3: "keeps X init X3"
        using k1 I(4) by (rule keeps_trans)
      have b3: "read_value X3 body = read_value X body"
        using k3 assms(3) by (rule read_value_keeps)
      have r3: "read_object X3 init = init2"
        using I(6) by (simp add: init2_def r1)
      have run: "send_json_heap P sendJSON body init X =
          (case JSON_stringify P (read_value X body) of
             Inl e \<Rightarrow> (Inl (Thrown e), X3)
           | Inr json \<Rightarrow> (Inr (), set_property init ''body'' (Prim json) X3))"
        using True I(1)[unfolded X1_def] I(2)[unfolded X2_def X1_def]
          I(3)[unfolded X2_def X1_def] b3[unfolded X3_def X2_def X1_def]
        unfolding send_json_heap_def Let_def X3_def X2_def X1_def
        by (cases "eq_null_value (get_property X init ''method'')";
            cases "Headers_get hl ''content-type''") (simp_all split: sum.splits)
      have pure: "send_json P (read_value X sendJSON) (read_value X body) (read_object X init) =
          (case JSON_stringify P (read_value X body) of
             Inl e \<Rightarrow> Inl (Thrown e)
           | Inr json \<Rightarrow> Inr (init2(''body'' \<mapsto> json)))"
        using True c Inr unfolding init2_def
        by (simp add: send_json_def Let_def init1_def[symmetric])
      show ?thesis
      proof (cases "JSON_stringify P (read_value X body)")
        case (Inl e)
        with run assms(4) have "r = Inl (Thrown e)" "Y = X3"
          by simp_all
        with pure Inl k3 show ?thesis
          by simp
      next
        case (Inr json)
        with run assms(4) have "r = Inr ()" "Y = set_property init ''body'' (Prim json) X3"
          by simp_all
        with pure Inr r3 k3 set_property_init(1,3)[OF I(5) elsewhere_Prim, of "''body''" json]
        show ?thesis
          by (auto simp: read_value_Prim intro: keeps_trans)
      qed
    qed
  qed
  then show "send_json P (read_value X sendJSON) (read_value X body) (read_object X init) =
           (case r of Inl e \<Rightarrow> Inl e | Inr u \<Rightarrow> Inr (read_object Y init))"
    and "keeps X init Y"
    by simp_all
qed

text \<open>Lines 113 to 126 in both readings.\<close>

lemma destructure_refines:
  assumes "well_formed H gretchenInit" and "destructure gretchenInit H = ((copy, init), H2)"
  shows "\<exists>kvs. init_at H2 init kvs"
    and "read_object H2 init = rest (options (map_option (read_object H) gretchenInit))"
    and "elsewhere H2 init (get_property H2 copy k)"
    and "read_value H2 (get_property H2 copy k) =
           property (options (map_option (read_object H) gretchenInit)) k"
proof -
  define kvs0 where
    "kvs0 = (case gretchenInit of None \<Rightarrow> [] | Some g \<Rightarrow> own_properties H g)"
  define H0 where
    "H0 = (case gretchenInit of None \<Rightarrow> H @ [PlainObject []] | Some g \<Rightarrow> H)"
  define rest0 where "rest0 = filter (\<lambda>(k, v). k \<notin> set destructured) kvs0"
  have d: "copy = length H0" "init = Suc (length H0)"
    "H2 = H0 @ [PlainObject kvs0, PlainObject rest0]"
    using assms(2)
    by (auto simp: destructure_def alloc_def kvs0_def H0_def rest0_def own_properties_append
        split: option.splits)
  have b: "list_all (\<lambda>(k, v). below (length H) v) kvs0"
    using assms(1) by (simp add: well_formed_def kvs0_def split: option.splits)
  have l: "length H \<le> length H0"
    by (simp add: H0_def split: option.splits)
  have t: "\<And>a. a < length H \<Longrightarrow> H2 ! a = H ! a"
    by (simp add: d H0_def nth_append split: option.splits)
  have rv: "elsewhere H2 init v \<and> read_value H2 v = read_value H v" if "below (length H) v" for v
    using that l t by (cases v) (auto simp: below_def elsewhere_def read_value_def d)
  have o: "options (map_option (read_object H) gretchenInit) =
           map_of (map (\<lambda>(k, v). (k, read_value H v)) kvs0)"
    by (simp add: options_def spread_def read_object_def kvs0_def split: option.splits)
  have at: "H2 ! init = PlainObject rest0" "H2 ! copy = PlainObject kvs0"
    "init < length H2" "copy < length H2"
    by (simp_all add: d nth_append)
  have bm: "below (length H) v" if "map_of kvs0 k' = Some v" for k' v
    using b map_of_SomeD[OF that] by (auto simp: list_all_iff)
  have "list_all (\<lambda>(k, v). elsewhere H2 init v) rest0"
    using b rv by (auto simp: list_all_iff rest0_def)
  with at show "\<exists>kvs. init_at H2 init kvs"
    by (auto simp: init_at_def)
  have g: "get_property H2 copy k = (case map_of kvs0 k of None \<Rightarrow> Prim Undefined | Some v \<Rightarrow> v)"
    using at by (simp add: get_property_def own_properties_def)
  have bg: "below (length H) (get_property H2 copy k)"
    using bm[of k] by (cases "map_of kvs0 k") (simp_all add: g below_def)
  from rv[OF bg] show "elsewhere H2 init (get_property H2 copy k)"
    by simp
  from rv[OF bg] show "read_value H2 (get_property H2 copy k) =
      property (options (map_option (read_object H) gretchenInit)) k"
    by (simp add: o property_def map_of_map g read_value_def split: option.split)
  show "read_object H2 init = rest (options (map_option (read_object H) gretchenInit))"
  proof (rule ext)
    fix k'
    have "map_option (read_value H2) (map_of kvs0 k') = map_option (read_value H) (map_of kvs0 k')"
      using bm[of k'] rv by (cases "map_of kvs0 k'") simp_all
    with at show "read_object H2 init k' =
        rest (options (map_option (read_object H) gretchenInit)) k'"
      by (simp add: read_object_def own_properties_def map_of_map rest0_def map_of_filter_names
          rest_def o)
  qed
qed

text \<open>The function with the store computes what the function on values computes.\<close>

lemma gretchen_heap_refines:
  assumes "well_formed H gretchenInit"
  shows "snd (gretchen_heap P input gretchenInit H w) =
           gretchen P input (map_option (read_object H) gretchenInit) w"
proof -
  let ?G = "map_option (read_object H) gretchenInit"
  obtain copy init H2 where d: "destructure gretchenInit H = ((copy, init), H2)"
    by (cases "destructure gretchenInit H") auto
  note D = destructure_refines[OF assms d]
  from D(1) obtain kvs where i2: "init_at H2 init kvs" ..
  show ?thesis
  proof (cases "instanceof_Request input")
    case True
    with d D(2) D(4) show ?thesis
      by (simp add: gretchen_heap_def gretchen_def request_init_def Let_def)
  next
    case False
    obtain r3 H3 where a: "accept_json_heap (get_property H2 copy ''requestJSON'')
        (get_property H2 copy ''returnJSON'') init H2 = (r3, H3)"
      by (cases "accept_json_heap (get_property H2 copy ''requestJSON'')
        (get_property H2 copy ''returnJSON'') init H2")
    note A = accept_json_heap_refines[OF i2 D(3) D(3) a]
    show ?thesis
    proof (cases r3)
      case (Inl e)
      with False d a A(1) D(4) show ?thesis
        by (simp add: gretchen_heap_def gretchen_def request_init_def Let_def D(2))
    next
      case (Inr u)
      obtain r4 H4 where s: "send_json_heap P (get_property H2 copy ''sendJSON'')
          (get_property H2 copy ''body'') init H3 = (r4, H4)"
        by (cases "send_json_heap P (get_property H2 copy ''sendJSON'')
          (get_property H2 copy ''body'') init H3")
      from A(3) obtain kvs3 where i3: "init_at H3 init kvs3" ..
      have e3: "elsewhere H3 init (get_property H2 copy k)" for k
        using A(2) D(3) by (rule elsewhere_keeps)
      have v3: "read_value H3 (get_property H2 copy k) =
          property (options ?G) k" for k
        using read_value_keeps[OF A(2) D(3), of k] D(4)[of k] by simp
      note S = send_json_heap_refines[OF i3 e3 e3 s]
      have k4: "keeps H2 init H4"
        using A(2) S(2) by (rule keeps_trans)
      have v4: "read_value H4 (get_property H2 copy k) =
          property (options ?G) k" for k
        using read_value_keeps[OF k4 D(3), of k] D(4)[of k] by simp
      have ri: "request_init P input ?G =
          (case r4 of Inl e \<Rightarrow> Inl e | Inr u \<Rightarrow> Inr (read_object H4 init))"
        using False A(1) Inr S(1)
        by (simp add: request_init_def Let_def D(2) D(4) v3)
      show ?thesis
      proof (cases r4)
        case (Inl e)
        with False d a Inr s ri show ?thesis
          by (simp add: gretchen_heap_def gretchen_def Let_def)
      next
        case (Inr u')
        with False d a \<open>r3 = Inr u\<close> s ri v4 show ?thesis
          by (simp add: gretchen_heap_def gretchen_def Let_def)
      qed
    qed
  qed
qed

text \<open>
  Claim C10. Every object that exists when \<^verbatim>\<open>gretchen\<close> is called is the same when the
  request has been prepared, whatever the options are and whether the call returns,
  throws or retries for ever: the configuration object, the header container or the
  record of headers that it refers to, and every other object of the caller. The call
  writes only to objects that it has made itself: the shallow copy of the configuration,
  the object \<open>rest\<close>, and the header containers that \<^verbatim>\<open>new Headers\<close> returns, on which the
  defaults for \<^verbatim>\<open>accept\<close> and \<^verbatim>\<open>content-type\<close> are set. When the references of the
  configuration are to objects of the store, the outcome is the outcome of \<open>gretchen\<close> on
  the values that the caller's objects hold when the call is made.
\<close>

theorem caller_objects_unchanged:
  assumes "gretchen_heap P input gretchenInit H w = (H', outcome)"
  shows "length H \<le> length H' \<and> (\<forall>a. a < length H \<longrightarrow> H' ! a = H ! a) \<and>
         (well_formed H gretchenInit \<longrightarrow>
            outcome = gretchen P input (map_option (read_object H) gretchenInit) w)"
proof -
  obtain copy init H2 where d: "destructure gretchenInit H = ((copy, init), H2)"
    by (cases "destructure gretchenInit H") auto
  note D = destructure_frame[OF d]
  from D(4) obtain kvs where k: "H2 ! init = PlainObject kvs" ..
  from D(1) have l2: "length H \<le> length H2"
    by (metis length_take min.cobounded1 min.commute)
  have frame: "take (length H) H' = H \<and> length H \<le> length H'"
  proof (cases "instanceof_Request input")
    case True
    with assms d have "H' = H2"
      by (simp add: gretchen_heap_def Let_def)
    with D(1) l2 show ?thesis
      by simp
  next
    case False
    obtain r3 H3 where a: "accept_json_heap (get_property H2 copy ''requestJSON'')
        (get_property H2 copy ''returnJSON'') init H2 = (r3, H3)"
      by (cases "accept_json_heap (get_property H2 copy ''requestJSON'')
        (get_property H2 copy ''returnJSON'') init H2")
    from accept_json_heap_frame[OF D(2,3) k a] obtain kvs3 where
      f3: "take (length H) H3 = take (length H) H2" "length H2 \<le> length H3"
        "H3 ! init = PlainObject kvs3"
      by auto
    show ?thesis
    proof (cases r3)
      case (Inl e)
      with False assms d a have "H' = H3"
        by (simp add: gretchen_heap_def Let_def)
      with f3 D(1) l2 show ?thesis
        by simp
    next
      case (Inr u)
      obtain r4 H4 where s: "send_json_heap P (get_property H2 copy ''sendJSON'')
          (get_property H2 copy ''body'') init H3 = (r4, H4)"
        by (cases "send_json_heap P (get_property H2 copy ''sendJSON'')
          (get_property H2 copy ''body'') init H3")
      from D(3) f3(2) have "init < length H3"
        by simp
      from send_json_heap_frame[OF D(2) this f3(3) s]
      have f4: "take (length H) H4 = take (length H) H3" "length H3 \<le> length H4"
        by simp_all
      from False assms d a Inr s have "H' = H4"
        by (cases r4) (simp_all add: gretchen_heap_def Let_def)
      with f4 f3 D(1) l2 show ?thesis
        by simp
    qed
  qed
  then have "\<forall>a. a < length H \<longrightarrow> H' ! a = H ! a"
    by (metis nth_take)
  moreover have "well_formed H gretchenInit \<longrightarrow>
      outcome = gretchen P input (map_option (read_object H) gretchenInit) w"
    using gretchen_heap_refines[of H gretchenInit P input w] assms by simp
  ultimately show ?thesis
    using frame by simp
qed

theorem caller_objects_unchanged_witness:
  \<open>gretchen_heap scripted (StringInput ''http://h/'') (Some 1)
     [HeadersObject [(''X-Id'', ''7'')],
      PlainObject [(''requestJSON'', Prim (Bool True)), (''sendJSON'', Prim (Bool True)),
        (''body'', Prim (Obj [(''Wednesday'', Str ''pink'')])), (''headers'', Ref 0)]]
     (start [Inr foo_bar]) =
   ([HeadersObject [(''X-Id'', ''7'')],
     PlainObject [(''requestJSON'', Prim (Bool True)), (''sendJSON'', Prim (Bool True)),
       (''body'', Prim (Obj [(''Wednesday'', Str ''pink'')])), (''headers'', Ref 0)],
     PlainObject [(''requestJSON'', Prim (Bool True)), (''sendJSON'', Prim (Bool True)),
       (''body'', Prim (Obj [(''Wednesday'', Str ''pink'')])), (''headers'', Ref 0)],
     PlainObject [(''headers'', Ref 5), (''method'', Prim (Str ''POST'')),
       (''body'', Prim (Str ''{"Wednesday":"pink"}''))],
     HeadersObject [(''X-Id'', ''7''), (''accept'', ''application/json'')],
     HeadersObject [(''X-Id'', ''7''), (''accept'', ''application/json''),
       (''content-type'', ''application/json'')]],
    Some (Inr (Response foo_bar),
      \<lparr>clock = 10, script = [], timers = [],
       sent = [(StringInput ''http://h/'',
         [''headers'' \<mapsto> HeadersV [(''X-Id'', ''7''), (''accept'', ''application/json''),
            (''content-type'', ''application/json'')],
          ''method'' \<mapsto> Str ''POST'',
          ''body'' \<mapsto> Str ''{"Wednesday":"pink"}''])]\<rparr>)) \<and>
   fst (gretchen_heap scripted (StringInput ''http://h/'') (Some 1)
     [HeadersObject [(''X-Id'', ''7'')],
      PlainObject [(''requestJSON'', Prim (Bool True)), (''sendJSON'', Prim (Bool True)),
        (''body'', Prim (Obj [(''Wednesday'', Str ''pink'')])), (''headers'', Ref 0)]]
     (start [Inr foo_bar])) ! 0 = HeadersObject [(''X-Id'', ''7'')] \<and>
   fst (gretchen_heap scripted (StringInput ''http://h/'') (Some 1)
     [HeadersObject [(''X-Id'', ''7'')],
      PlainObject [(''requestJSON'', Prim (Bool True)), (''sendJSON'', Prim (Bool True)),
        (''body'', Prim (Obj [(''Wednesday'', Str ''pink'')])), (''headers'', Ref 0)]]
     (start [Inr foo_bar])) ! 1 =
     PlainObject [(''requestJSON'', Prim (Bool True)), (''sendJSON'', Prim (Bool True)),
        (''body'', Prim (Obj [(''Wednesday'', Str ''pink'')])), (''headers'', Ref 0)] \<and>
   gretchen scripted (StringInput ''http://h/'')
     (Some [''requestJSON'' \<mapsto> Bool True, ''sendJSON'' \<mapsto> Bool True,
            ''body'' \<mapsto> Obj [(''Wednesday'', Str ''pink'')],
            ''headers'' \<mapsto> HeadersV [(''X-Id'', ''7'')]])
     (start [Inr foo_bar]) =
   snd (gretchen_heap scripted (StringInput ''http://h/'') (Some 1)
     [HeadersObject [(''X-Id'', ''7'')],
      PlainObject [(''requestJSON'', Prim (Bool True)), (''sendJSON'', Prim (Bool True)),
        (''body'', Prim (Obj [(''Wednesday'', Str ''pink'')])), (''headers'', Ref 0)]]
     (start [Inr foo_bar]))\<close>
proof -
  let ?i = "StringInput ''http://h/''"
  let ?c = "PlainObject [(''requestJSON'', Prim (Bool True)), (''sendJSON'', Prim (Bool True)),
        (''body'', Prim (Obj [(''Wednesday'', Str ''pink'')])), (''headers'', Ref 0)]"
  let ?H = "[HeadersObject [(''X-Id'', ''7'')], ?c]"
  let ?H' = \<open>[HeadersObject [(''X-Id'', ''7'')], ?c, ?c,
     PlainObject [(''headers'', Ref 5), (''method'', Prim (Str ''POST'')),
       (''body'', Prim (Str ''{"Wednesday":"pink"}''))],
     HeadersObject [(''X-Id'', ''7''), (''accept'', ''application/json'')],
     HeadersObject [(''X-Id'', ''7''), (''accept'', ''application/json''),
       (''content-type'', ''application/json'')]]\<close>
  let ?init = \<open>[''headers'' \<mapsto> HeadersV [(''X-Id'', ''7''), (''accept'', ''application/json''),
            (''content-type'', ''application/json'')],
          ''method'' \<mapsto> Str ''POST'',
          ''body'' \<mapsto> Str ''{"Wednesday":"pink"}'']\<close>
  let ?w = "\<lparr>clock = 10, script = [], timers = [], sent = [(?i, ?init)]\<rparr>"
  let ?g = "gretchen_heap scripted ?i (Some 1) ?H (start [Inr foo_bar])"
  let ?G = "[''requestJSON'' \<mapsto> Bool True, ''sendJSON'' \<mapsto> Bool True,
            ''body'' \<mapsto> Obj [(''Wednesday'', Str ''pink'')],
            ''headers'' \<mapsto> HeadersV [(''X-Id'', ''7'')]]"
  have L: "gretchen_loop scripted ?i ?init Undefined Undefined Undefined
             (start [Inr foo_bar]) = Some (Inr (Response foo_bar), ?w)"
    using gretchen_loop_step[of scripted ?i ?init "start [Inr foo_bar]" foo_bar ?w
        Undefined Undefined Undefined]
    by (simp add: scripted_simps retry_delay_def finalize_def)
  have D: "destructure (Some 1) ?H =
      ((2, 3), [HeadersObject [(''X-Id'', ''7'')], ?c, ?c, PlainObject [(''headers'', Ref 0)]])"
    by code_simp
  have A: "accept_json_heap (Prim (Bool True)) (Prim Undefined) 3
      [HeadersObject [(''X-Id'', ''7'')], ?c, ?c, PlainObject [(''headers'', Ref 0)]] =
      (Inr (), [HeadersObject [(''X-Id'', ''7'')], ?c, ?c, PlainObject [(''headers'', Ref 4)],
        HeadersObject [(''X-Id'', ''7''), (''accept'', ''application/json'')]])"
    by code_simp
  have S: "send_json_heap scripted (Prim (Bool True)) (Prim (Obj [(''Wednesday'', Str ''pink'')])) 3
      [HeadersObject [(''X-Id'', ''7'')], ?c, ?c, PlainObject [(''headers'', Ref 4)],
        HeadersObject [(''X-Id'', ''7''), (''accept'', ''application/json'')]] = (Inr (), ?H')"
    by code_simp
  have R: "read_object ?H' 3 = ?init"
    by (rule ext) (simp add: read_object_def own_properties_def read_value_def)
  have E: "?g = (?H', Some (Inr (Response foo_bar), ?w))"
    unfolding gretchen_heap_def D
    by (simp add: A S L R get_property_def own_properties_def read_value_def)
  have "?g = (fst ?g, snd ?g)"
    by simp
  note T = caller_objects_unchanged[OF this]
  from T[THEN conjunct2, THEN conjunct1, THEN spec, of 0]
  have t0: "fst ?g ! 0 = HeadersObject [(''X-Id'', ''7'')]"
    by simp
  from T[THEN conjunct2, THEN conjunct1, THEN spec, of 1]
  have t1: "fst ?g ! 1 = ?c"
    by simp
  have wf: "well_formed ?H (Some 1)"
    by (simp add: well_formed_def own_properties_def below_def)
  have G: "map_option (read_object ?H) (Some 1) = Some ?G"
    by (simp add: read_object_def own_properties_def read_value_def) (rule ext, simp)
  from T[THEN conjunct2, THEN conjunct2, THEN mp, OF wf]
  have t2: "gretchen scripted ?i (Some ?G) (start [Inr foo_bar]) = snd ?g"
    by (simp only: G)
  from E t0 t1 t2 show ?thesis
    by (intro conjI)
qed

end
